theory Spec2Isabelle
  imports Complex_Main
begin

section \<open>Exceptions and commands\<close>

text \<open>
  A Python exception is a value. \<open>ValueError\<close> is what \<open>add_node\<close> raises on a name that
  is taken (the specification calls it \<open>DuplicateNameError\<close>); \<open>UnpackError\<close> is the
  \<open>ValueError\<close> of a tuple unpacking of the wrong length; \<open>DecodeError\<close> is a name the
  naming codec cannot decode; \<open>HostError\<close> is any error of the host scene (no such node,
  no such attribute, a name that is taken).
\<close>

datatype error =
    ValueError string
  | UnpackError
  | TypeError
  | AttributeError
  | KeyError
  | DecodeError
  | HostError
  | NotImplementedError

text \<open>
  A command runs on a state and ends with a value or an exception; the state it reached is
  returned in both cases, since nothing is rolled back when an exception propagates.
\<close>

type_synonym ('s, 'a) cmd = "'s \<Rightarrow> (error + 'a) \<times> 's"

definition ret :: "'a \<Rightarrow> ('s, 'a) cmd" where
  "ret x = (\<lambda>s. (Inr x, s))"

definition raise :: "error \<Rightarrow> ('s, 'a) cmd" where
  "raise e = (\<lambda>s. (Inl e, s))"

definition bnd :: "('s, 'a) cmd \<Rightarrow> ('a \<Rightarrow> ('s, 'b) cmd) \<Rightarrow> ('s, 'b) cmd" where
  "bnd c f = (\<lambda>s. case c s of (Inl e, s') \<Rightarrow> (Inl e, s') | (Inr x, s') \<Rightarrow> f x s')"

definition seq :: "('s, 'a) cmd \<Rightarrow> ('s, 'b) cmd \<Rightarrow> ('s, 'b) cmd" where
  "seq c d = bnd c (\<lambda>_. d)"

definition modify :: "('s \<Rightarrow> 's) \<Rightarrow> ('s, unit) cmd" where
  "modify f = (\<lambda>s. (Inr (), f s))"

fun for_each :: "'a list \<Rightarrow> ('a \<Rightarrow> ('s, unit) cmd) \<Rightarrow> ('s, unit) cmd" where
  "for_each [] f = ret ()"
| "for_each (x # xs) f = seq (f x) (for_each xs f)"

section \<open>The host scene\<close>

text \<open>
  The scene graph of the host application is not part of the repository. It is modelled as
  an in-memory store with the interface the specification lists for it: nodes addressed by
  name, each with a type, a parent and a list of attributes, and a table of connections
  between attributes. A node keeps a stable handle \<open>nid\<close> under renaming; references held
  in attributes and connections are handles, as the host's message connections are.
  Numbers are real numbers: the host computes in floating point, and the model leaves
  rounding out.
\<close>

type_synonym vec3 = "real \<times> real \<times> real"
type_synonym vec4 = "real \<times> real \<times> real \<times> real"
type_synonym mat3 = "vec3 \<times> vec3 \<times> vec3"
type_synonym mat4 = "vec4 \<times> vec4 \<times> vec4 \<times> vec4"

datatype aval =
    ANone
  | ABool bool
  | AInt int
  | AReal real
  | AStr string
  | AVec vec3
  | AMat mat4
  | ARef "nat option"
  | ARefs "nat list"

record attr =
  aname :: string
  acategory :: "string option"
  avalue :: aval

record node =
  nid :: nat
  nname :: string
  ntype :: string
  nparent :: "nat option"
  nattrs :: "attr list"

record scene =
  nodes :: "node list"
  conns :: "(nat \<times> string \<times> nat \<times> string) list"
  next_id :: nat

definition node_by_name :: "scene \<Rightarrow> string \<Rightarrow> node option" where
  "node_by_name s n = find (\<lambda>nd. nname nd = n) (nodes s)"

definition node_by_id :: "scene \<Rightarrow> nat \<Rightarrow> node option" where
  "node_by_id s i = find (\<lambda>nd. nid nd = i) (nodes s)"

definition upd_node :: "nat \<Rightarrow> (node \<Rightarrow> node) \<Rightarrow> scene \<Rightarrow> scene" where
  "upd_node i f s = s\<lparr>nodes := map (\<lambda>nd. if nid nd = i then f nd else nd) (nodes s)\<rparr>"

definition find_attr :: "node \<Rightarrow> string \<Rightarrow> attr option" where
  "find_attr nd a = find (\<lambda>x. aname x = a) (nattrs nd)"

definition attr_value :: "node \<Rightarrow> string \<Rightarrow> aval" where
  "attr_value nd a = (case find_attr nd a of None \<Rightarrow> ANone | Some x \<Rightarrow> avalue x)"

definition set_attr_value :: "string \<Rightarrow> aval \<Rightarrow> node \<Rightarrow> node" where
  "set_attr_value a v nd =
     (if find_attr nd a = None
      then nd\<lparr>nattrs := nattrs nd @ [\<lparr>aname = a, acategory = None, avalue = v\<rparr>]\<rparr>
      else nd\<lparr>nattrs := map (\<lambda>x. if aname x = a then x\<lparr>avalue := v\<rparr> else x) (nattrs nd)\<rparr>)"

text \<open>\<open>the_node\<close>: the host resolves a name, and fails when no node has it.\<close>

definition the_node :: "string \<Rightarrow> (scene, node) cmd" where
  "the_node n = (\<lambda>s. case node_by_name s n of None \<Rightarrow> (Inl HostError, s) | Some nd \<Rightarrow> (Inr nd, s))"

text \<open>\<open>cmds.objExists(name)\<close>\<close>

definition objExists :: "string \<Rightarrow> (scene, bool) cmd" where
  "objExists n = (\<lambda>s. (Inr (node_by_name s n \<noteq> None), s))"

definition fresh_node :: "string \<Rightarrow> string \<Rightarrow> nat option \<Rightarrow> scene \<Rightarrow> scene" where
  "fresh_node ty n p s =
     s\<lparr>nodes := nodes s @ [\<lparr>nid = next_id s, nname = n, ntype = ty, nparent = p, nattrs = []\<rparr>],
       next_id := Suc (next_id s)\<rparr>"

text \<open>
  \<open>cmds.createNode(node_type, name=name, parent=parent)\<close>: a new node of the given type under
  the given name; the call returns the name. A name that is taken and a parent that does not
  exist are errors of the host.
\<close>

definition createNode :: "string \<Rightarrow> string \<Rightarrow> string option \<Rightarrow> (scene, string) cmd" where
  "createNode ty n parent =
     (\<lambda>s. if node_by_name s n \<noteq> None then (Inl HostError, s)
          else (case parent of
                  None \<Rightarrow> (Inr n, fresh_node ty n None s)
                | Some p \<Rightarrow>
                    (case node_by_name s p of
                       None \<Rightarrow> (Inl HostError, s)
                     | Some pn \<Rightarrow> (Inr n, fresh_node ty n (Some (nid pn)) s))))"

text \<open>
  \<open>cmds.spaceLocator(name=name)[0]\<close>: the host's locator primitive, modelled as the creation
  of one node of type \<open>locator\<close> under the given name.
\<close>

definition spaceLocator :: "string \<Rightarrow> (scene, string) cmd" where
  "spaceLocator n = createNode ''locator'' n None"

text \<open>\<open>cmds.addAttr(node, longName=a, attributeType='message')\<close>\<close>

definition addAttr :: "string \<Rightarrow> string \<Rightarrow> string option \<Rightarrow> (scene, unit) cmd" where
  "addAttr n a cat =
     bnd (the_node n) (\<lambda>nd.
       if find_attr nd a \<noteq> None then raise HostError
       else modify (upd_node (nid nd)
              (\<lambda>x. x\<lparr>nattrs := nattrs x @ [\<lparr>aname = a, acategory = cat, avalue = ANone\<rparr>]\<rparr>)))"

text \<open>\<open>cmds.connectAttr(src + '.' + a, dst + '.' + b)\<close>\<close>

definition connectAttr :: "string \<Rightarrow> string \<Rightarrow> string \<Rightarrow> string \<Rightarrow> (scene, unit) cmd" where
  "connectAttr src a dst b =
     bnd (the_node src) (\<lambda>sn.
     bnd (the_node dst) (\<lambda>dn.
       modify (\<lambda>s. s\<lparr>conns := conns s @ [(nid sn, a, nid dn, b)]\<rparr>)))"

text \<open>\<open>cmds.setAttr(node + '.' + a, v)\<close>; a built-in attribute is listed once it is set.\<close>

definition setAttr :: "string \<Rightarrow> string \<Rightarrow> aval \<Rightarrow> (scene, unit) cmd" where
  "setAttr n a v = bnd (the_node n) (\<lambda>nd. modify (upd_node (nid nd) (set_attr_value a v)))"

text \<open>\<open>cmds.getAttr(node + '.' + a)\<close>\<close>

definition getAttr :: "string \<Rightarrow> string \<Rightarrow> (scene, aval) cmd" where
  "getAttr n a = bnd (the_node n) (\<lambda>nd. ret (attr_value nd a))"

text \<open>\<open>cmds.parent(child, parent)\<close>\<close>

definition parent_cmd :: "string \<Rightarrow> string \<Rightarrow> (scene, unit) cmd" where
  "parent_cmd child p =
     bnd (the_node child) (\<lambda>cn.
     bnd (the_node p) (\<lambda>pn.
       modify (upd_node (nid cn) (\<lambda>x. x\<lparr>nparent := Some (nid pn)\<rparr>))))"

text \<open>
  \<open>cmds.rename(old, new)\<close>; the call returns the new name. Modelled from the spec: node names
  are unique in the scene and a collision raises an error.
\<close>

definition rename :: "string \<Rightarrow> string \<Rightarrow> (scene, string) cmd" where
  "rename old new =
     bnd (the_node old) (\<lambda>nd s.
       if new \<noteq> old \<and> node_by_name s new \<noteq> None then (Inl HostError, s)
       else (Inr new, upd_node (nid nd) (\<lambda>x. x\<lparr>nname := new\<rparr>) s))"

text \<open>\<open>cmds.listAttr(node, category=cat)\<close>; no attribute reads as the empty list.\<close>

definition listAttr :: "string \<Rightarrow> string \<Rightarrow> (scene, string list) cmd" where
  "listAttr n cat =
     bnd (the_node n) (\<lambda>nd. ret (map aname (filter (\<lambda>x. acategory x = Some cat) (nattrs nd))))"

text \<open>\<open>cmds.renameAttr(node + '.' + a, new)\<close>\<close>

definition renameAttr :: "string \<Rightarrow> string \<Rightarrow> string \<Rightarrow> (scene, unit) cmd" where
  "renameAttr n a new =
     bnd (the_node n) (\<lambda>nd.
       if find_attr nd a = None then raise HostError
       else if new \<noteq> a \<and> find_attr nd new \<noteq> None then raise HostError
       else modify (upd_node (nid nd)
              (\<lambda>x. x\<lparr>nattrs := map (\<lambda>y. if aname y = a then y\<lparr>aname := new\<rparr> else y) (nattrs x)\<rparr>)))"

definition ref_name :: "scene \<Rightarrow> nat \<Rightarrow> string option" where
  "ref_name s i = map_option nname (node_by_id s i)"

definition ref_names :: "scene \<Rightarrow> nat list \<Rightarrow> string list" where
  "ref_names s ids = List.map_filter (ref_name s) ids"

text \<open>\<open>cmds.listConnections(node + '.' + a, source=True) or []\<close>: the nodes connected into the attribute.\<close>

definition listConnections :: "string \<Rightarrow> string \<Rightarrow> (scene, string list) cmd" where
  "listConnections n a =
     bnd (the_node n) (\<lambda>nd s.
       (Inr (ref_names s (map fst (filter (\<lambda>(src, sa, dst, da). dst = nid nd \<and> da = a) (conns s)))), s))"

text \<open>\<open>cmds.delete(names)\<close>: the nodes go, and the connections from and to them.\<close>

definition delete :: "string list \<Rightarrow> (scene, unit) cmd" where
  "delete ns = (\<lambda>s.
     if list_ex (\<lambda>n. node_by_name s n = None) ns then (Inl HostError, s)
     else
       (let gone = map nid (filter (\<lambda>nd. nname nd \<in> set ns) (nodes s)) in
        (Inr (), s\<lparr>nodes := filter (\<lambda>nd. nname nd \<notin> set ns) (nodes s),
                   conns := filter (\<lambda>(src, sa, dst, da). src \<notin> set gone \<and> dst \<notin> set gone) (conns s)\<rparr>)))"

text \<open>\<open>cmds.listRelatives(node, parent=True)\<close>: the parent's name, or nothing.\<close>

definition listRelatives :: "string \<Rightarrow> (scene, string option) cmd" where
  "listRelatives n =
     bnd (the_node n) (\<lambda>nd s.
       (Inr (case nparent nd of None \<Rightarrow> None | Some i \<Rightarrow> ref_name s i), s))"

text \<open>The product of two 4x4 matrices, \<open>om2.MMatrix.__mul__\<close>.\<close>

definition dot4 :: "vec4 \<Rightarrow> vec4 \<Rightarrow> real" where
  "dot4 u v = (case u of (a, b, c, d) \<Rightarrow> case v of (x, y, z, w) \<Rightarrow> a * x + b * y + c * z + d * w)"

definition col :: "nat \<Rightarrow> mat4 \<Rightarrow> vec4" where
  "col j x = (case x of (r0, r1, r2, r3) \<Rightarrow>
     (let pick = (\<lambda>(a, b, c, d). if j = 0 then a else if j = 1 then b else if j = 2 then c else d)
      in (pick r0, pick r1, pick r2, pick r3)))"

definition row_mul :: "vec4 \<Rightarrow> mat4 \<Rightarrow> vec4" where
  "row_mul r x = (dot4 r (col 0 x), dot4 r (col 1 x), dot4 r (col 2 x), dot4 r (col 3 x))"

definition mat_mul :: "mat4 \<Rightarrow> mat4 \<Rightarrow> mat4" where
  "mat_mul x y = (case x of (r0, r1, r2, r3) \<Rightarrow> (row_mul r0 y, row_mul r1 y, row_mul r2 y, row_mul r3 y))"

text \<open>
  The transform of a node. The host keeps it in nine channels, the attributes
  \<open>translateX\<close> ... \<open>scaleZ\<close>, and derives the world matrix from them: the scale, then the
  rotation, then the translation, the matrices acting on row vectors. The rotation channels
  are Euler angles in degrees, applied in the order x, y, z. A channel that was never written
  reads as its default, 1 for a scale and 0 for the others, so that a transform never
  written is the identity. What writes a channel changes the world matrix, and what writes
  the world matrix writes the nine channels.

  The model reads the channels in world space, as they are for a node whose parents carry
  the identity transform, and it leaves out shear, pivots and the orientation of a joint,
  which the modules leave at zero.
\<close>

definition channel :: "node \<Rightarrow> string \<Rightarrow> real \<Rightarrow> real" where
  "channel nd a d = (case attr_value nd a of AInt i \<Rightarrow> of_int i | AReal r \<Rightarrow> r | _ \<Rightarrow> d)"

definition channels :: "node \<Rightarrow> string \<Rightarrow> real \<Rightarrow> vec3" where
  "channels nd a d = (channel nd (a @ ''X'') d, channel nd (a @ ''Y'') d, channel nd (a @ ''Z'') d)"

definition translate_of :: "node \<Rightarrow> vec3" where
  "translate_of nd = channels nd ''translate'' 0"

definition rotate_of :: "node \<Rightarrow> vec3" where
  "rotate_of nd = channels nd ''rotate'' 0"

definition scale_of :: "node \<Rightarrow> vec3" where
  "scale_of nd = channels nd ''scale'' 1"

text \<open>An angle in degrees, its cosine and its sine.\<close>

definition degrees :: "real \<Rightarrow> real" where
  "degrees x = x * 180 / pi"

definition cosd :: "real \<Rightarrow> real" where
  "cosd x = cos (x * pi / 180)"

definition sind :: "real \<Rightarrow> real" where
  "sind x = sin (x * pi / 180)"

text \<open>
  The rotation matrix of three Euler angles in degrees: the product of the rotation about
  x, the rotation about y and the rotation about z, in this order.
\<close>

definition euler_matrix :: "vec3 \<Rightarrow> mat3" where
  "euler_matrix r = (case r of (x, y, z) \<Rightarrow>
     let ca = cosd x; sa = sind x; cb = cosd y; sb = sind y; cc = cosd z; sc = sind z
     in ((cb * cc, cb * sc, - sb),
         (sa * sb * cc - ca * sc, sa * sb * sc + ca * cc, sa * cb),
         (ca * sb * cc + sa * sc, ca * sb * sc - sa * cc, ca * cb)))"

text \<open>The matrix of a scale, a rotation and a translation.\<close>

definition compose :: "vec3 \<Rightarrow> mat3 \<Rightarrow> vec3 \<Rightarrow> mat4" where
  "compose sc rot tr =
     (case sc of (sx, sy, sz) \<Rightarrow>
      case rot of ((r00, r01, r02), (r10, r11, r12), (r20, r21, r22)) \<Rightarrow>
      case tr of (tx, ty, tz) \<Rightarrow>
        ((sx * r00, sx * r01, sx * r02, 0),
         (sy * r10, sy * r11, sy * r12, 0),
         (sz * r20, sz * r21, sz * r22, 0),
         (tx, ty, tz, 1)))"

definition world_matrix :: "node \<Rightarrow> mat4" where
  "world_matrix nd = compose (scale_of nd) (euler_matrix (rotate_of nd)) (translate_of nd)"

text \<open>
  The channels of a matrix. The translation is its last row. The scale is the length of
  each of the three other rows, and the rotation is what is left of these rows once they are
  divided by it. A matrix of negative determinant mirrors: the host keeps the rotation a
  rotation and gives the sign to the three scales.
\<close>

definition position :: "mat4 \<Rightarrow> vec3" where
  "position x = (case x of (r0, r1, r2, (a, b, c, d)) \<Rightarrow> (a, b, c))"

definition linear_part :: "mat4 \<Rightarrow> mat3" where
  "linear_part x = (case x of ((a0, a1, a2, a3), (b0, b1, b2, b3), (c0, c1, c2, c3), r3) \<Rightarrow>
     ((a0, a1, a2), (b0, b1, b2), (c0, c1, c2)))"

definition norm3 :: "vec3 \<Rightarrow> real" where
  "norm3 v = (case v of (a, b, c) \<Rightarrow> sqrt (a * a + b * b + c * c))"

definition det3 :: "mat3 \<Rightarrow> real" where
  "det3 m = (case m of ((a0, a1, a2), (b0, b1, b2), (c0, c1, c2)) \<Rightarrow>
     a0 * (b1 * c2 - b2 * c1) - a1 * (b0 * c2 - b2 * c0) + a2 * (b0 * c1 - b1 * c0))"

definition scale_part :: "mat4 \<Rightarrow> vec3" where
  "scale_part x = (case linear_part x of (u, v, w) \<Rightarrow>
     let k = (if det3 (u, v, w) < 0 then - 1 else 1) in (k * norm3 u, k * norm3 v, k * norm3 w))"

definition div3 :: "vec3 \<Rightarrow> real \<Rightarrow> vec3" where
  "div3 v k = (case v of (a, b, c) \<Rightarrow> (a / k, b / k, c / k))"

definition rotation_part :: "mat4 \<Rightarrow> mat3" where
  "rotation_part x = (case linear_part x of (u, v, w) \<Rightarrow>
     case scale_part x of (sx, sy, sz) \<Rightarrow> (div3 u sx, div3 v sy, div3 w sz))"

text \<open>The angle of the point \<open>(x, y)\<close>, in \<open>(-pi, pi]\<close>, and the same in degrees.\<close>

definition atan2 :: "real \<Rightarrow> real \<Rightarrow> real" where
  "atan2 y x =
     (if 0 < x then arctan (y / x)
      else if x < 0 then (if 0 \<le> y then arctan (y / x) + pi else arctan (y / x) - pi)
      else if 0 < y then pi / 2 else if y < 0 then - (pi / 2) else 0)"

definition atan2d :: "real \<Rightarrow> real \<Rightarrow> real" where
  "atan2d y x = degrees (atan2 y x)"

definition asind :: "real \<Rightarrow> real" where
  "asind x = degrees (arcsin x)"

text \<open>
  The Euler angles of a rotation matrix, in degrees. When the angle about y is a right
  angle the two other rotations turn about the same axis, and the angle about z is taken
  as 0.
\<close>

definition euler_angles :: "mat3 \<Rightarrow> vec3" where
  "euler_angles m = (case m of ((r00, r01, r02), (r10, r11, r12), (r20, r21, r22)) \<Rightarrow>
     if r00 = 0 \<and> r01 = 0
     then (atan2d (- r21) r11, asind (- r02), 0)
     else (atan2d r12 r22, asind (- r02), atan2d r01 r00))"

text \<open>
  The angles, the square root and the inverse functions are those of the real numbers: they
  are reasoned about, not computed.
\<close>

declare cosd_def [code del] sind_def [code del] norm3_def [code del]
  degrees_def [code del] atan2_def [code del] atan2d_def [code del] asind_def [code del]

text \<open>\<open>cmds.setAttr(node + '.' + a, x, y, z)\<close> on a compound attribute: its three channels.\<close>

definition setAttr3 :: "string \<Rightarrow> string \<Rightarrow> aval \<times> aval \<times> aval \<Rightarrow> (scene, unit) cmd" where
  "setAttr3 n a v = (case v of (x, y, z) \<Rightarrow>
     seq (setAttr n (a @ ''X'') x) (seq (setAttr n (a @ ''Y'') y) (setAttr n (a @ ''Z'') z)))"

definition reals :: "vec3 \<Rightarrow> aval \<times> aval \<times> aval" where
  "reals v = (AReal (fst v), AReal (fst (snd v)), AReal (snd (snd v)))"

text \<open>\<open>cmds.getAttr(node + '.worldMatrix')\<close>\<close>

definition getAttr_worldMatrix :: "string \<Rightarrow> (scene, mat4) cmd" where
  "getAttr_worldMatrix n = bnd (the_node n) (\<lambda>nd. ret (world_matrix nd))"

text \<open>\<open>cmds.xform(node, matrix=m, worldSpace=True)\<close>\<close>

definition xform_matrix :: "string \<Rightarrow> mat4 \<Rightarrow> (scene, unit) cmd" where
  "xform_matrix n x =
     seq (setAttr3 n ''translate'' (reals (position x)))
    (seq (setAttr3 n ''rotate'' (reals (euler_angles (rotation_part x))))
         (setAttr3 n ''scale'' (reals (scale_part x))))"

text \<open>\<open>cmds.xform(node, q=True, rotation=True, ws=True)\<close>\<close>

definition xform_query_rotation :: "string \<Rightarrow> (scene, vec3) cmd" where
  "xform_query_rotation n = bnd (the_node n) (\<lambda>nd. ret (rotate_of nd))"

text \<open>\<open>cmds.xform(node, rotation=r, ws=True)\<close>\<close>

definition xform_rotation :: "string \<Rightarrow> vec3 \<Rightarrow> (scene, unit) cmd" where
  "xform_rotation n r = setAttr3 n ''rotate'' (reals r)"

text \<open>\<open>cmds.setAttr(node + '.scale', x, y, z)\<close>\<close>

definition setAttr_scale :: "string \<Rightarrow> int \<Rightarrow> int \<Rightarrow> int \<Rightarrow> (scene, unit) cmd" where
  "setAttr_scale n x y z = setAttr3 n ''scale'' (AInt x, AInt y, AInt z)"

section \<open>Fields of a node-backed object\<close>

text \<open>
  Modelled from the spec: the field descriptors and \<open>MopNode\<close> (\<open>mop.core.fields\<close>,
  \<open>mop.core.mopNode\<close>) are not among the sources. Per the specification a field is a typed,
  named value stored as an attribute of the backing node, and an object field holds a
  reference to a node. Reading a field resolves the references to the names the nodes have
  now; a reference to a node that is gone reads as absent.
\<close>

datatype pyval = PNone | PBool bool | PStr string | PList "pyval list"

datatype fkind = StringField | EnumField | BoolField | ObjectField | ObjectListField

fun read_field :: "scene \<Rightarrow> fkind \<Rightarrow> aval \<Rightarrow> pyval" where
  "read_field s BoolField (ABool b) = PBool b"
| "read_field s BoolField _ = PBool False"
| "read_field s ObjectField (ARef (Some i)) =
     (case ref_name s i of None \<Rightarrow> PNone | Some n \<Rightarrow> PStr n)"
| "read_field s ObjectField _ = PNone"
| "read_field s ObjectListField (ARefs ids) = PList (map PStr (ref_names s ids))"
| "read_field s ObjectListField _ = PList []"
| "read_field s _ (AStr v) = PStr v"
| "read_field s _ _ = PNone"

definition field_get :: "fkind \<Rightarrow> string \<Rightarrow> string \<Rightarrow> (scene, pyval) cmd" where
  "field_get k n f = (\<lambda>s. case node_by_name s n of
       None \<Rightarrow> (Inl HostError, s)
     | Some nd \<Rightarrow> (Inr (read_field s k (attr_value nd f)), s))"

definition resolve :: "scene \<Rightarrow> string \<Rightarrow> nat option" where
  "resolve s n = map_option nid (node_by_name s n)"

fun resolve_all :: "scene \<Rightarrow> pyval list \<Rightarrow> error + nat list" where
  "resolve_all s [] = Inr []"
| "resolve_all s (PStr n # ns) =
     (case resolve s n of
        None \<Rightarrow> Inl HostError
      | Some i \<Rightarrow> (case resolve_all s ns of Inl e \<Rightarrow> Inl e | Inr ids \<Rightarrow> Inr (i # ids)))"
| "resolve_all s (_ # ns) = Inl TypeError"

fun write_field :: "scene \<Rightarrow> fkind \<Rightarrow> pyval \<Rightarrow> error + aval" where
  "write_field s BoolField (PBool b) = Inr (ABool b)"
| "write_field s BoolField _ = Inl TypeError"
| "write_field s ObjectField PNone = Inr (ARef None)"
| "write_field s ObjectField (PStr n) =
     (case resolve s n of None \<Rightarrow> Inl HostError | Some i \<Rightarrow> Inr (ARef (Some i)))"
| "write_field s ObjectField _ = Inl TypeError"
| "write_field s ObjectListField (PList ns) =
     (case resolve_all s ns of Inl e \<Rightarrow> Inl e | Inr ids \<Rightarrow> Inr (ARefs ids))"
| "write_field s ObjectListField _ = Inl TypeError"
| "write_field s _ (PStr v) = Inr (AStr v)"
| "write_field s _ PNone = Inr ANone"
| "write_field s _ _ = Inl TypeError"

definition field_set :: "fkind \<Rightarrow> string \<Rightarrow> string \<Rightarrow> pyval \<Rightarrow> (scene, unit) cmd" where
  "field_set k n f v = (\<lambda>s. case node_by_name s n of
       None \<Rightarrow> (Inl HostError, s)
     | Some nd \<Rightarrow>
         (case write_field s k v of
            Inl e \<Rightarrow> (Inl e, s)
          | Inr a \<Rightarrow> (Inr (), upd_node (nid nd) (set_attr_value f a) s)))"

definition stored_refs :: "node \<Rightarrow> string \<Rightarrow> nat list" where
  "stored_refs nd f = (case attr_value nd f of ARefs ids \<Rightarrow> ids | _ \<Rightarrow> [])"

text \<open>\<open>field.append(x)\<close> on an object list field\<close>

definition field_append :: "string \<Rightarrow> string \<Rightarrow> string \<Rightarrow> (scene, unit) cmd" where
  "field_append n f x = (\<lambda>s. case node_by_name s n of
       None \<Rightarrow> (Inl HostError, s)
     | Some nd \<Rightarrow>
         (case resolve s x of
            None \<Rightarrow> (Inl HostError, s)
          | Some i \<Rightarrow>
              (Inr (), upd_node (nid nd) (set_attr_value f (ARefs (stored_refs nd f @ [i]))) s)))"

text \<open>\<open>len(field)\<close> on an object list field\<close>

definition field_len :: "string \<Rightarrow> string \<Rightarrow> (scene, nat) cmd" where
  "field_len n f =
     bnd (field_get ObjectListField n f) (\<lambda>v. case v of PList xs \<Rightarrow> ret (length xs) | _ \<Rightarrow> raise TypeError)"

text \<open>
  A Python value used where a string is needed (\<open>x + '.visibility'\<close>, a key of the naming
  record): anything else than a string raises.
\<close>

definition as_str :: "pyval \<Rightarrow> ('s, string) cmd" where
  "as_str v = (case v of PStr x \<Rightarrow> ret x | _ \<Rightarrow> raise TypeError)"

text \<open>The names in a Python list of names.\<close>

definition elems :: "pyval \<Rightarrow> string list" where
  "elems v = (case v of
     PList xs \<Rightarrow> List.map_filter (\<lambda>x. case x of PStr n \<Rightarrow> Some n | _ \<Rightarrow> None) xs
   | _ \<Rightarrow> [])"

definition truthy :: "pyval \<Rightarrow> bool" where
  "truthy v = (case v of PNone \<Rightarrow> False | PBool b \<Rightarrow> b | PStr x \<Rightarrow> x \<noteq> [] | PList xs \<Rightarrow> xs \<noteq> [])"

section \<open>The naming codec and the other collaborators\<close>

text \<open>The identity record of a node name: \<open>{base_name, side, role, description, id}\<close>.\<close>

record metadata =
  base_name :: string
  side :: string
  role :: string
  description :: "string option"
  ident :: "int option"

text \<open>A field descriptor: its name, its class and whether it is editable.\<close>

record field =
  fname :: string
  fkind :: fkind
  editable :: bool

text \<open>The data of a controller shape, a Python dictionary.\<close>

type_synonym shape = "(string \<times> aval) list"

text \<open>
  The functions and tables that \<open>RigModule\<close> uses and that are not among the sources are
  parameters of the model: the naming codec (\<open>mop.metadata\<close>), the helpers of \<open>mop.dag\<close>,
  \<open>mop.attributes\<close> and \<open>mop.utils.dg\<close>, the tables of \<open>mop.config\<close>, the registry
  \<open>all_rig_modules\<close>, the field list of a class, the shape library and \<open>json.loads\<close>.
  \<open>find_mirror_node\<close> is a lookup: it reads the scene and changes nothing.
\<close>

record env =
  name_from_metadata :: "metadata \<Rightarrow> string"
  metadata_from_name :: "string \<Rightarrow> metadata option"
  matrix_constraint :: "string \<Rightarrow> string \<Rightarrow> (scene, unit) cmd"
  snap_first_to_last :: "string \<Rightarrow> string \<Rightarrow> (scene, unit) cmd"
  add_parent_group :: "string \<Rightarrow> string \<Rightarrow> (scene, string) cmd"
  create_persistent_attribute :: "string \<Rightarrow> string \<Rightarrow> string \<Rightarrow> (scene, unit) cmd"
  find_mirror_node :: "scene \<Rightarrow> pyval \<Rightarrow> pyval"
  default_module_placement :: "string \<Rightarrow> string \<Rightarrow> mat4 list option"
  side_color :: "string \<Rightarrow> vec3 option"
  all_rig_modules :: "string \<Rightarrow> bool"
  class_fields :: "string \<Rightarrow> field list"
  create_controller_from_name :: "string \<Rightarrow> (scene, string) cmd"
  get_shape_data :: "string \<Rightarrow> (scene, shape list) cmd"
  change_controller_shape :: "string \<Rightarrow> shape list \<Rightarrow> (scene, unit) cmd"
  json_loads :: "string \<Rightarrow> shape list option"

definition decode :: "env \<Rightarrow> string \<Rightarrow> ('s, metadata) cmd" where
  "decode E n = (case metadata_from_name E n of None \<Rightarrow> raise DecodeError | Some md \<Rightarrow> ret md)"

text \<open>\<open>attr.split('__')\<close>: the pieces between the occurrences of a double underscore, read from the left.\<close>

fun split_dunder :: "string \<Rightarrow> string list" where
  "split_dunder [] = [[]]"
| "split_dunder [c] = [[c]]"
| "split_dunder (c # d # cs) =
     (if c = CHR ''_'' \<and> d = CHR ''_'' then [] # split_dunder cs
      else (case split_dunder (d # cs) of [] \<Rightarrow> [[c]] | p # ps \<Rightarrow> (c # p) # ps))"

text \<open>\<open>str.lower\<close> on ASCII letters\<close>

definition lower_char :: "char \<Rightarrow> char" where
  "lower_char c =
     (case map_of (zip ''ABCDEFGHIJKLMNOPQRSTUVWXYZ'' ''abcdefghijklmnopqrstuvwxyz'') c of
        None \<Rightarrow> c
      | Some d \<Rightarrow> d)"

definition lower :: "string \<Rightarrow> string" where
  "lower x = map lower_char x"

section \<open>RigModule\<close>

text \<open>The Python object: the name of its backing node, its rig and its class.\<close>

record rig_module =
  node_name :: string
  rig :: "string option"
  class_name :: string

definition name_get :: "rig_module \<Rightarrow> (scene, string) cmd" where
  "name_get m = bnd (field_get StringField (node_name m) ''name'') as_str"

definition side_get :: "rig_module \<Rightarrow> (scene, string) cmd" where
  "side_get m = bnd (field_get EnumField (node_name m) ''side'') as_str"

definition falsy_str :: "string option \<Rightarrow> bool" where
  "falsy_str r = (r = None \<or> r = Some [])"

text \<open>\<open>if not role: role = node_type\<close>\<close>

definition effective_role :: "string \<Rightarrow> string option \<Rightarrow> string" where
  "effective_role node_type role_arg = (if falsy_str role_arg then node_type else the role_arg)"

text \<open>
  \<open>add_node(node_type, role, object_id, description, **kwargs)\<close>; the only keyword the
  sources pass on to \<open>createNode\<close> is \<open>parent\<close>.
\<close>

definition add_node ::
  "env \<Rightarrow> rig_module \<Rightarrow> string \<Rightarrow> string option \<Rightarrow> int option \<Rightarrow> string option \<Rightarrow> string option
     \<Rightarrow> (scene, string) cmd" where
  "add_node E m node_type role_arg object_id descr parent =
     (let role' = effective_role node_type role_arg in
      bnd (name_get m) (\<lambda>bn.
      bnd (side_get m) (\<lambda>sd.
        let name = name_from_metadata E
              \<lparr>base_name = bn, side = sd, role = role', description = descr, ident = object_id\<rparr> in
        bnd (objExists name) (\<lambda>ex.
          if ex then raise (ValueError name)
          else
            bnd (if node_type = ''locator'' then spaceLocator name
                 else createNode node_type name parent) (\<lambda>nd.
            seq (addAttr nd ''module'' None)
            (seq (connectAttr (node_name m) ''message'' nd ''module'')
            (seq (field_append (node_name m) ''owned_nodes'' nd)
                 (ret nd))))))))"

text \<open>The field of the rig of a module; a module without a rig has none to read.\<close>

definition rig_field :: "rig_module \<Rightarrow> string \<Rightarrow> (scene, pyval) cmd" where
  "rig_field m f = (case rig m of None \<Rightarrow> raise AttributeError | Some r \<Rightarrow> field_get ObjectField r f)"

text \<open>\<open>cmds.parent(child, parent)\<close> on a Python value: nothing to parent under is an error of the host.\<close>

definition parent_under :: "string \<Rightarrow> pyval \<Rightarrow> (scene, unit) cmd" where
  "parent_under child p = (case p of PStr x \<Rightarrow> parent_cmd child x | _ \<Rightarrow> raise HostError)"

text \<open>
  The loops \<open>for transform in [...]: for axis in 'XYZ': cmds.setAttr(node + '.' + attr, value)\<close>
  of \<open>_add_deform_joint\<close> and \<open>_add_placement_locator\<close>.
\<close>

definition reset_channels :: "string \<Rightarrow> string list \<Rightarrow> (scene, unit) cmd" where
  "reset_channels n transforms =
     for_each transforms (\<lambda>transform.
       let v = (if transform = ''scale'' then 1 else 0) in
       for_each ''XYZ'' (\<lambda>axis. setAttr n (transform @ [axis]) (AInt v)))"

definition add_deform_joint ::
  "env \<Rightarrow> rig_module \<Rightarrow> pyval \<Rightarrow> int option \<Rightarrow> string option \<Rightarrow> (scene, string) cmd" where
  "add_deform_joint E m parent object_id descr =
     bnd (case object_id of
            None \<Rightarrow> bnd (field_len (node_name m) ''deform_joints'') (\<lambda>n. ret (Some (int n)))
          | Some i \<Rightarrow> ret (Some i)) (\<lambda>object_id'.
     bnd (add_node E m ''joint'' (Some ''deform'') object_id' descr None) (\<lambda>new_joint.
     bnd (if \<not> truthy parent then field_get ObjectField (node_name m) ''parent_joint''
          else ret parent) (\<lambda>parent'.
     bnd (if \<not> truthy parent' then rig_field m ''skeleton_group'' else ret parent') (\<lambda>parent''.
     seq (parent_under new_joint parent'')
     (seq (reset_channels new_joint [''translate'', ''rotate'', ''scale'', ''jointOrient''])
     (seq (field_append (node_name m) ''deform_joints'' new_joint)
          (ret new_joint)))))))"

definition add_placement_locator ::
  "env \<Rightarrow> rig_module \<Rightarrow> string option \<Rightarrow> int option \<Rightarrow> pyval \<Rightarrow> (scene, string) cmd" where
  "add_placement_locator E m descr object_id parent =
     bnd (add_node E m ''locator'' (Some ''placement'') object_id descr None) (\<lambda>locator.
     bnd (if \<not> truthy parent then field_get ObjectField (node_name m) ''placement_group''
          else ret parent) (\<lambda>parent'.
     seq (parent_under locator parent')
     (seq (reset_channels locator [''translate'', ''rotate'', ''scale''])
     (seq (field_append (node_name m) ''placement_locators'' locator)
          (ret locator)))))"

text \<open>\<open>new_shape_data = shape_data.copy(); new_shape_data[k] = v\<close>\<close>

definition dict_set :: "string \<Rightarrow> aval \<Rightarrow> shape \<Rightarrow> shape" where
  "dict_set k v d = (if k \<in> fst ` set d then map (\<lambda>(k', v'). if k' = k then (k', v) else (k', v')) d
                     else d @ [(k, v)])"

definition truthy_attr :: "aval \<Rightarrow> bool" where
  "truthy_attr v = (case v of ANone \<Rightarrow> False | ABool b \<Rightarrow> b | AInt i \<Rightarrow> i \<noteq> 0 | AReal r \<Rightarrow> r \<noteq> 0 | AStr x \<Rightarrow> x \<noteq> []
                     | ARef r \<Rightarrow> r \<noteq> None | ARefs r \<Rightarrow> r \<noteq> [] | _ \<Rightarrow> True)"

definition add_control ::
  "env \<Rightarrow> rig_module \<Rightarrow> string \<Rightarrow> int option \<Rightarrow> string option \<Rightarrow> string
     \<Rightarrow> (scene, string \<times> string) cmd" where
  "add_control E m dag_node object_id descr shape_type =
     bnd (decode E dag_node) (\<lambda>md0.
     let md1 = (case object_id of None \<Rightarrow> md0 | Some i \<Rightarrow> md0\<lparr>ident := Some i\<rparr>);
         md2 = (case descr of None \<Rightarrow> md1 | Some d \<Rightarrow> md1\<lparr>description := Some d\<rparr>);
         ctl_name = name_from_metadata E (md2\<lparr>role := ''ctl''\<rparr>) in
     bnd (create_controller_from_name E shape_type) (\<lambda>ctl0.
     bnd (rename ctl0 ctl_name) (\<lambda>ctl.
     bnd (get_shape_data E ctl) (\<lambda>current_data.
     bnd (side_get m) (\<lambda>sd.
     bnd (case side_color E sd of None \<Rightarrow> raise KeyError | Some c \<Rightarrow> ret c) (\<lambda>color.
     let new_data = map (\<lambda>shape_data.
            dict_set ''color_rgb'' (AVec color)
              (dict_set ''use_rgb'' (ABool True)
                (dict_set ''enable_overrides'' (ABool True) shape_data))) current_data in
     seq (change_controller_shape E ctl new_data)
     (seq (create_persistent_attribute E ctl (node_name m) ''shape_data'')
     (bnd (getAttr ctl ''shape_data'') (\<lambda>ctl_data.
     seq (if truthy_attr ctl_data
          then (case ctl_data of
                  AStr x \<Rightarrow> (case json_loads E x of
                               None \<Rightarrow> raise (ValueError x)
                             | Some d \<Rightarrow> change_controller_shape E ctl d)
                | _ \<Rightarrow> raise TypeError)
          else ret ())
     (seq (create_persistent_attribute E ctl (node_name m) ''attributes_state'')
     (seq (create_persistent_attribute E ctl (node_name m) ''parent_space_data'')
     (bnd (getAttr ctl ''parent_space_data'') (\<lambda>psd.
     seq (if \<not> truthy_attr psd then setAttr ctl ''parent_space_data'' (AStr ''{}'') else ret ())
     (seq (snap_first_to_last E ctl dag_node)
     (bnd (add_parent_group E ctl ''buffer'') (\<lambda>parent_group.
     seq (field_append (node_name m) ''controllers'' ctl)
         (ret (ctl, parent_group))))))))))))))))))"

text \<open>\<open>update_parent_joint\<close>\<close>

fun second_level :: "string list \<Rightarrow> (scene, string list) cmd" where
  "second_level [] = ret []"
| "second_level (n # ns) =
     bnd (listConnections n ''inputMatrix'') (\<lambda>second_level_nodes.
     bnd (second_level ns) (\<lambda>others. ret (second_level_nodes @ others)))"

definition update_parent_joint :: "env \<Rightarrow> rig_module \<Rightarrow> (scene, unit) cmd" where
  "update_parent_joint E m =
     bnd (listConnections (node_name m) ''translate'') (\<lambda>first_level_nodes.
     bnd (second_level first_level_nodes) (\<lambda>second.
     let old_constraint_nodes = first_level_nodes @ second in
     seq (if old_constraint_nodes \<noteq> [] then delete old_constraint_nodes else ret ())
     (bnd (field_get ObjectField (node_name m) ''parent_joint'') (\<lambda>parent.
      if truthy parent then bnd (as_str parent) (\<lambda>p. matrix_constraint E p (node_name m))
      else ret ()))))"

text \<open>\<open>_update_node_name\<close>\<close>

definition update_node_name :: "env \<Rightarrow> rig_module \<Rightarrow> string \<Rightarrow> (scene, string) cmd" where
  "update_node_name E m n =
     bnd (decode E n) (\<lambda>md.
     bnd (name_get m) (\<lambda>bn.
     bnd (side_get m) (\<lambda>sd.
     let new_name = name_from_metadata E (md\<lparr>base_name := bn, side := sd\<rparr>) in
     seq (rename n new_name) (ret new_name))))"

text \<open>The body of the loop of \<open>update\<close> over the persistent attributes.\<close>

definition rename_persistent_attr :: "env \<Rightarrow> rig_module \<Rightarrow> string \<Rightarrow> (scene, unit) cmd" where
  "rename_persistent_attr E m a =
     (case split_dunder a of
        [old_node, attr_name] \<Rightarrow>
          bnd (decode E old_node) (\<lambda>md.
          bnd (name_get m) (\<lambda>bn.
          bnd (side_get m) (\<lambda>sd.
          let new_node = name_from_metadata E (md\<lparr>base_name := bn, side := sd\<rparr>) in
          renameAttr (node_name m) a (new_node @ ''__'' @ attr_name))))
      | _ \<Rightarrow> raise UnpackError)"

text \<open>
  \<open>update\<close> writes \<open>self.node_name\<close>: it runs on the object and the scene. \<open>on_self\<close> runs
  a command of the scene for the object as it is now.
\<close>

definition on_self :: "(rig_module \<Rightarrow> (scene, 'a) cmd) \<Rightarrow> (rig_module \<times> scene, 'a) cmd" where
  "on_self f = (\<lambda>(m, s). case f m s of (r, s') \<Rightarrow> (r, (m, s')))"

definition set_node_name :: "string \<Rightarrow> (rig_module \<times> scene, unit) cmd" where
  "set_node_name n = modify (\<lambda>(m, s). (m\<lparr>node_name := n\<rparr>, s))"

definition update :: "env \<Rightarrow> (rig_module \<times> scene, unit) cmd" where
  "update E =
     bnd (on_self (\<lambda>m. field_get BoolField (node_name m) ''is_built'')) (\<lambda>built.
     if truthy built then ret ()
     else
       seq (on_self (update_parent_joint E))
       (bnd (on_self (\<lambda>m. decode E (node_name m))) (\<lambda>scene_metadata.
        bnd (on_self (\<lambda>m. field_get StringField (node_name m) ''name'')) (\<lambda>n.
        bnd (on_self (\<lambda>m. field_get EnumField (node_name m) ''side'')) (\<lambda>sd.
        let name_changed = (n \<noteq> PStr (base_name scene_metadata));
            side_changed = (sd \<noteq> PStr (side scene_metadata)) in
        if name_changed \<or> side_changed then
          bnd (on_self (\<lambda>m. update_node_name E m (node_name m))) (\<lambda>new_name.
          seq (set_node_name new_name)
          (bnd (on_self (\<lambda>m. field_get ObjectListField (node_name m) ''owned_nodes'')) (\<lambda>owned.
           seq (for_each (elems owned)
                  (\<lambda>node. on_self (\<lambda>m. seq (update_node_name E m node) (ret ()))))
           (bnd (on_self (\<lambda>m. listAttr (node_name m) ''persistent_attribute_backup''))
              (\<lambda>persistent_attrs.
                for_each persistent_attrs
                  (\<lambda>a. on_self (\<lambda>m. rename_persistent_attr E m a)))))))
        else ret ())))))"

text \<open>\<open>initialize\<close> of the base class\<close>

definition set_group_attr :: "rig_module \<Rightarrow> string \<Rightarrow> string \<Rightarrow> (scene, unit) cmd" where
  "set_group_attr m f a =
     bnd (field_get ObjectField (node_name m) f) (\<lambda>g.
     bnd (as_str g) (\<lambda>n. setAttr n a (ABool False)))"

definition initialize :: "env \<Rightarrow> rig_module \<Rightarrow> (scene, unit) cmd" where
  "initialize E m =
     bnd (add_node E m ''transform'' (Some ''grp'') None (Some ''placement'') (Some (node_name m)))
       (\<lambda>g.
     seq (field_set ObjectField (node_name m) ''placement_group'' (PStr g))
     (seq (set_group_attr m ''placement_group'' ''inheritsTransform'')
     (bnd (add_node E m ''transform'' (Some ''grp'') None (Some ''controls'') (Some (node_name m)))
       (\<lambda>c.
     seq (field_set ObjectField (node_name m) ''controls_group'' (PStr c))
     (bnd (add_node E m ''transform'' (Some ''grp'') None (Some ''extras'') (Some (node_name m)))
       (\<lambda>e.
     seq (field_set ObjectField (node_name m) ''extras_group'' (PStr e))
         (set_group_attr m ''extras_group'' ''visibility'')))))))"

text \<open>
  \<open>place_placement_nodes\<close>: a matrix the table does not give is logged and skipped.
\<close>

definition place_nodes :: "mat4 list option \<Rightarrow> string list \<Rightarrow> (scene, unit) cmd" where
  "place_nodes matrices joints =
     for_each (enumerate 0 joints) (\<lambda>(i, joint).
       case matrices of
         None \<Rightarrow> ret ()
       | Some xs \<Rightarrow> if i < length xs then xform_matrix joint (xs ! i) else ret ())"

definition place_placement_nodes :: "env \<Rightarrow> rig_module \<Rightarrow> (scene, unit) cmd" where
  "place_placement_nodes E m =
     bnd (field_get ObjectListField (node_name m) ''deform_joints'') (\<lambda>joints.
     seq (place_nodes (default_module_placement E (class_name m) ''deform_joints'') (elems joints))
     (bnd (field_get ObjectListField (node_name m) ''placement_locators'') (\<lambda>locators.
      place_nodes (default_module_placement E (class_name m) ''placement_locators'')
        (elems locators))))"

text \<open>
  Modelled from the spec: \<open>MopNode.__init__\<close> is not among the sources. It gives the object
  its backing node: a node that exists is left as it is, and one that does not is created.
\<close>

definition MopNode_init :: "string \<Rightarrow> (scene, unit) cmd" where
  "MopNode_init n =
     bnd (objExists n) (\<lambda>ex. if ex then ret () else seq (createNode ''transform'' n None) (ret ()))"

text \<open>\<open>RigModule.__init__(name, side, parent_joint, rig)\<close> for the class \<open>cls\<close>\<close>

definition init ::
  "env \<Rightarrow> string \<Rightarrow> string \<Rightarrow> string \<Rightarrow> pyval \<Rightarrow> string option \<Rightarrow> (scene, rig_module) cmd" where
  "init E cls name sd parent_joint rg =
     bnd (objExists name) (\<lambda>ex.
     let nn = (if ex then name
               else name_from_metadata E
                      \<lparr>base_name = name, side = sd, role = ''mod'', description = None, ident = None\<rparr>);
         m = \<lparr>node_name = nn, rig = rg, class_name = cls\<rparr> in
     seq (MopNode_init nn)
     (bnd (field_get BoolField nn ''is_initialized'') (\<lambda>initialized.
      if \<not> truthy initialized then
        seq (field_set StringField nn ''name'' (PStr name))
        (seq (field_set EnumField nn ''side'' (PStr sd))
        (seq (field_set StringField nn ''module_type'' (PStr cls))
        (bnd (listRelatives nn) (\<lambda>parent.
         bnd (case parent of
                None \<Rightarrow> ret True
              | Some p \<Rightarrow> bnd (rig_field m ''modules_group'') (\<lambda>g. ret (PStr p \<noteq> g))) (\<lambda>reparent.
         seq (if reparent then bnd (rig_field m ''modules_group'') (parent_under nn) else ret ())
         (seq (if truthy parent_joint
               then seq (field_set ObjectField nn ''parent_joint'' parent_joint)
                        (bnd (as_str parent_joint) (\<lambda>pj. matrix_constraint E pj nn))
               else ret ())
         (seq (initialize E m)
         (seq (place_placement_nodes E m)
         (\<lambda>s. case update E (m, s) of
                (Inl e, (m', s')) \<Rightarrow> (Inl e, s')
              | (Inr u, (m', s')) \<Rightarrow>
                  seq (field_set BoolField (node_name m') ''is_initialized'' (PBool True)) (ret m') s')))))))))
      else ret m)))"

text \<open>
  The property \<open>module_mirror\<close>: the mirror node as an object of the class the registry gives
  for this module's type, constructed anew at each access.
\<close>

definition module_mirror :: "env \<Rightarrow> rig_module \<Rightarrow> (scene, rig_module option) cmd" where
  "module_mirror E m =
     bnd (field_get ObjectField (node_name m) ''_module_mirror'') (\<lambda>mirror_node.
     if truthy mirror_node then
       bnd (field_get StringField (node_name m) ''module_type'') (\<lambda>ty.
       case ty of
         PStr c \<Rightarrow>
           if all_rig_modules E c
           then bnd (as_str mirror_node) (\<lambda>n.
                bnd (init E c n ''M'' PNone (rig m)) (\<lambda>mm. ret (Some mm)))
           else raise KeyError
       | _ \<Rightarrow> raise KeyError)
     else ret None)"

text \<open>An attribute of \<open>self.module_mirror\<close>: there is none to read when the module has no mirror.\<close>

definition the_mirror :: "env \<Rightarrow> rig_module \<Rightarrow> (scene, rig_module) cmd" where
  "the_mirror E m =
     bnd (module_mirror E m) (\<lambda>mm. case mm of None \<Rightarrow> raise AttributeError | Some x \<Rightarrow> ret x)"

text \<open>\<open>update_mirror\<close>: the value a field takes from the mirror module.\<close>

definition mirror_value :: "env \<Rightarrow> rig_module \<Rightarrow> field \<Rightarrow> (scene, pyval) cmd" where
  "mirror_value E m fd =
     (case fkind fd of
        ObjectField \<Rightarrow>
          bnd (the_mirror E m) (\<lambda>mm.
          bnd (field_get ObjectField (node_name mm) (fname fd)) (\<lambda>orig_value s.
            (Inr (find_mirror_node E s orig_value), s)))
      | ObjectListField \<Rightarrow>
          bnd (the_mirror E m) (\<lambda>mm.
          bnd (field_get ObjectListField (node_name mm) (fname fd)) (\<lambda>orig_value s.
            (Inr (PList (map (\<lambda>v. find_mirror_node E s (PStr v)) (elems orig_value))), s)))
      | _ \<Rightarrow>
          bnd (the_mirror E m) (\<lambda>mm. field_get (fkind fd) (node_name mm) (fname fd)))"

text \<open>The body of the loop of \<open>update_mirror\<close> over the fields.\<close>

definition sync_field :: "env \<Rightarrow> rig_module \<Rightarrow> field \<Rightarrow> (scene, unit) cmd" where
  "sync_field E m fd =
     (if fname fd \<in> set [''name'', ''side''] then ret ()
      else if editable fd then
        bnd (mirror_value E m fd) (\<lambda>v.
          if truthy v then field_set (fkind fd) (node_name m) (fname fd) v else ret ())
      else ret ())"

definition world_reflexion_mat :: mat4 where
  "world_reflexion_mat = ((-1, -0, -0, 0), (0, 1, 0, 0), (0, 0, 1, 0), (0, 0, 0, 1))"

definition local_reflexion_mat :: mat4 where
  "local_reflexion_mat = ((-1, 0, 0, 0), (0, -1, 0, 0), (0, 0, -1, 0), (0, 0, 0, 1))"

text \<open>\<open>mirror_type.lower()\<close>\<close>

definition lower_of :: "pyval \<Rightarrow> ('s, string) cmd" where
  "lower_of v = (case v of PStr x \<Rightarrow> ret (lower x) | _ \<Rightarrow> raise AttributeError)"

text \<open>The body of the loop of \<open>update_mirror\<close> over the pairs of nodes.\<close>

definition mirror_pair :: "pyval \<Rightarrow> string \<Rightarrow> string \<Rightarrow> (scene, unit) cmd" where
  "mirror_pair mirror_type orig_node new_node =
     bnd (lower_of mirror_type) (\<lambda>l1.
     seq (if l1 = ''behavior'' then
            bnd (getAttr_worldMatrix orig_node) (\<lambda>orig_node_mat.
            let new_mat = mat_mul (mat_mul local_reflexion_mat orig_node_mat) world_reflexion_mat in
            seq (xform_matrix new_node new_mat) (setAttr_scale new_node 1 1 1))
          else ret ())
     (bnd (lower_of mirror_type) (\<lambda>l2.
      if l2 = ''orientation'' then
        bnd (getAttr_worldMatrix orig_node) (\<lambda>orig_node_mat.
        let new_mat = mat_mul orig_node_mat world_reflexion_mat in
        seq (xform_matrix new_node new_mat)
        (seq (setAttr_scale new_node 1 1 1)
        (bnd (xform_query_rotation orig_node) (\<lambda>orig_orient.
          xform_rotation new_node orig_orient))))
      else ret ())))"

text \<open>The second part of \<open>update_mirror\<close>: the nodes are mirrored pair by pair.\<close>

definition mirror_nodes :: "env \<Rightarrow> rig_module \<Rightarrow> (scene, unit) cmd" where
  "mirror_nodes E m =
     bnd (the_mirror E m) (\<lambda>mm1.
     bnd (field_get ObjectListField (node_name mm1) ''deform_joints'') (\<lambda>oj.
     bnd (the_mirror E m) (\<lambda>mm2.
     bnd (field_get ObjectListField (node_name mm2) ''placement_locators'') (\<lambda>ol.
     bnd (field_get ObjectListField (node_name m) ''deform_joints'') (\<lambda>nj.
     bnd (field_get ObjectListField (node_name m) ''placement_locators'') (\<lambda>nl.
     bnd (field_get EnumField (node_name m) ''mirror_type'') (\<lambda>mirror_type.
     let orig_nodes = elems oj @ elems ol; new_nodes = elems nj @ elems nl in
     for_each (zip orig_nodes new_nodes) (\<lambda>(orig_node, new_node).
       mirror_pair mirror_type orig_node new_node))))))))"

definition update_mirror :: "env \<Rightarrow> (rig_module \<times> scene, unit) cmd" where
  "update_mirror E =
     bnd (on_self (the_mirror E)) (\<lambda>mm.
     seq (for_each (class_fields E (class_name mm)) (\<lambda>fd. on_self (\<lambda>m. sync_field E m fd)))
     (seq (update E)
          (on_self (mirror_nodes E))))"

text \<open>\<open>publish\<close>\<close>

definition publish :: "rig_module \<Rightarrow> (scene, unit) cmd" where
  "publish m =
     bnd (field_get ObjectField (node_name m) ''extras_group'') (\<lambda>g.
     bnd (as_str g) (\<lambda>n. setAttr n ''visibility'' (ABool False)))"

text \<open>\<open>build\<close> of the base class, and \<open>_build\<close>\<close>

definition build :: "rig_module \<Rightarrow> (scene, unit) cmd" where
  "build m = raise NotImplementedError"

definition build_and_mark :: "rig_module \<Rightarrow> (scene, unit) cmd" where
  "build_and_mark m = seq (build m) (field_set BoolField (node_name m) ''is_built'' (PBool True))"

section \<open>A codec, collaborators and scenes for the worked examples\<close>

text \<open>
  The theorems below hold for every codec and every collaborator. To run the model on a
  concrete scene, the examples use the following ones. The example codec writes a name as
  \<open>base_side[_description][_id]_role\<close>.
\<close>

fun join_us :: "string list \<Rightarrow> string" where
  "join_us [] = []"
| "join_us [x] = x"
| "join_us (x # y # ys) = x @ CHR ''_'' # join_us (y # ys)"

fun split_us :: "string \<Rightarrow> string list" where
  "split_us [] = [[]]"
| "split_us (c # cs) =
     (if c = CHR ''_'' then [] # split_us cs
      else (case split_us cs of [] \<Rightarrow> [[c]] | p # ps \<Rightarrow> (c # p) # ps))"

definition digit :: "nat \<Rightarrow> char" where
  "digit n = ''0123456789'' ! n"

definition show_id :: "int \<Rightarrow> string" where
  "show_id i = (let n = nat i in if n < 10 then [digit n] else [digit (n div 10 mod 10), digit (n mod 10)])"

definition digit_value :: "char \<Rightarrow> nat option" where
  "digit_value c = map_of (zip ''0123456789'' [0, 1, 2, 3, 4, 5, 6, 7, 8, 9]) c"

definition is_number :: "string \<Rightarrow> bool" where
  "is_number x = (x \<noteq> [] \<and> list_all (\<lambda>c. digit_value c \<noteq> None) x)"

definition read_id :: "string \<Rightarrow> int" where
  "read_id x = int (foldl (\<lambda>a c. 10 * a + the (digit_value c)) 0 x)"

definition sample_encode :: "metadata \<Rightarrow> string" where
  "sample_encode md =
     join_us ([base_name md, side md]
       @ (case description md of None \<Rightarrow> [] | Some d \<Rightarrow> [d])
       @ (case ident md of None \<Rightarrow> [] | Some i \<Rightarrow> [show_id i])
       @ [role md])"

definition sample_decode :: "string \<Rightarrow> metadata option" where
  "sample_decode n =
     (case split_us n of
        [b, s, r] \<Rightarrow> Some \<lparr>base_name = b, side = s, role = r, description = None, ident = None\<rparr>
      | [b, s, x, r] \<Rightarrow>
          if is_number x
          then Some \<lparr>base_name = b, side = s, role = r, description = None, ident = Some (read_id x)\<rparr>
          else Some \<lparr>base_name = b, side = s, role = r, description = Some x, ident = None\<rparr>
      | [b, s, d, i, r] \<Rightarrow>
          if is_number i
          then Some \<lparr>base_name = b, side = s, role = r, description = Some d, ident = Some (read_id i)\<rparr>
          else None
      | _ \<Rightarrow> None)"

definition sample_constraint :: "string \<Rightarrow> string \<Rightarrow> (scene, unit) cmd" where
  "sample_constraint p c =
     bnd (createNode ''multMatrix'' (c @ ''_multMatrix'') None) (\<lambda>mm.
     bnd (createNode ''decomposeMatrix'' (c @ ''_decomposeMatrix'') None) (\<lambda>dm.
     seq (connectAttr p ''worldMatrix'' mm ''matrixIn'')
     (seq (connectAttr mm ''matrixSum'' dm ''inputMatrix'')
          (connectAttr dm ''outputTranslate'' c ''translate''))))"

definition sample_persistent :: "string \<Rightarrow> string \<Rightarrow> string \<Rightarrow> (scene, unit) cmd" where
  "sample_persistent n backup long_name =
     seq (addAttr n long_name None)
     (bnd (the_node backup) (\<lambda>b.
        if find_attr b (n @ ''__'' @ long_name) = None
        then addAttr backup (n @ ''__'' @ long_name) (Some ''persistent_attribute_backup'')
        else setAttr n long_name (attr_value b (n @ ''__'' @ long_name))))"

definition sample_fields :: "field list" where
  "sample_fields =
     [\<lparr>fname = ''name'', fkind = StringField, editable = True\<rparr>,
      \<lparr>fname = ''side'', fkind = EnumField, editable = True\<rparr>,
      \<lparr>fname = ''mirror_type'', fkind = EnumField, editable = True\<rparr>,
      \<lparr>fname = ''_module_mirror'', fkind = ObjectField, editable = False\<rparr>,
      \<lparr>fname = ''owned_nodes'', fkind = ObjectListField, editable = False\<rparr>,
      \<lparr>fname = ''parent_joint'', fkind = ObjectField, editable = False\<rparr>,
      \<lparr>fname = ''module_type'', fkind = StringField, editable = False\<rparr>,
      \<lparr>fname = ''placement_group'', fkind = ObjectField, editable = False\<rparr>,
      \<lparr>fname = ''controls_group'', fkind = ObjectField, editable = False\<rparr>,
      \<lparr>fname = ''extras_group'', fkind = ObjectField, editable = False\<rparr>,
      \<lparr>fname = ''deform_joints'', fkind = ObjectListField, editable = False\<rparr>,
      \<lparr>fname = ''placement_locators'', fkind = ObjectListField, editable = False\<rparr>,
      \<lparr>fname = ''controllers'', fkind = ObjectListField, editable = False\<rparr>]"

definition sample_env :: env where
  "sample_env =
     \<lparr>name_from_metadata = sample_encode,
      metadata_from_name = sample_decode,
      matrix_constraint = sample_constraint,
      snap_first_to_last = (\<lambda>a b. bnd (getAttr_worldMatrix b) (xform_matrix a)),
      add_parent_group = (\<lambda>n suffix. createNode ''transform'' (n @ ''_'' @ suffix) None),
      create_persistent_attribute = sample_persistent,
      find_mirror_node = (\<lambda>s v. PNone),
      default_module_placement = (\<lambda>c k. None),
      side_color = map_of [(''M'', (1, 1, 0)), (''L'', (0, 0, 1)), (''R'', (1, 0, 0))],
      all_rig_modules = (\<lambda>c. c = ''RigModule''),
      class_fields = (\<lambda>c. sample_fields),
      create_controller_from_name = (\<lambda>shape. createNode ''transform'' (shape @ ''1'') None),
      get_shape_data = (\<lambda>n. ret [[]]),
      change_controller_shape = (\<lambda>n d. ret ()),
      json_loads = (\<lambda>x. Some [])\<rparr>"

definition str_attr :: "string \<Rightarrow> string \<Rightarrow> attr" where
  "str_attr a v = \<lparr>aname = a, acategory = None, avalue = AStr v\<rparr>"

definition val_attr :: "string \<Rightarrow> aval \<Rightarrow> attr" where
  "val_attr a v = \<lparr>aname = a, acategory = None, avalue = v\<rparr>"

definition rig_node :: node where
  "rig_node = \<lparr>nid = 0, nname = ''rig'', ntype = ''transform'', nparent = None,
     nattrs = [val_attr ''modules_group'' (ARef (Some 1)), val_attr ''skeleton_group'' (ARef (Some 2))]\<rparr>"

definition modules_node :: node where
  "modules_node = \<lparr>nid = 1, nname = ''modules'', ntype = ''transform'', nparent = Some 0, nattrs = []\<rparr>"

definition skeleton_node :: node where
  "skeleton_node = \<lparr>nid = 2, nname = ''skeleton'', ntype = ''transform'', nparent = Some 0, nattrs = []\<rparr>"

text \<open>A scene with a rig and one module, \<open>arm_L_mod\<close>, that owns no node yet.\<close>

definition arm_node :: node where
  "arm_node = \<lparr>nid = 3, nname = ''arm_L_mod'', ntype = ''transform'', nparent = Some 1,
     nattrs = [str_attr ''name'' ''arm'', str_attr ''side'' ''L'',
               str_attr ''module_type'' ''RigModule'', val_attr ''is_initialized'' (ABool True)]\<rparr>"

definition scene0 :: scene where
  "scene0 = \<lparr>nodes = [rig_node, modules_node, skeleton_node, arm_node], conns = [], next_id = 4\<rparr>"

definition arm :: rig_module where
  "arm = \<lparr>node_name = ''arm_L_mod'', rig = Some ''rig'', class_name = ''RigModule''\<rparr>"

section \<open>What \<open>add_node\<close> leaves behind\<close>

text \<open>The node \<open>add_node\<close> creates, and the backing node with the new handle appended to \<open>owned_nodes\<close>.\<close>

definition created :: "scene \<Rightarrow> string \<Rightarrow> string \<Rightarrow> string option \<Rightarrow> node" where
  "created s node_type name parent =
     \<lparr>nid = next_id s, nname = name, ntype = node_type,
      nparent = (if node_type = ''locator'' then None else Option.bind parent (resolve s)),
      nattrs = [\<lparr>aname = ''module'', acategory = None, avalue = ANone\<rparr>]\<rparr>"

definition own :: "node \<Rightarrow> nat \<Rightarrow> node \<Rightarrow> node" where
  "own b i nd =
     (if nid nd = nid b
      then set_attr_value ''owned_nodes'' (ARefs (stored_refs b ''owned_nodes'' @ [i])) nd
      else nd)"

text \<open>
  A scene with the module \<open>arm_L_mod\<close> after its initialisation: it owns its three groups
  and one deform joint, and it keeps the backup of a persistent attribute of the controller
  \<open>arm_L_0_ctl\<close>. The fields \<open>name\<close>, \<open>side\<close> and \<open>is_built\<close> are parameters.
\<close>

definition module_node :: "string \<Rightarrow> string \<Rightarrow> bool \<Rightarrow> node" where
  "module_node nm sd built =
     \<lparr>nid = 3, nname = ''arm_L_mod'', ntype = ''transform'', nparent = Some 1,
      nattrs =
        [str_attr ''name'' nm, str_attr ''side'' sd, str_attr ''module_type'' ''RigModule'',
         val_attr ''is_initialized'' (ABool True), val_attr ''is_built'' (ABool built),
         val_attr ''owned_nodes'' (ARefs [4, 5, 6, 7]),
         val_attr ''placement_group'' (ARef (Some 4)),
         val_attr ''controls_group'' (ARef (Some 5)),
         val_attr ''extras_group'' (ARef (Some 6)),
         val_attr ''deform_joints'' (ARefs [7]),
         \<lparr>aname = ''arm_L_0_ctl__shape_data'', acategory = Some ''persistent_attribute_backup'',
          avalue = ANone\<rparr>]\<rparr>"

definition owned_node :: "nat \<Rightarrow> string \<Rightarrow> string \<Rightarrow> nat \<Rightarrow> node" where
  "owned_node i n ty p =
     \<lparr>nid = i, nname = n, ntype = ty, nparent = Some p, nattrs = [val_attr ''module'' ANone]\<rparr>"

definition scene1 :: "string \<Rightarrow> string \<Rightarrow> bool \<Rightarrow> scene" where
  "scene1 nm sd built =
     \<lparr>nodes =
        [rig_node, modules_node, skeleton_node, module_node nm sd built,
         owned_node 4 ''arm_L_placement_grp'' ''transform'' 3,
         owned_node 5 ''arm_L_controls_grp'' ''transform'' 3,
         owned_node 6 ''arm_L_extras_grp'' ''transform'' 3,
         owned_node 7 ''arm_L_0_deform'' ''joint'' 2],
      conns = [(3, ''message'', 4, ''module''), (3, ''message'', 5, ''module''),
               (3, ''message'', 6, ''module''), (3, ''message'', 7, ''module'')],
      next_id = 8\<rparr>"

text \<open>
  A scene in which the construction of \<open>arm_L_mod\<close> stopped early: the backing node has a
  name, a side and a type, and \<open>is_initialized\<close> was never set.
\<close>

definition half_made_node :: node where
  "half_made_node = \<lparr>nid = 3, nname = ''arm_L_mod'', ntype = ''transform'', nparent = Some 1,
     nattrs = [str_attr ''name'' ''arm'', str_attr ''side'' ''L'',
               str_attr ''module_type'' ''RigModule'']\<rparr>"

definition scene_half :: scene where
  "scene_half = \<lparr>nodes = [rig_node, modules_node, skeleton_node, half_made_node], conns = [], next_id = 4\<rparr>"

text \<open>
  A scene with two modules that mirror each other, each with one deform joint. The joint of
  the right module stands at \<open>(5, 0, 0)\<close> with the rotation \<open>(0, 30, 0)\<close> and the scale
  \<open>(1, 1, 1)\<close>. The
  field \<open>mirror_type\<close> of the left module is a parameter; the right module has none.
\<close>

definition left_module :: "string \<Rightarrow> node" where
  "left_module mt =
     \<lparr>nid = 3, nname = ''arm_L_mod'', ntype = ''transform'', nparent = Some 1,
      nattrs =
        [str_attr ''name'' ''arm'', str_attr ''side'' ''L'', str_attr ''module_type'' ''RigModule'',
         val_attr ''is_initialized'' (ABool True), str_attr ''mirror_type'' mt,
         val_attr ''_module_mirror'' (ARef (Some 5)),
         val_attr ''owned_nodes'' (ARefs [4]), val_attr ''deform_joints'' (ARefs [4])]\<rparr>"

definition right_module :: node where
  "right_module =
     \<lparr>nid = 5, nname = ''arm_R_mod'', ntype = ''transform'', nparent = Some 1,
      nattrs =
        [str_attr ''name'' ''arm'', str_attr ''side'' ''R'', str_attr ''module_type'' ''RigModule'',
         val_attr ''is_initialized'' (ABool True),
         val_attr ''_module_mirror'' (ARef (Some 3)),
         val_attr ''owned_nodes'' (ARefs [6]), val_attr ''deform_joints'' (ARefs [6])]\<rparr>"

definition right_joint :: node where
  "right_joint =
     \<lparr>nid = 6, nname = ''arm_R_0_deform'', ntype = ''joint'', nparent = Some 2,
      nattrs =
        [val_attr ''module'' ANone,
         val_attr ''translateX'' (AReal 5), val_attr ''translateY'' (AReal 0),
         val_attr ''translateZ'' (AReal 0),
         val_attr ''rotateX'' (AReal 0), val_attr ''rotateY'' (AReal 30),
         val_attr ''rotateZ'' (AReal 0),
         val_attr ''scaleX'' (AReal 1), val_attr ''scaleY'' (AReal 1),
         val_attr ''scaleZ'' (AReal 1)]\<rparr>"

definition scene2 :: "string \<Rightarrow> scene" where
  "scene2 mt =
     \<lparr>nodes =
        [rig_node, modules_node, skeleton_node, left_module mt,
         owned_node 4 ''arm_L_0_deform'' ''joint'' 2, right_module, right_joint],
      conns = [(3, ''message'', 4, ''module''), (5, ''message'', 6, ''module'')],
      next_id = 7\<rparr>"

section \<open>What \<open>publish\<close> may touch\<close>

text \<open>A node without its attribute \<open>a\<close>: two scenes that agree on it differ in \<open>a\<close> at most.\<close>

definition hide :: "string \<Rightarrow> node \<Rightarrow> node" where
  "hide a nd = nd\<lparr>nattrs := filter (\<lambda>x. aname x \<noteq> a) (nattrs nd)\<rparr>"

section \<open>Ownership\<close>

text \<open>
  The handles a list field of the backing node \<open>n\<close> holds, and the invariant of the
  specification: every node in \<open>deform_joints\<close>, \<open>placement_locators\<close> or \<open>controllers\<close> is
  in \<open>owned_nodes\<close>. A step is quiet for \<open>n\<close> when it leaves the four lists of \<open>n\<close> and the
  handle of every name as they are; \<open>appended\<close> is the effect of an \<open>append\<close> on one list.
  \<open>hoare P c Q X\<close> is the triple of a command: from a state in \<open>P\<close> it returns in \<open>Q\<close> or
  raises in \<open>X\<close>.
\<close>

definition refs :: "scene \<Rightarrow> string \<Rightarrow> string \<Rightarrow> nat list" where
  "refs s n f = (case node_by_name s n of None \<Rightarrow> [] | Some b \<Rightarrow> stored_refs b f)"

definition owned_inv :: "rig_module \<Rightarrow> scene \<Rightarrow> bool" where
  "owned_inv m s =
     (set (refs s (node_name m) ''deform_joints'')
        \<union> set (refs s (node_name m) ''placement_locators'')
        \<union> set (refs s (node_name m) ''controllers'')
      \<subseteq> set (refs s (node_name m) ''owned_nodes''))"

definition owner_fields :: "string set" where
  "owner_fields = {''owned_nodes'', ''deform_joints'', ''placement_locators'', ''controllers''}"

definition quiet :: "string \<Rightarrow> scene \<Rightarrow> scene \<Rightarrow> bool" where
  "quiet n s s' =
     ((\<forall>f\<in>owner_fields. refs s' n f = refs s n f)
      \<and> (\<forall>x j. resolve s x = Some j \<longrightarrow> resolve s' x = Some j))"

definition quiet_cmd :: "string \<Rightarrow> (scene, 'a) cmd \<Rightarrow> bool" where
  "quiet_cmd n c = (\<forall>s. quiet n s (snd (c s)))"

definition appended :: "string \<Rightarrow> string \<Rightarrow> string \<Rightarrow> scene \<Rightarrow> scene \<Rightarrow> bool" where
  "appended n f x s s' =
     (\<exists>j. resolve s x = Some j \<and> refs s' n f = refs s n f @ [j]
        \<and> (\<forall>g\<in>owner_fields. g \<noteq> f \<longrightarrow> refs s' n g = refs s n g)
        \<and> (\<forall>y i. resolve s y = Some i \<longrightarrow> resolve s' y = Some i))"

definition hoare ::
  "('s \<Rightarrow> bool) \<Rightarrow> ('s, 'a) cmd \<Rightarrow> ('a \<Rightarrow> 's \<Rightarrow> bool) \<Rightarrow> ('s \<Rightarrow> bool) \<Rightarrow> bool" where
  "hoare P c Q X = (\<forall>s. P s \<longrightarrow> (case c s of (Inl e, s') \<Rightarrow> X s' | (Inr x, s') \<Rightarrow> Q x s'))"

definition stable :: "string \<Rightarrow> (scene \<Rightarrow> bool) \<Rightarrow> bool" where
  "stable n A = (\<forall>s s'. A s \<longrightarrow> quiet n s s' \<longrightarrow> A s')"

definition is_owned :: "string \<Rightarrow> string \<Rightarrow> scene \<Rightarrow> bool" where
  "is_owned n x s = (\<exists>j. resolve s x = Some j \<and> j \<in> set (refs s n ''owned_nodes''))"

definition named :: "string \<Rightarrow> scene \<Rightarrow> bool" where
  "named x s = (\<exists>j. resolve s x = Some j)"

section \<open>Mirrored transforms\<close>

text \<open>
  The diagonal matrices of the specification, and what the steps of the loop of
  \<open>update_mirror\<close> write on the target node: three channels, the nine channels of a matrix,
  the scale \<open>(1, 1, 1)\<close>; then the whole step from the source node, in the mode \<open>Behavior\<close>
  and in the mode \<open>Orientation\<close>.
\<close>

definition diag4 :: "real \<Rightarrow> real \<Rightarrow> real \<Rightarrow> real \<Rightarrow> mat4" where
  "diag4 a b c d = ((a, 0, 0, 0), (0, b, 0, 0), (0, 0, c, 0), (0, 0, 0, d))"

definition put3 :: "string \<Rightarrow> aval \<times> aval \<times> aval \<Rightarrow> node \<Rightarrow> node" where
  "put3 a v nd = (case v of (x, y, z) \<Rightarrow>
     set_attr_value (a @ ''Z'') z (set_attr_value (a @ ''Y'') y (set_attr_value (a @ ''X'') x nd)))"

definition put_matrix :: "mat4 \<Rightarrow> node \<Rightarrow> node" where
  "put_matrix x nd =
     put3 ''scale'' (reals (scale_part x))
       (put3 ''rotate'' (reals (euler_angles (rotation_part x)))
         (put3 ''translate'' (reals (position x)) nd))"

definition set_scale :: "node \<Rightarrow> node" where
  "set_scale nd = put3 ''scale'' (AInt 1, AInt 1, AInt 1) nd"

definition behave :: "node \<Rightarrow> node \<Rightarrow> node" where
  "behave src nd =
     set_scale (put_matrix
       (mat_mul (mat_mul local_reflexion_mat (world_matrix src)) world_reflexion_mat) nd)"

definition orient :: "node \<Rightarrow> node \<Rightarrow> node" where
  "orient src nd =
     put3 ''rotate'' (reals (rotate_of src))
       (set_scale (put_matrix (mat_mul (world_matrix src) world_reflexion_mat) nd))"

text \<open>
  The translation mirrored in the first coordinate, a scale that is positive, and what makes
  a matrix a rotation: rows of length 1, orthogonal to each other, and the determinant 1.
\<close>

definition negate_x :: "vec3 \<Rightarrow> vec3" where
  "negate_x v = (case v of (x, y, z) \<Rightarrow> (- x, y, z))"

definition positive :: "vec3 \<Rightarrow> bool" where
  "positive v = (case v of (x, y, z) \<Rightarrow> 0 < x \<and> 0 < y \<and> 0 < z)"

definition dot3 :: "vec3 \<Rightarrow> vec3 \<Rightarrow> real" where
  "dot3 u v = (case u of (a, b, c) \<Rightarrow> case v of (x, y, z) \<Rightarrow> a * x + b * y + c * z)"

definition rotation :: "mat3 \<Rightarrow> bool" where
  "rotation m = (case m of (u, v, w) \<Rightarrow>
     dot3 u u = 1 \<and> dot3 v v = 1 \<and> dot3 w w = 1 \<and> dot3 u v = 0 \<and> dot3 u w = 0 \<and> dot3 v w = 0
     \<and> det3 m = 1)"

text \<open>The rotation that mirrors a rotation: every entry negated but those of the first column.\<close>

definition mirrored :: "mat3 \<Rightarrow> mat3" where
  "mirrored m = (case m of ((a0, a1, a2), (b0, b1, b2), (c0, c1, c2)) \<Rightarrow>
     ((a0, - a1, - a2), (b0, - b1, - b2), (c0, - c1, - c2)))"

section \<open>Renamed nodes and attributes\<close>

text \<open>
  What \<open>update\<close> leaves behind when the name or the side changed. \<open>reencode\<close> is the name
  of a node once its record is decoded, \<open>base_name\<close> and \<open>side\<close> are replaced and the
  record is encoded again: the role, the description and the id are those decoded from the
  old name. \<open>reprefix\<close> does the same to the node name in front of the double underscore
  of an attribute name. \<open>ren\<close> and \<open>rena\<close> rename one node and one attribute,
  \<open>persistent_attrs\<close> lists the attributes of the category
  \<open>persistent_attribute_backup\<close>, and \<open>reprefixed\<close> is a node with the attributes of the
  given names re-prefixed. \<open>renamed\<close> is a node of the scene after the update: the backing
  node under its new name with its backups re-prefixed, an owned node under its new name,
  any other node as it was. A scene is \<open>settled\<close> for a module when names and handles are
  distinct in it and the fields \<open>name\<close> and \<open>side\<close> of the module read as given.
\<close>

definition reencode :: "env \<Rightarrow> string \<Rightarrow> string \<Rightarrow> string \<Rightarrow> string" where
  "reencode E bn sd x =
     (case metadata_from_name E x of
        None \<Rightarrow> x
      | Some md \<Rightarrow> name_from_metadata E (md\<lparr>base_name := bn, side := sd\<rparr>))"

definition reprefix :: "env \<Rightarrow> string \<Rightarrow> string \<Rightarrow> string \<Rightarrow> string" where
  "reprefix E bn sd a =
     (case split_dunder a of
        [old_node, attr_name] \<Rightarrow> reencode E bn sd old_node @ ''__'' @ attr_name
      | _ \<Rightarrow> a)"

definition ren :: "string \<Rightarrow> string \<Rightarrow> node \<Rightarrow> node" where
  "ren old new nd = (if nname nd = old then nd\<lparr>nname := new\<rparr> else nd)"

definition rena :: "string \<Rightarrow> string \<Rightarrow> attr \<Rightarrow> attr" where
  "rena a new x = (if aname x = a then x\<lparr>aname := new\<rparr> else x)"

definition persistent_attrs :: "node \<Rightarrow> string list" where
  "persistent_attrs nd =
     map aname (filter (\<lambda>x. acategory x = Some ''persistent_attribute_backup'') (nattrs nd))"

definition settled :: "rig_module \<Rightarrow> string \<Rightarrow> string \<Rightarrow> scene \<Rightarrow> bool" where
  "settled m bn sd t =
     (distinct (map nname (nodes t)) \<and> distinct (map nid (nodes t))
      \<and> name_get m t = (Inr bn, t) \<and> side_get m t = (Inr sd, t))"

definition reprefixed :: "env \<Rightarrow> string \<Rightarrow> string \<Rightarrow> string list \<Rightarrow> node \<Rightarrow> node" where
  "reprefixed E bn sd A nd =
     nd\<lparr>nattrs := map (\<lambda>y. if aname y \<in> set A then y\<lparr>aname := reprefix E bn sd (aname y)\<rparr> else y)
                      (nattrs nd)\<rparr>"

definition renamed ::
  "env \<Rightarrow> string \<Rightarrow> string \<Rightarrow> string \<Rightarrow> string list \<Rightarrow> string list \<Rightarrow> node \<Rightarrow> node" where
  "renamed E bn sd backing owned attrs nd =
     (if nname nd = backing
      then reprefixed E bn sd attrs (nd\<lparr>nname := reencode E bn sd backing\<rparr>)
      else if nname nd \<in> set owned then nd\<lparr>nname := reencode E bn sd (nname nd)\<rparr>
      else nd)"

section \<open>Properties\<close>

subsection \<open>Running commands\<close>

lemma bnd_run: "bnd c f s = (case c s of (Inl e, s') \<Rightarrow> (Inl e, s') | (Inr x, s') \<Rightarrow> f x s')"
  by (simp add: bnd_def)

lemma find_SomeD: "find P xs = Some x \<Longrightarrow> x \<in> set xs \<and> P x"
  by (induction xs) (auto split: if_splits)

lemma find_append: "find P (xs @ ys) = (case find P xs of None \<Rightarrow> find P ys | Some x \<Rightarrow> Some x)"
  by (induction xs) auto

lemma node_by_name_fresh_node:
  "node_by_name (fresh_node ty n p s) x =
     (case node_by_name s x of
        Some y \<Rightarrow> Some y
      | None \<Rightarrow> if n = x then Some \<lparr>nid = next_id s, nname = n, ntype = ty, nparent = p, nattrs = []\<rparr>
                else None)"
  by (simp add: node_by_name_def fresh_node_def find_append split: option.splits)

lemma node_by_name_upd_node:
  assumes "\<And>x. nname (f x) = nname x"
  shows "node_by_name (upd_node i f s) x =
     map_option (\<lambda>nd. if nid nd = i then f nd else nd) (node_by_name s x)"
proof -
  have "find (\<lambda>nd. nname nd = x) (map (\<lambda>nd. if nid nd = i then f nd else nd) xs) =
        map_option (\<lambda>nd. if nid nd = i then f nd else nd) (find (\<lambda>nd. nname nd = x) xs)" for xs
    by (induction xs) (auto simp: assms)
  then show ?thesis by (simp add: node_by_name_def upd_node_def)
qed

lemma nid_less:
  assumes "node_by_name s n = Some b" and "\<forall>nd\<in>set (nodes s). nid nd < next_id s"
  shows "nid b < next_id s"
  using assms by (auto simp: node_by_name_def dest: find_SomeD)

lemma add_node_tail:
  assumes b: "node_by_name s (node_name m) = Some b"
    and ids: "\<forall>nd\<in>set (nodes s). nid nd < next_id s"
    and par: "node_type = ''locator'' \<or> parent = None \<or> node_by_name s (the parent) \<noteq> None"
  shows "bnd (objExists name) (\<lambda>ex.
          if ex then raise (ValueError name)
          else
            bnd (if node_type = ''locator'' then spaceLocator name
                 else createNode node_type name parent) (\<lambda>nd.
            seq (addAttr nd ''module'' None)
            (seq (connectAttr (node_name m) ''message'' nd ''module'')
            (seq (field_append (node_name m) ''owned_nodes'' nd)
                 (ret nd))))) s =
     (if node_by_name s name \<noteq> None then (Inl (ValueError name), s)
         else (Inr name,
               \<lparr>nodes = map (own b (next_id s)) (nodes s) @ [created s node_type name parent],
                conns = conns s @ [(nid b, ''message'', next_id s, ''module'')],
                next_id = Suc (next_id s)\<rparr>))"
proof (cases "node_by_name s name \<noteq> None")
  case True
  then show ?thesis by (simp add: objExists_def bnd_def raise_def)
next
  case False
  have nb: "nid b < next_id s" using nid_less[OF b ids] .
  from False have free: "node_by_name s name = None" by simp
  define p where "p = (if node_type = ''locator'' then None else Option.bind parent (resolve s))"
  define fresh where "fresh = \<lparr>nid = next_id s, nname = name, ntype = node_type, nparent = p, nattrs = []\<rparr>"
  define tag where "tag = (\<lambda>x::node. x\<lparr>nattrs := nattrs x @ [\<lparr>aname = ''module'', acategory = None, avalue = ANone\<rparr>]\<rparr>)"
  define s1 where "s1 = fresh_node node_type name p s"
  define s2 where "s2 = upd_node (next_id s) tag s1"
  define s3 where "s3 = s2\<lparr>conns := conns s2 @ [(nid b, ''message'', next_id s, ''module'')]\<rparr>"
  define s4 where "s4 = upd_node (nid b)
      (set_attr_value ''owned_nodes'' (ARefs (stored_refs b ''owned_nodes'' @ [next_id s]))) s3"
  have c1: "(if node_type = ''locator'' then spaceLocator name
             else createNode node_type name parent) s = (Inr name, s1)"
    using par free
    by (auto simp: spaceLocator_def createNode_def s1_def p_def resolve_def split: option.splits)
  have n1: "node_by_name s1 name = Some fresh"
    by (simp add: s1_def node_by_name_fresh_node free fresh_def)
  have ne: "node_name m \<noteq> name" using b free by auto
  have b1: "node_by_name s1 (node_name m) = Some b"
    by (simp add: s1_def node_by_name_fresh_node b)
  have c2: "addAttr name ''module'' None s1 = (Inr (), s2)"
    by (simp add: addAttr_def bnd_def the_node_def n1 fresh_def find_attr_def modify_def s2_def tag_def)
  have n2: "node_by_name s2 name = Some (tag fresh)"
    by (simp add: s2_def node_by_name_upd_node tag_def n1) (simp add: fresh_def)
  have b2: "node_by_name s2 (node_name m) = Some b"
    using nb by (simp add: s2_def node_by_name_upd_node tag_def b1)
  have c3: "connectAttr (node_name m) ''message'' name ''module'' s2 = (Inr (), s3)"
    by (simp add: connectAttr_def bnd_def the_node_def n2 b2 modify_def s3_def tag_def fresh_def)
  have n3: "node_by_name s3 name = Some (tag fresh)"
    using n2 by (simp add: s3_def node_by_name_def)
  have b3: "node_by_name s3 (node_name m) = Some b"
    using b2 by (simp add: s3_def node_by_name_def)
  have c4: "field_append (node_name m) ''owned_nodes'' name s3 = (Inr (), s4)"
    by (simp add: field_append_def n3 b3 resolve_def s4_def tag_def fresh_def)
  have run: "bnd (if node_type = ''locator'' then spaceLocator name
                 else createNode node_type name parent) (\<lambda>nd.
            seq (addAttr nd ''module'' None)
            (seq (connectAttr (node_name m) ''message'' nd ''module'')
            (seq (field_append (node_name m) ''owned_nodes'' nd)
                 (ret nd)))) s = (Inr name, s4)"
    by (simp add: bnd_def seq_def ret_def c1 c2 c3 c4)
  have s4: "s4 = \<lparr>nodes = map (own b (next_id s)) (nodes s) @ [created s node_type name parent],
                conns = conns s @ [(nid b, ''message'', next_id s, ''module'')],
                next_id = Suc (next_id s)\<rparr>"
    using nb ids
    by (cases s) (auto simp: s4_def s3_def s2_def s1_def upd_node_def fresh_node_def own_def created_def
          tag_def p_def)
  have e: "objExists name s = (Inr False, s)" by (simp add: objExists_def free)
  show ?thesis
    by (simp only: bnd_run[of "objExists name"] e prod.case sum.case if_False run s4 free
          simp_thms)
qed

subsection \<open>Creating a node\<close>

text \<open>
  Claim C3. For a module with a name and a side, in a scene whose handles are all below the
  next free one, and for a \<open>parent\<close> keyword that names a node: when the name encoded from
  the module's name and side, the role (the node type when no role is given), the id and
  the description is taken, \<open>add_node\<close> raises the \<open>ValueError\<close> the specification calls
  \<open>DuplicateNameError\<close> and the scene is as before. Otherwise it returns that name, and
  the scene has exactly one node more: a node of the given type under that name, with a
  \<open>module\<close> attribute that the backing node's \<open>message\<close> is connected to, and its handle is
  appended to \<open>owned_nodes\<close> of the backing node.
\<close>

theorem add_node_spec:
  assumes nm: "name_get m s = (Inr bn, s)" and sd: "side_get m s = (Inr sd, s)"
    and b: "node_by_name s (node_name m) = Some b"
    and ids: "\<forall>nd\<in>set (nodes s). nid nd < next_id s"
    and par: "node_type = ''locator'' \<or> parent = None \<or> node_by_name s (the parent) \<noteq> None"
  shows "add_node E m node_type role_arg object_id descr parent s =
     (let name = name_from_metadata E
            \<lparr>base_name = bn, side = sd, role = effective_role node_type role_arg,
             description = descr, ident = object_id\<rparr>
      in if node_by_name s name \<noteq> None then (Inl (ValueError name), s)
         else (Inr name,
               \<lparr>nodes = map (own b (next_id s)) (nodes s) @ [created s node_type name parent],
                conns = conns s @ [(nid b, ''message'', next_id s, ''module'')],
                next_id = Suc (next_id s)\<rparr>))"
  by (simp only: add_node_def Let_def bnd_run[of "name_get m"] bnd_run[of "side_get m"] nm sd
        prod.case sum.case add_node_tail[OF b ids par])


theorem add_node_spec_witness:
  "add_node sample_env arm ''joint'' (Some ''deform'') (Some 0) None None scene0 =
     (Inr ''arm_L_0_deform'',
      \<lparr>nodes = map (own arm_node 4) (nodes scene0) @ [created scene0 ''joint'' ''arm_L_0_deform'' None],
       conns = [(3, ''message'', 4, ''module'')],
       next_id = 5\<rparr>)
   \<and> add_node sample_env arm ''transform'' (Some ''mod'') None None None scene0 =
     (Inl (ValueError ''arm_L_mod''), scene0)"
proof -
  have nm: "name_get arm scene0 = (Inr ''arm'', scene0)" by code_simp
  have sd: "side_get arm scene0 = (Inr ''L'', scene0)" by code_simp
  have b: "node_by_name scene0 (node_name arm) = Some arm_node" by code_simp
  have ids: "\<forall>nd\<in>set (nodes scene0). nid nd < next_id scene0" by code_simp
  have par: "''joint'' = ''locator'' \<or> (None::string option) = None \<or> node_by_name scene0 (the None) \<noteq> None"
    by simp
  have par': "''transform'' = ''locator'' \<or> (None::string option) = None \<or> node_by_name scene0 (the None) \<noteq> None"
    by simp
  have n1: "name_from_metadata sample_env
             \<lparr>base_name = ''arm'', side = ''L'', role = effective_role ''joint'' (Some ''deform''),
                description = None, ident = Some 0\<rparr> = ''arm_L_0_deform''" by code_simp
  have n2: "name_from_metadata sample_env
             \<lparr>base_name = ''arm'', side = ''L'', role = effective_role ''transform'' (Some ''mod''),
                description = None, ident = None\<rparr> = ''arm_L_mod''" by code_simp
  have f1: "node_by_name scene0 ''arm_L_0_deform'' = None" by code_simp
  have f2: "node_by_name scene0 ''arm_L_mod'' \<noteq> None" by code_simp
  have v: "nid arm_node = 3" "next_id scene0 = 4" "conns scene0 = []"
    by (simp_all add: arm_node_def scene0_def)
  show ?thesis
    using add_node_spec [OF nm sd b ids par, of sample_env "Some ''deform''" "Some 0" None]
          add_node_spec [OF nm sd b ids par', of sample_env "Some ''mod''" None None]
    by (simp add: n1 n2 f1 f2 v Let_def)
qed

lemma field_get_state: "snd (field_get k n f s) = s"
  by (simp add: field_get_def split: option.splits)

subsection \<open>A built module is not updated\<close>

text \<open>
  Claim C2. When \<open>is_built\<close> reads as true, \<open>update\<close> returns at once: the object and the
  scene, with every node, attribute, connection and field, are what they were.
\<close>

theorem update_built_noop:
  assumes "fst (field_get BoolField (node_name m) ''is_built'' s) = Inr b" and "truthy b"
  shows "update E (m, s) = (Inr (), (m, s))"
proof -
  have "field_get BoolField (node_name m) ''is_built'' s = (Inr b, s)"
    using assms(1) field_get_state[of BoolField "node_name m" "''is_built''" s]
    by (cases "field_get BoolField (node_name m) ''is_built'' s") simp
  then show ?thesis
    using assms(2) by (simp add: update_def bnd_def on_self_def ret_def)
qed

theorem update_built_noop_witness:
  "update sample_env (arm, scene1 ''leg'' ''R'' True) = (Inr (), (arm, scene1 ''leg'' ''R'' True))"
proof -
  have h: "fst (field_get BoolField (node_name arm) ''is_built'' (scene1 ''leg'' ''R'' True)) =
             Inr (PBool True)"
    by code_simp
  show ?thesis using update_built_noop [OF h, of sample_env] by (simp add: truthy_def)
qed

subsection \<open>Setting an attribute\<close>

lemma find_map_aname:
  "find (\<lambda>x. aname x = a) (map (\<lambda>x. if aname x = b then x\<lparr>avalue := v\<rparr> else x) xs) =
     map_option (\<lambda>x. if aname x = b then x\<lparr>avalue := v\<rparr> else x) (find (\<lambda>x. aname x = a) xs)"
  by (induction xs) auto

lemma map_set_none:
  "find (\<lambda>x. aname x = a) xs = None \<Longrightarrow> map (\<lambda>x. if aname x = a then x\<lparr>avalue := v\<rparr> else x) xs = xs"
  by (induction xs) (auto split: if_splits)

lemma map_set_twice:
  "map (\<lambda>x. if aname x = a then x\<lparr>avalue := v\<rparr> else x)
     (map (\<lambda>x. if aname x = a then x\<lparr>avalue := v\<rparr> else x) xs) =
   map (\<lambda>x. if aname x = a then x\<lparr>avalue := v\<rparr> else x) xs"
  by (induction xs) auto

lemma filter_map_set:
  "filter (\<lambda>x. aname x \<noteq> a) (map (\<lambda>x. if aname x = a then x\<lparr>avalue := v\<rparr> else x) xs) =
   filter (\<lambda>x. aname x \<noteq> a) xs"
  by (induction xs) auto

lemma set_attr_value_idem: "set_attr_value a v (set_attr_value a v nd) = set_attr_value a v nd"
proof (cases "find_attr nd a")
  case None
  then show ?thesis
    by (simp add: set_attr_value_def find_attr_def find_append map_set_none)
next
  case (Some y)
  then show ?thesis
    by (simp add: set_attr_value_def find_attr_def find_map_aname map_set_twice)
qed

lemma nname_set_attr_value [simp]: "nname (set_attr_value a v nd) = nname nd"
  by (simp add: set_attr_value_def)

lemma nid_set_attr_value [simp]: "nid (set_attr_value a v nd) = nid nd"
  by (simp add: set_attr_value_def)

lemma hide_set_attr_value: "hide a (set_attr_value a v nd) = hide a nd"
  by (simp add: hide_def set_attr_value_def filter_map_set)

lemma setAttr_run:
  "setAttr n a v s =
     (case node_by_name s n of
        None \<Rightarrow> (Inl HostError, s)
      | Some nd \<Rightarrow> (Inr (), upd_node (nid nd) (set_attr_value a v) s))"
  by (simp add: setAttr_def bnd_def the_node_def modify_def split: option.splits)

lemma upd_node_idem:
  assumes "\<And>x. f (f x) = f x" and "\<And>x. nid (f x) = nid x"
  shows "upd_node i f (upd_node i f s) = upd_node i f s"
  by (simp add: upd_node_def assms)

lemma setAttr_idem: "setAttr n a v (snd (setAttr n a v s)) = setAttr n a v s"
proof (cases "node_by_name s n")
  case None
  then show ?thesis by (simp add: setAttr_run)
next
  case (Some nd)
  have "node_by_name (upd_node (nid nd) (set_attr_value a v) s) n = Some (set_attr_value a v nd)"
    by (simp add: node_by_name_upd_node Some)
  then show ?thesis
    by (simp add: setAttr_run Some upd_node_idem set_attr_value_idem)
qed


lemma node_by_id_upd_node:
  assumes "\<And>x. nid (f x) = nid x"
  shows "node_by_id (upd_node i f s) j =
     map_option (\<lambda>nd. if nid nd = i then f nd else nd) (node_by_id s j)"
proof -
  have "find (\<lambda>nd. nid nd = j) (map (\<lambda>nd. if nid nd = i then f nd else nd) xs) =
        map_option (\<lambda>nd. if nid nd = i then f nd else nd) (find (\<lambda>nd. nid nd = j) xs)" for xs
    by (induction xs) (auto simp: assms)
  then show ?thesis by (simp add: node_by_id_def upd_node_def)
qed

lemma ref_name_upd_node:
  assumes "\<And>x. nid (f x) = nid x" and "\<And>x. nname (f x) = nname x"
  shows "ref_name (upd_node i f s) j = ref_name s j"
  by (simp add: ref_name_def node_by_id_upd_node assms option.map_comp o_def if_distrib cong: if_cong)

lemma ref_names_upd_node:
  assumes "\<And>x. nid (f x) = nid x" and "\<And>x. nname (f x) = nname x"
  shows "ref_names (upd_node i f s) js = ref_names s js"
proof -
  have "ref_name (upd_node i f s) = ref_name s"
    by (rule ext) (simp add: ref_name_upd_node assms)
  then show ?thesis by (simp add: ref_names_def)
qed

lemma read_field_upd_node:
  assumes "\<And>x. nid (f x) = nid x" and "\<And>x. nname (f x) = nname x"
  shows "read_field (upd_node i f s) k v = read_field s k v"
  by (cases "(s, k, v)" rule: read_field.cases)
     (simp_all add: ref_name_upd_node ref_names_upd_node assms)

lemma attr_value_set_attr_value:
  "f \<noteq> a \<Longrightarrow> attr_value (set_attr_value a v nd) f = attr_value nd f"
  by (auto simp: attr_value_def set_attr_value_def find_attr_def find_append find_map_aname
        split: option.splits dest: find_SomeD)

lemma publish_run:
  "publish m s =
     (case node_by_name s (node_name m) of
        None \<Rightarrow> (Inl HostError, s)
      | Some b \<Rightarrow>
          (case read_field s ObjectField (attr_value b ''extras_group'') of
             PStr n \<Rightarrow> setAttr n ''visibility'' (ABool False) s
           | _ \<Rightarrow> (Inl TypeError, s)))"
  by (simp add: publish_def bnd_def field_get_def as_str_def raise_def ret_def
        split: option.splits pyval.splits)

lemma publish_after_setAttr:
  "publish m (upd_node i (set_attr_value ''visibility'' v) s) =
     (case publish m s of (r, s') \<Rightarrow>
        (case node_by_name s (node_name m) of
        None \<Rightarrow> (Inl HostError, upd_node i (set_attr_value ''visibility'' v) s)
      | Some b \<Rightarrow>
          (case read_field s ObjectField (attr_value b ''extras_group'') of
             PStr n \<Rightarrow> setAttr n ''visibility'' (ABool False) (upd_node i (set_attr_value ''visibility'' v) s)
           | _ \<Rightarrow> (Inl TypeError, upd_node i (set_attr_value ''visibility'' v) s))))"
  by (auto simp: publish_run node_by_name_upd_node read_field_upd_node attr_value_set_attr_value
        split: option.splits pyval.splits prod.splits)

subsection \<open>Publishing\<close>

text \<open>
  Claim C9. Publishing a second time changes nothing: \<open>publish\<close> run on the scene a first
  \<open>publish\<close> left ends as the first did, in the same scene. And \<open>publish\<close> is cosmetic:
  the scene it leaves has the connections and the nodes of the scene it started from, with
  every name, type, parent and attribute, the attribute \<open>visibility\<close> apart.
\<close>

theorem publish_idempotent:
  "publish m (snd (publish m s)) = publish m s
   \<and> conns (snd (publish m s)) = conns s
   \<and> next_id (snd (publish m s)) = next_id s
   \<and> map (hide ''visibility'') (nodes (snd (publish m s))) = map (hide ''visibility'') (nodes s)"
proof (cases "node_by_name s (node_name m)")
  case None
  then show ?thesis by (simp add: publish_run)
next
  case (Some b)
  show ?thesis
  proof (cases "read_field s ObjectField (attr_value b ''extras_group'')")
    case (PStr n)
    have p: "publish m s = setAttr n ''visibility'' (ABool False) s"
      by (simp add: publish_run Some PStr)
    show ?thesis
    proof (cases "node_by_name s n")
      case None
      then show ?thesis by (simp add: p setAttr_run)
    next
      case (Some x)
      have s': "snd (publish m s) = upd_node (nid x) (set_attr_value ''visibility'' (ABool False)) s"
        by (simp add: p setAttr_run Some)
      have "publish m (snd (publish m s)) =
              setAttr n ''visibility'' (ABool False) (snd (setAttr n ''visibility'' (ABool False) s))"
        unfolding s' using \<open>node_by_name s (node_name m) = Some b\<close> PStr
        by (simp add: publish_after_setAttr setAttr_run Some)
      then have 1: "publish m (snd (publish m s)) = publish m s"
        by (simp add: setAttr_idem p)
      have 2: "map (hide ''visibility'') (nodes (snd (publish m s))) = map (hide ''visibility'') (nodes s)"
        by (simp add: s' upd_node_def o_def hide_set_attr_value if_distrib cong: if_cong)
      show ?thesis using 1 2 by (simp add: s' upd_node_def)
    qed
  qed (simp_all add: publish_run Some)
qed

subsection \<open>Quiet steps and triples\<close>

lemma quiet_refl [simp]: "quiet n s s"
  by (simp add: quiet_def)

lemma quiet_trans: "quiet n s s1 \<Longrightarrow> quiet n s1 s2 \<Longrightarrow> quiet n s s2"
  by (simp add: quiet_def)

lemma quiet_cmd_ret [simp]: "quiet_cmd n (ret x)"
  by (simp add: quiet_cmd_def ret_def)

lemma quiet_cmd_raise [simp]: "quiet_cmd n (raise e)"
  by (simp add: quiet_cmd_def raise_def)

lemma quiet_cmd_bnd:
  assumes "quiet_cmd n c" and "\<And>x. quiet_cmd n (f x)"
  shows "quiet_cmd n (bnd c f)"
  unfolding quiet_cmd_def
proof
  fix s
  obtain r s1 where c: "c s = (r, s1)" by (cases "c s")
  have q1: "quiet n s s1" using assms(1) c by (auto simp: quiet_cmd_def dest: spec[of _ s])
  show "quiet n s (snd (bnd c f s))"
  proof (cases r)
    case (Inl e)
    then show ?thesis using c q1 by (simp add: bnd_def)
  next
    case (Inr x)
    have "quiet n s1 (snd (f x s1))" using assms(2)[of x] by (simp add: quiet_cmd_def)
    then show ?thesis using c Inr q1 by (auto simp: bnd_def intro: quiet_trans)
  qed
qed

lemma quiet_cmd_seq:
  "quiet_cmd n c \<Longrightarrow> quiet_cmd n d \<Longrightarrow> quiet_cmd n (seq c d)"
  by (simp add: seq_def quiet_cmd_bnd)

lemma quiet_cmd_for_each:
  "(\<And>x. x \<in> set xs \<Longrightarrow> quiet_cmd n (f x)) \<Longrightarrow> quiet_cmd n (for_each xs f)"
  by (induction xs) (simp_all add: quiet_cmd_seq)

lemma quiet_cmd_if:
  "quiet_cmd n c \<Longrightarrow> quiet_cmd n d \<Longrightarrow> quiet_cmd n (if b then c else d)"
  by simp

lemma quiet_cmd_read:
  "(\<And>s. snd (c s) = s) \<Longrightarrow> quiet_cmd n c"
  by (simp add: quiet_cmd_def)

lemma attr_value_append:
  "f \<noteq> a \<Longrightarrow> attr_value (x\<lparr>nattrs := nattrs x @ [\<lparr>aname = a, acategory = c, avalue = v\<rparr>]\<rparr>) f = attr_value x f"
  by (auto simp: attr_value_def find_attr_def find_append split: option.splits)

lemma attr_value_append_field:
  "a \<notin> owner_fields \<Longrightarrow> f \<in> owner_fields \<Longrightarrow>
   attr_value (x\<lparr>nattrs := nattrs x @ [\<lparr>aname = a, acategory = c, avalue = v\<rparr>]\<rparr>) f = attr_value x f"
  by (rule attr_value_append) auto

lemma attr_value_set_field:
  "a \<notin> owner_fields \<Longrightarrow> f \<in> owner_fields \<Longrightarrow>
   attr_value (set_attr_value a v x) f = attr_value x f"
  by (rule attr_value_set_attr_value) auto

lemma quiet_upd_node:
  assumes "\<And>x. nid (g x) = nid x" and "\<And>x. nname (g x) = nname x"
    and "\<And>x f. f \<in> owner_fields \<Longrightarrow> attr_value (g x) f = attr_value x f"
  shows "quiet n s (upd_node i g s)"
  using assms
  by (auto simp: quiet_def refs_def resolve_def node_by_name_upd_node stored_refs_def
      split: option.splits)

lemma quiet_fresh_node: "quiet n s (fresh_node ty x p s)"
  by (auto simp: quiet_def refs_def resolve_def node_by_name_fresh_node stored_refs_def
        attr_value_def find_attr_def split: option.splits)

lemma quiet_conns: "quiet n s (s\<lparr>conns := c\<rparr>)"
  by (simp add: quiet_def refs_def resolve_def node_by_name_def)

lemma quiet_cmd_createNode: "quiet_cmd n (createNode ty x p)"
  by (auto simp: quiet_cmd_def createNode_def quiet_fresh_node split: option.splits)

lemma quiet_cmd_the_node: "quiet_cmd n (the_node x)"
  by (rule quiet_cmd_read) (simp add: the_node_def split: option.splits)

lemma quiet_cmd_modify: "(\<And>s. quiet n s (g s)) \<Longrightarrow> quiet_cmd n (modify g)"
  by (simp add: quiet_cmd_def modify_def)

lemma quiet_cmd_addAttr: "a \<notin> owner_fields \<Longrightarrow> quiet_cmd n (addAttr x a c)"
  unfolding addAttr_def
  by (intro quiet_cmd_bnd quiet_cmd_the_node quiet_cmd_if quiet_cmd_raise quiet_cmd_modify
        quiet_upd_node) (auto simp: attr_value_append_field)

lemma quiet_cmd_connectAttr: "quiet_cmd n (connectAttr x a y b)"
  unfolding connectAttr_def
  by (intro quiet_cmd_bnd quiet_cmd_the_node quiet_cmd_modify quiet_conns)

lemma quiet_cmd_setAttr: "a \<notin> owner_fields \<Longrightarrow> quiet_cmd n (setAttr x a v)"
  unfolding setAttr_def
  by (intro quiet_cmd_bnd quiet_cmd_the_node quiet_cmd_modify quiet_upd_node)
     (auto simp: attr_value_set_field)

lemma quiet_cmd_parent_cmd: "quiet_cmd n (parent_cmd x p)"
  unfolding parent_cmd_def
  by (intro quiet_cmd_bnd quiet_cmd_the_node quiet_cmd_modify quiet_upd_node)
     (auto simp: attr_value_def find_attr_def)

lemma quiet_cmd_parent_under: "quiet_cmd n (parent_under x p)"
  by (cases p) (simp_all add: parent_under_def quiet_cmd_parent_cmd)

lemma quiet_cmd_field_get: "quiet_cmd n (field_get k x f)"
  by (rule quiet_cmd_read) (simp add: field_get_state)

lemma quiet_cmd_as_str: "quiet_cmd n (as_str v)"
  by (cases v) (simp_all add: as_str_def)

lemma quiet_cmd_name_get: "quiet_cmd n (name_get m)"
  by (simp add: name_get_def quiet_cmd_bnd quiet_cmd_field_get quiet_cmd_as_str)

lemma quiet_cmd_side_get: "quiet_cmd n (side_get m)"
  by (simp add: side_get_def quiet_cmd_bnd quiet_cmd_field_get quiet_cmd_as_str)

lemma quiet_cmd_objExists: "quiet_cmd n (objExists x)"
  by (rule quiet_cmd_read) (simp add: objExists_def)

lemma quiet_cmd_rig_field: "quiet_cmd n (rig_field m f)"
  by (cases "rig m") (simp_all add: rig_field_def quiet_cmd_field_get)

lemma quiet_cmd_field_len: "quiet_cmd n (field_len x f)"
  unfolding field_len_def
  by (intro quiet_cmd_bnd quiet_cmd_field_get) (simp split: pyval.splits)

lemma channel_not_field:
  assumes "axis \<in> set ''XYZ''"
  shows "t @ [axis] \<notin> owner_fields"
proof
  assume "t @ [axis] \<in> owner_fields"
  then have "last (t @ [axis]) \<in> last ` owner_fields" by (rule imageI)
  then show False using assms by (auto simp: owner_fields_def)
qed

lemma quiet_cmd_reset_channels: "quiet_cmd n (reset_channels x ts)"
  unfolding reset_channels_def Let_def
  by (intro quiet_cmd_for_each quiet_cmd_setAttr channel_not_field)

lemma hoare_bnd:
  assumes "hoare P c R X" and "\<And>x. hoare (R x) (f x) Q X"
  shows "hoare P (bnd c f) Q X"
  unfolding hoare_def
proof (intro allI impI)
  fix s assume "P s"
  obtain r s1 where c: "c s = (r, s1)" by (cases "c s")
  show "case bnd c f s of (Inl e, s') \<Rightarrow> X s' | (Inr x, s') \<Rightarrow> Q x s'"
  proof (cases r)
    case (Inl e)
    then show ?thesis using assms(1) \<open>P s\<close> c by (auto simp: hoare_def bnd_def dest: spec[of _ s])
  next
    case (Inr x)
    then have "R x s1" using assms(1) \<open>P s\<close> c by (auto simp: hoare_def dest: spec[of _ s])
    then show ?thesis using assms(2)[of x] c Inr by (auto simp: hoare_def bnd_def)
  qed
qed

lemma hoare_seq:
  "hoare P c (\<lambda>_. R) X \<Longrightarrow> hoare R d Q X \<Longrightarrow> hoare P (seq c d) Q X"
  unfolding seq_def by (rule hoare_bnd)

lemma hoare_ret: "(\<And>s. P s \<Longrightarrow> Q x s) \<Longrightarrow> hoare P (ret x) Q X"
  by (simp add: hoare_def ret_def)

lemma hoare_raise: "(\<And>s. P s \<Longrightarrow> X s) \<Longrightarrow> hoare P (raise e) Q X"
  by (simp add: hoare_def raise_def)

lemma hoare_if: "hoare P c Q X \<Longrightarrow> hoare P d Q X \<Longrightarrow> hoare P (if b then c else d) Q X"
  by simp

lemma hoare_quiet:
  assumes "quiet_cmd n c" and "stable n A" and "\<And>s. A s \<Longrightarrow> X s"
  shows "hoare A c (\<lambda>_. A) X"
  unfolding hoare_def
proof (intro allI impI)
  fix s assume "A s"
  have "quiet n s (snd (c s))" using assms(1) by (simp add: quiet_cmd_def)
  then have "A (snd (c s))" using assms(2) \<open>A s\<close> by (auto simp: stable_def)
  then show "case c s of (Inl e, s') \<Rightarrow> X s' | (Inr x, s') \<Rightarrow> A s'"
    using assms(3) by (cases "c s") (auto split: sum.splits)
qed

lemma hoare_quiet_bnd:
  assumes "quiet_cmd n c" and "stable n A" and "\<And>s. A s \<Longrightarrow> X s" and "\<And>x. hoare A (f x) Q X"
  shows "hoare A (bnd c f) Q X"
proof (rule hoare_bnd)
  show "hoare A c (\<lambda>_. A) X" using assms(1,2,3) by (rule hoare_quiet)
  show "\<And>x. hoare A (f x) Q X" by (rule assms(4))
qed

lemma hoare_quiet_seq:
  assumes "quiet_cmd n c" and "stable n A" and "\<And>s. A s \<Longrightarrow> X s" and "hoare A d Q X"
  shows "hoare A (seq c d) Q X"
  unfolding seq_def using assms by (rule hoare_quiet_bnd)

lemma stable_owned_inv: "stable (node_name m) (owned_inv m)"
  by (simp add: stable_def owned_inv_def quiet_def owner_fields_def)

lemma stable_is_owned: "stable n (is_owned n x)"
  by (auto simp: stable_def is_owned_def quiet_def owner_fields_def)

lemma stable_conj: "stable n A \<Longrightarrow> stable n B \<Longrightarrow> stable n (\<lambda>s. A s \<and> B s)"
  by (auto simp: stable_def)

lemma attr_value_set_same: "attr_value (set_attr_value a v nd) a = v"
proof (cases "find_attr nd a")
  case None
  then show ?thesis
    by (simp add: attr_value_def set_attr_value_def find_attr_def find_append)
next
  case (Some y)
  then show ?thesis
    by (auto simp: attr_value_def set_attr_value_def find_attr_def find_map_aname dest: find_SomeD)
qed

lemma field_append_effect:
  assumes "field_append n f x s = (r, s')"
  shows "(r = Inr () \<and> appended n f x s s') \<or> ((\<exists>e. r = Inl e) \<and> s' = s)"
proof (cases "node_by_name s n")
  case None
  then show ?thesis using assms by (auto simp: field_append_def)
next
  case (Some b)
  show ?thesis
  proof (cases "resolve s x")
    case None
    then show ?thesis using assms Some by (auto simp: field_append_def)
  next
    case (Some j)
    let ?g = "set_attr_value f (ARefs (stored_refs b f @ [j]))"
    have s': "s' = upd_node (nid b) ?g s" and r: "r = Inr ()"
      using assms Some \<open>node_by_name s n = Some b\<close> by (auto simp: field_append_def)
    have nb: "node_by_name s' n = Some (?g b)"
      by (simp add: s' node_by_name_upd_node \<open>node_by_name s n = Some b\<close>)
    have 1: "refs s' n f = refs s n f @ [j]"
      by (simp add: refs_def nb \<open>node_by_name s n = Some b\<close> stored_refs_def attr_value_set_same)
    have 2: "g \<noteq> f \<Longrightarrow> refs s' n g = refs s n g" for g
      by (simp add: refs_def nb \<open>node_by_name s n = Some b\<close> stored_refs_def attr_value_set_attr_value)
    have 3: "resolve s' y = resolve s y" for y
      by (auto simp: s' resolve_def node_by_name_upd_node option.map_comp o_def
            intro!: option.map_cong)
    show ?thesis using r 1 2 3 Some by (auto simp: appended_def)
  qed
qed

lemma hoare_append_owned:
  "hoare (owned_inv m) (field_append (node_name m) ''owned_nodes'' x)
     (\<lambda>_ s. owned_inv m s \<and> is_owned (node_name m) x s) (owned_inv m)"
  unfolding hoare_def
proof (intro allI impI)
  fix s assume inv: "owned_inv m s"
  obtain r s' where run: "field_append (node_name m) ''owned_nodes'' x s = (r, s')"
    by (cases "field_append (node_name m) ''owned_nodes'' x s")
  from field_append_effect[OF run] show
    "case field_append (node_name m) ''owned_nodes'' x s of
       (Inl e, s') \<Rightarrow> owned_inv m s'
     | (Inr u, s') \<Rightarrow> owned_inv m s' \<and> is_owned (node_name m) x s'"
    using inv run
    by (auto simp: appended_def owned_inv_def is_owned_def owner_fields_def)
qed

lemma hoare_append_list:
  assumes "f \<in> {''deform_joints'', ''placement_locators''}"
  shows "hoare (\<lambda>s. owned_inv m s \<and> is_owned (node_name m) x s)
     (field_append (node_name m) f x) (\<lambda>_. owned_inv m) (owned_inv m)"
  unfolding hoare_def
proof (intro allI impI)
  fix s assume pre: "owned_inv m s \<and> is_owned (node_name m) x s"
  obtain r s' where run: "field_append (node_name m) f x s = (r, s')"
    by (cases "field_append (node_name m) f x s")
  from field_append_effect[OF run] show
    "case field_append (node_name m) f x s of
       (Inl e, s') \<Rightarrow> owned_inv m s' | (Inr u, s') \<Rightarrow> owned_inv m s'"
    using pre run assms
    by (auto simp: appended_def owned_inv_def is_owned_def owner_fields_def)
qed

lemma module_not_field: "''module'' \<notin> owner_fields"
  by (simp add: owner_fields_def)

lemma quiet_cmd_spaceLocator: "quiet_cmd n (spaceLocator x)"
  by (simp add: spaceLocator_def quiet_cmd_createNode)

lemma hoare_add_node:
  "hoare (owned_inv m) (add_node E m ty r oid d p)
     (\<lambda>x s. owned_inv m s \<and> is_owned (node_name m) x s) (owned_inv m)"
  unfolding add_node_def Let_def
  apply (rule hoare_quiet_bnd[OF quiet_cmd_name_get stable_owned_inv], assumption)
  apply (rule hoare_quiet_bnd[OF quiet_cmd_side_get stable_owned_inv], assumption)
  apply (rule hoare_quiet_bnd[OF quiet_cmd_objExists stable_owned_inv], assumption)
  apply (rule hoare_if)
   apply (rule hoare_raise, assumption)
  apply (rule hoare_quiet_bnd[OF quiet_cmd_if[OF quiet_cmd_spaceLocator quiet_cmd_createNode] stable_owned_inv], assumption)
  apply (rule hoare_quiet_seq[OF quiet_cmd_addAttr[OF module_not_field] stable_owned_inv], assumption)
  apply (rule hoare_quiet_seq[OF quiet_cmd_connectAttr stable_owned_inv], assumption)
  apply (rule hoare_seq[OF hoare_append_owned])
  apply (rule hoare_ret, assumption)
  done

lemma stable_owned: "stable (node_name m) (\<lambda>s. owned_inv m s \<and> is_owned (node_name m) x s)"
  by (rule stable_conj[OF stable_owned_inv stable_is_owned])

lemma hoare_add_deform_joint:
  "hoare (owned_inv m) (add_deform_joint E m parent object_id descr) (\<lambda>_. owned_inv m) (owned_inv m)"
  unfolding add_deform_joint_def
  apply (rule hoare_quiet_bnd[OF _ stable_owned_inv])
    apply (cases object_id; simp add: quiet_cmd_bnd quiet_cmd_field_len)
   apply assumption
  apply (rule hoare_bnd[OF hoare_add_node])
  apply (rule hoare_quiet_bnd[OF quiet_cmd_if[OF quiet_cmd_field_get quiet_cmd_ret] stable_owned], simp)
  apply (rule hoare_quiet_bnd[OF quiet_cmd_if[OF quiet_cmd_rig_field quiet_cmd_ret] stable_owned], simp)
  apply (rule hoare_quiet_seq[OF quiet_cmd_parent_under stable_owned], simp)
  apply (rule hoare_quiet_seq[OF quiet_cmd_reset_channels stable_owned], simp)
  apply (rule hoare_seq[OF hoare_append_list])
   apply simp
  apply (rule hoare_ret, assumption)
  done

lemma hoare_add_placement_locator:
  "hoare (owned_inv m) (add_placement_locator E m descr object_id parent) (\<lambda>_. owned_inv m) (owned_inv m)"
  unfolding add_placement_locator_def
  apply (rule hoare_bnd[OF hoare_add_node])
  apply (rule hoare_quiet_bnd[OF quiet_cmd_if[OF quiet_cmd_field_get quiet_cmd_ret] stable_owned], simp)
  apply (rule hoare_quiet_seq[OF quiet_cmd_parent_under stable_owned], simp)
  apply (rule hoare_quiet_seq[OF quiet_cmd_reset_channels stable_owned], simp)
  apply (rule hoare_seq[OF hoare_append_list])
   apply simp
  apply (rule hoare_ret, assumption)
  done

lemma hoare_post:
  assumes "hoare P c Q' X" and imp: "\<And>x s. Q' x s \<Longrightarrow> Q x s"
  shows "hoare P c Q X"
  unfolding hoare_def
proof (intro allI impI)
  fix s assume "P s"
  with assms(1) have "case c s of (Inl e, s') \<Rightarrow> X s' | (Inr x, s') \<Rightarrow> Q' x s'"
    by (simp add: hoare_def)
  then show "case c s of (Inl e, s') \<Rightarrow> X s' | (Inr x, s') \<Rightarrow> Q x s'"
    using imp by (cases "c s") (auto split: sum.splits)
qed

lemma hoare_snd: "hoare P c (\<lambda>_. Q) Q \<Longrightarrow> P s \<Longrightarrow> Q (snd (c s))"
  by (cases "c s") (auto simp: hoare_def split: sum.splits dest: spec[of _ s])

subsection \<open>The ownership invariant\<close>

text \<open>
  The operations that create a node through \<open>add_node\<close>, which are \<open>add_node\<close> itself,
  \<open>_add_deform_joint\<close> and \<open>_add_placement_locator\<close>, keep the invariant whatever way they
  end, with a result or with an exception: when every node of \<open>deform_joints\<close>,
  \<open>placement_locators\<close> and \<open>controllers\<close> is in \<open>owned_nodes\<close> before the call, it is so
  after it.
\<close>

lemma creation_keeps_ownership:
  assumes "owned_inv m s"
  shows "owned_inv m (snd (add_node E m node_type role_arg object_id descr parent s))
       \<and> owned_inv m (snd (add_deform_joint E m parent1 object_id1 descr1 s))
       \<and> owned_inv m (snd (add_placement_locator E m descr2 object_id2 parent2 s))"
proof -
  have "hoare (owned_inv m) (add_node E m node_type role_arg object_id descr parent)
          (\<lambda>_. owned_inv m) (owned_inv m)"
    by (rule hoare_post[OF hoare_add_node]) simp
  from hoare_snd[OF this assms] hoare_snd[OF hoare_add_deform_joint assms]
    hoare_snd[OF hoare_add_placement_locator assms]
  show ?thesis by blast
qed

lemma creation_keeps_ownership_example:
  "owned_inv arm (scene1 ''arm'' ''L'' False)
   \<and> fst (add_deform_joint sample_env arm PNone None None (scene1 ''arm'' ''L'' False)) = Inr ''arm_L_1_deform''
   \<and> owned_inv arm (snd (add_node sample_env arm ''transform'' (Some ''grp'') None (Some ''tmp'') None (scene1 ''arm'' ''L'' False)))
   \<and> owned_inv arm (snd (add_deform_joint sample_env arm PNone None None (scene1 ''arm'' ''L'' False)))
   \<and> owned_inv arm (snd (add_placement_locator sample_env arm None None PNone (scene1 ''arm'' ''L'' False)))"
proof -
  have h: "owned_inv arm (scene1 ''arm'' ''L'' False)" by code_simp
  have r: "fst (add_deform_joint sample_env arm PNone None None (scene1 ''arm'' ''L'' False)) = Inr ''arm_L_1_deform''"
    by code_simp
  show ?thesis
    using h r creation_keeps_ownership [OF h, of sample_env "''transform''" "Some ''grp''" None "Some ''tmp''" None
            PNone None None None None PNone]
    by simp
qed

text \<open>
  Claim C4. \<open>add_control\<close> does not keep the invariant. It does not create its node through
  \<open>add_node\<close>, as the other creating operations do: it appends the controller to
  \<open>controllers\<close> and never to \<open>owned_nodes\<close>. For the built module \<open>arm_L_mod\<close>, in which
  the invariant holds, a controller for the joint \<open>arm_L_0_deform\<close> is returned, and the
  invariant does not hold in the scene the call leaves.
\<close>

theorem add_control_breaks_ownership:
  "owned_inv arm (scene1 ''arm'' ''L'' True)
   \<and> fst (add_control sample_env arm ''arm_L_0_deform'' None None ''circle'' (scene1 ''arm'' ''L'' True))
       = Inr (''arm_L_0_ctl'', ''arm_L_0_ctl_buffer'')
   \<and> \<not> owned_inv arm
         (snd (add_control sample_env arm ''arm_L_0_deform'' None None ''circle'' (scene1 ''arm'' ''L'' True)))"
  by code_simp

subsection \<open>The id of a new joint and of a new locator\<close>

lemma bnd_InrD:
  assumes "bnd c f s = (Inr y, s')"
  shows "\<exists>x s1. c s = (Inr x, s1) \<and> f x s1 = (Inr y, s')"
  using assms by (cases "c s") (auto simp: bnd_def split: sum.splits)

lemma seq_InrD:
  assumes "seq c d s = (Inr y, s')"
  shows "\<exists>x s1. c s = (Inr x, s1) \<and> d s1 = (Inr y, s')"
  using assms unfolding seq_def by (rule bnd_InrD)

lemma ret_InrD: "ret x s = (Inr y, s') \<Longrightarrow> y = x \<and> s' = s"
  by (simp add: ret_def)

lemma createNode_result: "createNode ty n p s = (Inr x, s') \<Longrightarrow> x = n"
  by (auto simp: createNode_def split: if_splits option.splits)

lemma name_get_state: "snd (name_get m s) = s"
  by (auto simp: name_get_def bnd_def field_get_def as_str_def ret_def raise_def
        split: option.splits pyval.splits)

lemma side_get_state: "snd (side_get m s) = s"
  by (auto simp: side_get_def bnd_def field_get_def as_str_def ret_def raise_def
        split: option.splits pyval.splits)

lemma field_len_state: "snd (field_len n f s) = s"
  by (auto simp: field_len_def bnd_def field_get_def ret_def raise_def
        split: option.splits pyval.splits)

lemma add_node_name:
  assumes run: "add_node E m ty r oid d p s = (Inr x, s')"
    and nm: "name_get m s = (Inr bn, s)" and sd: "side_get m s = (Inr sd, s)"
  shows "x = name_from_metadata E
           \<lparr>base_name = bn, side = sd, role = effective_role ty r, description = d, ident = oid\<rparr>"
proof -
  let ?n = "name_from_metadata E
           \<lparr>base_name = bn, side = sd, role = effective_role ty r, description = d, ident = oid\<rparr>"
  from run have 1: "bnd (objExists ?n) (\<lambda>ex.
          if ex then raise (ValueError ?n)
          else
            bnd (if ty = ''locator'' then spaceLocator ?n
                 else createNode ty ?n p) (\<lambda>nd.
            seq (addAttr nd ''module'' None)
            (seq (connectAttr (node_name m) ''message'' nd ''module'')
            (seq (field_append (node_name m) ''owned_nodes'' nd)
                 (ret nd))))) s = (Inr x, s')"
    by (simp only: add_node_def Let_def bnd_run[of "name_get m"] bnd_run[of "side_get m"] nm sd
        prod.case sum.case)
  from bnd_InrD[OF 1] obtain ex s1 where
    2: "(if ex then raise (ValueError ?n)
          else
            bnd (if ty = ''locator'' then spaceLocator ?n
                 else createNode ty ?n p) (\<lambda>nd.
            seq (addAttr nd ''module'' None)
            (seq (connectAttr (node_name m) ''message'' nd ''module'')
            (seq (field_append (node_name m) ''owned_nodes'' nd)
                 (ret nd))))) s1 = (Inr x, s')"
    by blast
  then have ex: "\<not> ex" by (auto simp: raise_def)
  with 2 have 3: "bnd (if ty = ''locator'' then spaceLocator ?n
                 else createNode ty ?n p) (\<lambda>nd.
            seq (addAttr nd ''module'' None)
            (seq (connectAttr (node_name m) ''message'' nd ''module'')
            (seq (field_append (node_name m) ''owned_nodes'' nd)
                 (ret nd)))) s1 = (Inr x, s')" by simp
  from bnd_InrD[OF 3] obtain nd s2 where
    c: "(if ty = ''locator'' then spaceLocator ?n else createNode ty ?n p) s1 = (Inr nd, s2)"
    and 4: "seq (addAttr nd ''module'' None)
            (seq (connectAttr (node_name m) ''message'' nd ''module'')
            (seq (field_append (node_name m) ''owned_nodes'' nd)
                 (ret nd))) s2 = (Inr x, s')" by blast
  from c have nd: "nd = ?n"
    by (auto simp: spaceLocator_def split: if_splits dest: createNode_result)
  from seq_InrD[OF 4] obtain u3 s3 where
    5: "seq (connectAttr (node_name m) ''message'' nd ''module'')
            (seq (field_append (node_name m) ''owned_nodes'' nd) (ret nd)) s3 = (Inr x, s')" by blast
  from seq_InrD[OF 5] obtain u4 s4 where
    6: "seq (field_append (node_name m) ''owned_nodes'' nd) (ret nd) s4 = (Inr x, s')" by blast
  from seq_InrD[OF 6] obtain u5 s5 where "ret nd s5 = (Inr x, s')" by blast
  then have "x = nd" by (simp add: ret_def)
  with nd show ?thesis by simp
qed

lemma stable_named: "stable n (named x)"
  unfolding stable_def named_def quiet_def by blast

lemma stable_True: "stable n (\<lambda>_. True)"
  by (simp add: stable_def)

lemma hoare_append_named:
  "hoare (\<lambda>_. True) (field_append n f x) (\<lambda>_. named x) (\<lambda>_. True)"
  unfolding hoare_def
proof (intro allI impI)
  fix s
  obtain r s' where run: "field_append n f x s = (r, s')" by (cases "field_append n f x s")
  from field_append_effect[OF run]
  show "case field_append n f x s of (Inl e, s') \<Rightarrow> True | (Inr u, s') \<Rightarrow> named x s'"
    using run unfolding appended_def named_def by auto
qed

lemma hoare_append_keeps_named:
  "hoare (named x) (field_append n f x) (\<lambda>_. named x) (\<lambda>_. True)"
  unfolding hoare_def
proof (intro allI impI)
  fix s
  obtain r s' where run: "field_append n f x s = (r, s')" by (cases "field_append n f x s")
  from field_append_effect[OF run]
  show "case field_append n f x s of (Inl e, s') \<Rightarrow> True | (Inr u, s') \<Rightarrow> named x s'"
    using run unfolding appended_def named_def by auto
qed

lemma hoare_add_node_named:
  "hoare (\<lambda>_. True) (add_node E m ty r oid d p) named (\<lambda>_. True)"
  unfolding add_node_def Let_def
  apply (rule hoare_quiet_bnd[OF quiet_cmd_name_get stable_True], simp)
  apply (rule hoare_quiet_bnd[OF quiet_cmd_side_get stable_True], simp)
  apply (rule hoare_quiet_bnd[OF quiet_cmd_objExists stable_True], simp)
  apply (rule hoare_if)
   apply (rule hoare_raise, simp)
  apply (rule hoare_quiet_bnd[OF quiet_cmd_if[OF quiet_cmd_spaceLocator quiet_cmd_createNode] stable_True], simp)
  apply (rule hoare_quiet_seq[OF quiet_cmd_addAttr[OF module_not_field] stable_True], simp)
  apply (rule hoare_quiet_seq[OF quiet_cmd_connectAttr stable_True], simp)
  apply (rule hoare_seq[OF hoare_append_named])
  apply (rule hoare_ret, assumption)
  done

lemma hoare_add_deform_joint_named:
  "hoare (\<lambda>_. True) (add_deform_joint E m parent object_id descr) named (\<lambda>_. True)"
  unfolding add_deform_joint_def
  apply (rule hoare_quiet_bnd[OF _ stable_True])
    apply (cases object_id; simp add: quiet_cmd_bnd quiet_cmd_field_len)
   apply simp
  apply (rule hoare_bnd[OF hoare_add_node_named])
  apply (rule hoare_quiet_bnd[OF quiet_cmd_if[OF quiet_cmd_field_get quiet_cmd_ret] stable_named], simp)
  apply (rule hoare_quiet_bnd[OF quiet_cmd_if[OF quiet_cmd_rig_field quiet_cmd_ret] stable_named], simp)
  apply (rule hoare_quiet_seq[OF quiet_cmd_parent_under stable_named], simp)
  apply (rule hoare_quiet_seq[OF quiet_cmd_reset_channels stable_named], simp)
  apply (rule hoare_seq[OF hoare_append_keeps_named])
  apply (rule hoare_ret, assumption)
  done

lemma hoare_add_placement_locator_named:
  "hoare (\<lambda>_. True) (add_placement_locator E m descr object_id parent) named (\<lambda>_. True)"
  unfolding add_placement_locator_def
  apply (rule hoare_bnd[OF hoare_add_node_named])
  apply (rule hoare_quiet_bnd[OF quiet_cmd_if[OF quiet_cmd_field_get quiet_cmd_ret] stable_named], simp)
  apply (rule hoare_quiet_seq[OF quiet_cmd_parent_under stable_named], simp)
  apply (rule hoare_quiet_seq[OF quiet_cmd_reset_channels stable_named], simp)
  apply (rule hoare_seq[OF hoare_append_keeps_named])
  apply (rule hoare_ret, assumption)
  done

lemma hoare_InrD: "hoare (\<lambda>_. True) c Q X \<Longrightarrow> c s = (Inr x, s') \<Longrightarrow> Q x s'"
  by (auto simp: hoare_def dest: spec[of _ s])


lemma field_len_run: "field_len n f s = (Inr k, s1) \<Longrightarrow> s1 = s"
  using field_len_state[of n f s] by simp

lemma deform_joint_name:
  assumes run: "add_deform_joint E m parent None descr s = (Inr j, s')"
    and nm: "name_get m s = (Inr bn, s)" and sd: "side_get m s = (Inr sd, s)"
  shows "\<exists>n. field_len (node_name m) ''deform_joints'' s = (Inr n, s) \<and>
           j = name_from_metadata E
                 \<lparr>base_name = bn, side = sd, role = ''deform'', description = descr,
                    ident = Some (int n)\<rparr>"
proof -
  from run[unfolded add_deform_joint_def option.case]
  obtain oid s1 where
    1: "bnd (field_len (node_name m) ''deform_joints'') (\<lambda>n. ret (Some (int n))) s = (Inr oid, s1)"
    and 2: "bnd (add_node E m ''joint'' (Some ''deform'') oid descr None) (\<lambda>new_joint.
     bnd (if \<not> truthy parent then field_get ObjectField (node_name m) ''parent_joint''
          else ret parent) (\<lambda>parent'.
     bnd (if \<not> truthy parent' then rig_field m ''skeleton_group'' else ret parent') (\<lambda>parent''.
     seq (parent_under new_joint parent'')
     (seq (reset_channels new_joint [''translate'', ''rotate'', ''scale'', ''jointOrient''])
     (seq (field_append (node_name m) ''deform_joints'' new_joint)
          (ret new_joint)))))) s1 = (Inr j, s')"
    by (blast dest: bnd_InrD)
  from bnd_InrD[OF 1] obtain n s0 where
    n: "field_len (node_name m) ''deform_joints'' s = (Inr n, s0)" and "ret (Some (int n)) s0 = (Inr oid, s1)"
    by blast
  then have oid: "oid = Some (int n)" and s1: "s1 = s" and n': "field_len (node_name m) ''deform_joints'' s = (Inr n, s)"
    using field_len_run[OF n] by (auto simp: ret_def)
  from bnd_InrD[OF 2] obtain x s2 where
    a: "add_node E m ''joint'' (Some ''deform'') oid descr None s1 = (Inr x, s2)"
    and 3: "bnd (if \<not> truthy parent then field_get ObjectField (node_name m) ''parent_joint''
          else ret parent) (\<lambda>parent'.
     bnd (if \<not> truthy parent' then rig_field m ''skeleton_group'' else ret parent') (\<lambda>parent''.
     seq (parent_under x parent'')
     (seq (reset_channels x [''translate'', ''rotate'', ''scale'', ''jointOrient''])
     (seq (field_append (node_name m) ''deform_joints'' x)
          (ret x))))) s2 = (Inr j, s')"
    by blast
  have x: "x = name_from_metadata E
                 \<lparr>base_name = bn, side = sd, role = ''deform'', description = descr,
                    ident = Some (int n)\<rparr>"
    using add_node_name[OF a[unfolded s1] nm sd]
    by (simp add: oid effective_role_def falsy_str_def)
  from 3 have "j = x"
    by (auto dest!: bnd_InrD seq_InrD ret_InrD)
  with x n' show ?thesis by blast
qed

lemma placement_locator_name:
  assumes run: "add_placement_locator E m descr None parent s = (Inr l, s')"
    and nm: "name_get m s = (Inr bn, s)" and sd: "side_get m s = (Inr sd, s)"
  shows "l = name_from_metadata E
                 \<lparr>base_name = bn, side = sd, role = ''placement'', description = descr,
                    ident = None\<rparr>"
proof -
  from bnd_InrD[OF run[unfolded add_placement_locator_def]] obtain x s2 where
    a: "add_node E m ''locator'' (Some ''placement'') None descr None s = (Inr x, s2)"
    and 3: "bnd (if \<not> truthy parent then field_get ObjectField (node_name m) ''placement_group''
          else ret parent) (\<lambda>parent'.
     seq (parent_under x parent')
     (seq (reset_channels x [''translate'', ''rotate'', ''scale''])
     (seq (field_append (node_name m) ''placement_locators'' x)
          (ret x)))) s2 = (Inr l, s')"
    by blast
  have x: "x = name_from_metadata E
                 \<lparr>base_name = bn, side = sd, role = ''placement'', description = descr,
                    ident = None\<rparr>"
    using add_node_name[OF a nm sd] by (simp add: effective_role_def falsy_str_def)
  from 3 have "l = x"
    by (auto dest!: bnd_InrD seq_InrD ret_InrD)
  with x show ?thesis by simp
qed

text \<open>
  For a module with a name and a side: when \<open>_add_deform_joint\<close> is called without an
  \<open>object_id\<close> and returns, the name it returns is the one encoded with the role \<open>deform\<close>
  and the id \<open>len(deform_joints)\<close> read at the call, and a node has that name. When
  \<open>_add_placement_locator\<close> is called without an \<open>object_id\<close> and returns, the name it
  returns is the one encoded with the role \<open>placement\<close> and no id, and a node has that name.
\<close>

lemma default_object_id:
  assumes nm: "name_get m s = (Inr bn, s)" and sd: "side_get m s = (Inr sd, s)"
  shows "(add_deform_joint E m parent None descr s = (Inr j, s') \<longrightarrow>
            (\<exists>n. field_len (node_name m) ''deform_joints'' s = (Inr n, s) \<and>
               j = name_from_metadata E
                     \<lparr>base_name = bn, side = sd, role = ''deform'', description = descr,
                        ident = Some (int n)\<rparr>) \<and>
            node_by_name s' j \<noteq> None)
       \<and> (add_placement_locator E m descr' None parent' s = (Inr l, s'') \<longrightarrow>
            l = name_from_metadata E
                  \<lparr>base_name = bn, side = sd, role = ''placement'', description = descr',
                     ident = None\<rparr> \<and>
            node_by_name s'' l \<noteq> None)"
proof (intro conjI impI)
  assume run: "add_deform_joint E m parent None descr s = (Inr j, s')"
  show "\<exists>n. field_len (node_name m) ''deform_joints'' s = (Inr n, s) \<and>
               j = name_from_metadata E
                     \<lparr>base_name = bn, side = sd, role = ''deform'', description = descr,
                        ident = Some (int n)\<rparr>"
    by (rule deform_joint_name[OF run nm sd])
  show "node_by_name s' j \<noteq> None"
    using hoare_InrD[OF hoare_add_deform_joint_named run] by (auto simp: named_def resolve_def)
next
  assume run: "add_placement_locator E m descr' None parent' s = (Inr l, s'')"
  show "l = name_from_metadata E
                  \<lparr>base_name = bn, side = sd, role = ''placement'', description = descr',
                     ident = None\<rparr>"
    by (rule placement_locator_name[OF run nm sd])
  show "node_by_name s'' l \<noteq> None"
    using hoare_InrD[OF hoare_add_placement_locator_named run] by (auto simp: named_def resolve_def)
qed

lemma default_object_id_example:
  "add_deform_joint sample_env arm PNone None None (scene1 ''arm'' ''L'' False)
     = (Inr ''arm_L_1_deform'',
        snd (add_deform_joint sample_env arm PNone None None (scene1 ''arm'' ''L'' False)))
   \<and> field_len (node_name arm) ''deform_joints'' (scene1 ''arm'' ''L'' False)
     = (Inr 1, scene1 ''arm'' ''L'' False)
   \<and> add_placement_locator sample_env arm None None PNone (scene1 ''arm'' ''L'' False)
     = (Inr ''arm_L_placement'',
        snd (add_placement_locator sample_env arm None None PNone (scene1 ''arm'' ''L'' False)))"
proof -
  let ?s = "scene1 ''arm'' ''L'' False"
  have nm: "name_get arm ?s = (Inr ''arm'', ?s)" by code_simp
  have sd: "side_get arm ?s = (Inr ''L'', ?s)" by code_simp
  have j: "fst (add_deform_joint sample_env arm PNone None None ?s) = Inr ''arm_L_1_deform''"
    by code_simp
  have l: "fst (add_placement_locator sample_env arm None None PNone ?s) = Inr ''arm_L_placement''"
    by code_simp
  have n: "field_len (node_name arm) ''deform_joints'' ?s = (Inr 1, ?s)" by code_simp
  from j have j': "add_deform_joint sample_env arm PNone None None ?s =
      (Inr ''arm_L_1_deform'', snd (add_deform_joint sample_env arm PNone None None ?s))"
    by (metis prod.collapse)
  from l have l': "add_placement_locator sample_env arm None None PNone ?s =
      (Inr ''arm_L_placement'', snd (add_placement_locator sample_env arm None None PNone ?s))"
    by (metis prod.collapse)
  show ?thesis
    using default_object_id [OF nm sd, of sample_env PNone None "''arm_L_1_deform''"
        "snd (add_deform_joint sample_env arm PNone None None ?s)" None PNone "''arm_L_placement''"
        "snd (add_placement_locator sample_env arm None None PNone ?s)"]
      j' l' n
    by blast
qed

text \<open>
  Claim C7. \<open>_add_placement_locator\<close> has no default for \<open>object_id\<close>, where
  \<open>_add_deform_joint\<close> has one. The module \<open>arm_L_mod\<close> has one deform joint and no
  placement locator. Two joints created without an \<open>object_id\<close> get the ids 1 and 2, the
  length of \<open>deform_joints\<close> at each call. The first locator created without an \<open>object_id\<close>
  gets a name that carries no id, where the id 0, the length of \<open>placement_locators\<close>, gives
  another name; the second such call encodes the same name again and ends with the
  \<open>ValueError\<close> of \<open>add_node\<close>, and \<open>placement_locators\<close> still has length 1.
\<close>

theorem default_locator_ids_collide:
  "field_len (node_name arm) ''deform_joints'' (scene1 ''arm'' ''L'' False)
     = (Inr 1, scene1 ''arm'' ''L'' False)
   \<and> fst (add_deform_joint sample_env arm PNone None None (scene1 ''arm'' ''L'' False))
     = Inr ''arm_L_1_deform''
   \<and> fst (add_deform_joint sample_env arm PNone None None
        (snd (add_deform_joint sample_env arm PNone None None (scene1 ''arm'' ''L'' False))))
     = Inr ''arm_L_2_deform''
   \<and> field_len (node_name arm) ''placement_locators'' (scene1 ''arm'' ''L'' False)
     = (Inr 0, scene1 ''arm'' ''L'' False)
   \<and> fst (add_placement_locator sample_env arm None None PNone (scene1 ''arm'' ''L'' False))
     = Inr ''arm_L_placement''
   \<and> map_option ident (metadata_from_name sample_env ''arm_L_placement'') = Some None
   \<and> name_from_metadata sample_env
        \<lparr>base_name = ''arm'', side = ''L'', role = ''placement'', description = None, ident = Some 0\<rparr>
     = ''arm_L_0_placement''
   \<and> fst (add_placement_locator sample_env arm None None PNone
        (snd (add_placement_locator sample_env arm None None PNone (scene1 ''arm'' ''L'' False))))
     = Inl (ValueError ''arm_L_placement'')
   \<and> fst (field_len (node_name arm) ''placement_locators''
        (snd (add_placement_locator sample_env arm None None PNone
          (snd (add_placement_locator sample_env arm None None PNone (scene1 ''arm'' ''L'' False))))))
     = Inr 1"
  by code_simp

subsection \<open>Constructing a module on a node that exists\<close>

text \<open>
  Claim C8, as amended. When a node of the given name exists and its \<open>is_initialized\<close>
  reads as true, the constructor attaches to it: the object it returns has that node as its
  backing node, and the scene is as before, so that no node is created and no field is
  written.
\<close>

theorem init_attaches:
  assumes "fst (field_get BoolField name ''is_initialized'' s) = Inr v" and "truthy v"
  shows "init E cls name sd parent_joint rg s =
           (Inr \<lparr>node_name = name, rig = rg, class_name = cls\<rparr>, s)"
proof -
  from assms(1) have ex: "node_by_name s name \<noteq> None"
    by (auto simp: field_get_def split: option.splits)
  have fg: "field_get BoolField name ''is_initialized'' s = (Inr v, s)"
    using assms(1) field_get_state[of BoolField name "''is_initialized''" s]
    by (cases "field_get BoolField name ''is_initialized'' s") simp
  have e: "objExists name s = (Inr True, s)" using ex by (simp add: objExists_def)
  have mi: "MopNode_init name s = (Inr (), s)"
    by (simp add: MopNode_init_def bnd_def e ret_def)
  show ?thesis
    unfolding init_def
    by (simp add: bnd_run[of "objExists name"] e Let_def seq_def bnd_run[of "MopNode_init name"] mi
          bnd_run[of "field_get BoolField name ''is_initialized''"] fg assms(2) ret_def)
qed


theorem init_attaches_witness:
  "init sample_env ''RigModule'' ''arm_L_mod'' ''M'' PNone (Some ''rig'') (scene1 ''arm'' ''L'' False) =
     (Inr arm, scene1 ''arm'' ''L'' False)"
proof -
  have h: "fst (field_get BoolField ''arm_L_mod'' ''is_initialized'' (scene1 ''arm'' ''L'' False)) =
             Inr (PBool True)"
    by code_simp
  show ?thesis
    using init_attaches [OF h, of sample_env "''RigModule''" "''M''" PNone "Some ''rig''"]
    by (simp add: truthy_def arm_def)
qed

text \<open>
  The guard is \<open>is_initialized\<close>, not the existence of the node. In the scene \<open>scene_half\<close>
  the node \<open>arm_L_mod\<close> exists, with the name \<open>arm\<close> and the side \<open>L\<close>, and is not
  initialised: the constructor, called on it with the default side, writes \<open>name\<close> and
  \<open>side\<close> over and creates three nodes, the groups.
\<close>

theorem init_uninitialized_counterexample:
  "node_by_name scene_half ''arm_L_mod'' \<noteq> None
   \<and> fst (field_get StringField ''arm_L_mod'' ''name'' scene_half) = Inr (PStr ''arm'')
   \<and> fst (field_get EnumField ''arm_L_mod'' ''side'' scene_half) = Inr (PStr ''L'')
   \<and> length (nodes scene_half) = 4
   \<and> length (nodes (snd (init sample_env ''RigModule'' ''arm_L_mod'' ''M'' PNone (Some ''rig'') scene_half))) = 7
   \<and> map_option (\<lambda>b. (attr_value b ''name'', attr_value b ''side''))
        (node_by_id (snd (init sample_env ''RigModule'' ''arm_L_mod'' ''M'' PNone (Some ''rig'') scene_half)) 3)
      = Some (AStr ''arm_L_mod'', AStr ''M'')"
  by code_simp

subsection \<open>Taking a field from the mirror module\<close>

lemma mirror_value_state:
  assumes "the_mirror E m s = (Inr mm, s)"
  shows "snd (mirror_value E m fd s) = s"
  using assms
  by (cases "fkind fd")
     (auto simp: mirror_value_def bnd_def field_get_def split: option.splits)

lemma falsy_cases: "(\<not> truthy v) = (v = PNone \<or> v = PBool False \<or> v = PStr [] \<or> v = PList [])"
  by (cases v) (auto simp: truthy_def)

text \<open>
  Claim C10. In the loop of \<open>update_mirror\<close> over the fields, with a mirror module that is
  initialised (reading \<open>self.module_mirror\<close> leaves the scene as it is): when the value taken
  from the mirror module for a field, after \<open>find_mirror_node\<close> for an object or a list of
  objects, is \<open>None\<close>, \<open>False\<close>, the empty string or the empty list, the step for that
  field writes nothing: the scene, and with it the field of \<open>self\<close>, is unchanged.
\<close>

theorem sync_field_falsy:
  assumes mm: "the_mirror E m s = (Inr mm, s)"
    and v: "fst (mirror_value E m fd s) = Inr v"
    and falsy: "v = PNone \<or> v = PBool False \<or> v = PStr [] \<or> v = PList []"
  shows "sync_field E m fd s = (Inr (), s)"
proof -
  have mv: "mirror_value E m fd s = (Inr v, s)"
    using v mirror_value_state[OF mm, of fd] by (cases "mirror_value E m fd s") simp
  have "\<not> truthy v" using falsy by (simp add: falsy_cases)
  then show ?thesis
    by (simp add: sync_field_def bnd_def mv ret_def)
qed

theorem sync_field_falsy_witness:
  "sync_field sample_env arm \<lparr>fname = ''mirror_type'', fkind = EnumField, editable = True\<rparr>
     (scene2 ''Orientation'') = (Inr (), scene2 ''Orientation'')
   \<and> fst (field_get EnumField ''arm_L_mod'' ''mirror_type'' (scene2 ''Orientation''))
       = Inr (PStr ''Orientation'')"
proof -
  let ?s = "scene2 ''Orientation''"
  let ?fd = "\<lparr>fname = ''mirror_type'', fkind = EnumField, editable = True\<rparr>"
  have mm: "the_mirror sample_env arm ?s =
      (Inr \<lparr>node_name = ''arm_R_mod'', rig = Some ''rig'', class_name = ''RigModule''\<rparr>, ?s)"
    by code_simp
  have v: "fst (mirror_value sample_env arm ?fd ?s) = Inr PNone" by code_simp
  have g: "fst (field_get EnumField ''arm_L_mod'' ''mirror_type'' ?s) = Inr (PStr ''Orientation'')"
    by code_simp
  show ?thesis using sync_field_falsy [OF mm v] g by simp
qed

subsection \<open>Angles and rotations\<close>

lemma cosd_degrees [simp]: "cosd (degrees x) = cos x"
  by (simp add: cosd_def degrees_def)

lemma sind_degrees [simp]: "sind (degrees x) = sin x"
  by (simp add: sind_def degrees_def)

lemma cos_atan2_pos:
  assumes "0 < x"
  shows "cos (arctan (y / x)) = x / sqrt (x\<^sup>2 + y\<^sup>2)" "sin (arctan (y / x)) = y / sqrt (x\<^sup>2 + y\<^sup>2)"
proof -
  have "1 + (y / x)\<^sup>2 = (x\<^sup>2 + y\<^sup>2) / x\<^sup>2"
    using assms by (simp add: field_simps power2_eq_square)
  then have s: "sqrt (1 + (y / x)\<^sup>2) = sqrt (x\<^sup>2 + y\<^sup>2) / x"
    using assms by (simp add: real_sqrt_divide)
  show "cos (arctan (y / x)) = x / sqrt (x\<^sup>2 + y\<^sup>2)"
    by (simp add: cos_arctan s)
  show "sin (arctan (y / x)) = y / sqrt (x\<^sup>2 + y\<^sup>2)"
    using assms by (simp add: sin_arctan s)
qed

lemma cos_atan2_neg:
  assumes "x < 0"
  shows "cos (arctan (y / x)) = - x / sqrt (x\<^sup>2 + y\<^sup>2)" "sin (arctan (y / x)) = - y / sqrt (x\<^sup>2 + y\<^sup>2)"
proof -
  have e: "y / x = (- y) / (- x)" by simp
  have p: "0 < - x" using assms by simp
  have q: "(- x)\<^sup>2 + (- y)\<^sup>2 = x\<^sup>2 + y\<^sup>2" by simp
  show "cos (arctan (y / x)) = - x / sqrt (x\<^sup>2 + y\<^sup>2)"
    unfolding e using cos_atan2_pos(1)[OF p, of "- y"] unfolding q by simp
  show "sin (arctan (y / x)) = - y / sqrt (x\<^sup>2 + y\<^sup>2)"
    unfolding e using cos_atan2_pos(2)[OF p, of "- y"] unfolding q by simp
qed

lemma atan2_polar:
  assumes "x \<noteq> 0 \<or> y \<noteq> 0"
  shows "cos (atan2 y x) = x / sqrt (x\<^sup>2 + y\<^sup>2)" "sin (atan2 y x) = y / sqrt (x\<^sup>2 + y\<^sup>2)"
proof -
  consider "0 < x" | "x < 0" | "x = 0" "0 < y" | "x = 0" "y < 0"
    using assms by linarith
  then have "cos (atan2 y x) = x / sqrt (x\<^sup>2 + y\<^sup>2) \<and> sin (atan2 y x) = y / sqrt (x\<^sup>2 + y\<^sup>2)"
  proof cases
    case 1
    then show ?thesis by (simp add: atan2_def cos_atan2_pos)
  next
    case 2
    then show ?thesis by (simp add: atan2_def cos_atan2_neg)
  next
    case 3
    then show ?thesis by (simp add: atan2_def)
  next
    case 4
    then show ?thesis by (simp add: atan2_def)
  qed
  then show "cos (atan2 y x) = x / sqrt (x\<^sup>2 + y\<^sup>2)" "sin (atan2 y x) = y / sqrt (x\<^sup>2 + y\<^sup>2)"
    by simp_all
qed

lemma atan2d_unit:
  assumes "x\<^sup>2 + y\<^sup>2 = q\<^sup>2" and "0 < q"
  shows "cosd (atan2d y x) = x / q" "sind (atan2d y x) = y / q"
proof -
  have "x \<noteq> 0 \<or> y \<noteq> 0" using assms by auto
  moreover have "sqrt (x\<^sup>2 + y\<^sup>2) = q" using assms by simp
  ultimately show "cosd (atan2d y x) = x / q" "sind (atan2d y x) = y / q"
    using atan2_polar[of x y] by (simp_all add: atan2d_def)
qed

lemma asind_unit:
  assumes "- 1 \<le> v" and "v \<le> 1"
  shows "sind (asind v) = v" "cosd (asind v) = sqrt (1 - v\<^sup>2)"
  using assms by (simp_all add: asind_def cos_arcsin)


lemma rotation_facts:
  fixes r00 :: real
  assumes "rotation ((r00, r01, r02), (r10, r11, r12), (r20, r21, r22))"
  shows "r00\<^sup>2 + r01\<^sup>2 + r02\<^sup>2 = 1"
    and "r02\<^sup>2 + r12\<^sup>2 + r22\<^sup>2 = 1"
    and "r01\<^sup>2 + r11\<^sup>2 + r21\<^sup>2 = 1"
    and "r10 = r02 * r21 - r01 * r22"
    and "r11 = r00 * r22 - r02 * r20"
    and "r20 = r01 * r12 - r02 * r11"
    and "r21 = r02 * r10 - r00 * r12"
proof -
  from assms have h:
    "r00 * r00 + r01 * r01 + r02 * r02 = 1" "r10 * r10 + r11 * r11 + r12 * r12 = 1"
    "r20 * r20 + r21 * r21 + r22 * r22 = 1" "r00 * r10 + r01 * r11 + r02 * r12 = 0"
    "r00 * r20 + r01 * r21 + r02 * r22 = 0" "r10 * r20 + r11 * r21 + r12 * r22 = 0"
    "r00 * (r11 * r22 - r12 * r21) - r01 * (r10 * r22 - r12 * r20) + r02 * (r10 * r21 - r11 * r20) = 1"
    by (simp_all add: rotation_def dot3_def det3_def)
  show "r00\<^sup>2 + r01\<^sup>2 + r02\<^sup>2 = 1" using h(1) by (simp add: power2_eq_square)
  show "r10 = r02 * r21 - r01 * r22" using h by algebra
  show "r11 = r00 * r22 - r02 * r20" using h by algebra
  show "r20 = r01 * r12 - r02 * r11" using h by algebra
  show "r21 = r02 * r10 - r00 * r12" using h by algebra
  show "r02\<^sup>2 + r12\<^sup>2 + r22\<^sup>2 = 1" using h by algebra
  show "r01\<^sup>2 + r11\<^sup>2 + r21\<^sup>2 = 1" using h by algebra
qed


lemma cosd_0 [simp]: "cosd 0 = 1" by (simp add: cosd_def)
lemma sind_0 [simp]: "sind 0 = 0" by (simp add: sind_def)

lemma euler_angles_gimbal:
  fixes r00 :: real
  assumes rot: "rotation ((r00, r01, r02), (r10, r11, r12), (r20, r21, r22))"
    and z: "r00 = 0" "r01 = 0"
  shows "euler_matrix (euler_angles ((r00, r01, r02), (r10, r11, r12), (r20, r21, r22))) =
           ((r00, r01, r02), (r10, r11, r12), (r20, r21, r22))"
proof -
  note f = rotation_facts[OF rot]
  have r02: "r02\<^sup>2 = 1" using f(1) z by simp
  then have b: "- 1 \<le> - r02" "- r02 \<le> 1"
    by (auto simp: power2_eq_1_iff)
  have "r12\<^sup>2 + r22\<^sup>2 = 0" using f(2) r02 by simp
  then have r12: "r12 = 0" and r22: "r22 = 0" by (simp_all add: sum_power2_eq_zero_iff)
  have u: "r11\<^sup>2 + (- r21)\<^sup>2 = 1\<^sup>2" using f(3) z by simp
  have ca: "cosd (atan2d (- r21) r11) = r11" and sa: "sind (atan2d (- r21) r11) = - r21"
    using atan2d_unit[OF u] by simp_all
  have sb: "sind (asind (- r02)) = - r02" and cb: "cosd (asind (- r02)) = 0"
    using asind_unit[OF b] r02 by simp_all
  have r10: "r10 = r02 * r21" using f(4) z by simp
  have r20: "r20 = - (r02 * r11)" using f(6) z by simp
  show ?thesis
    by (simp add: euler_angles_def euler_matrix_def z ca sa sb cb r12 r22 r10 r20 Let_def)
qed

lemma euler_angles_regular:
  fixes r00 :: real
  assumes rot: "rotation ((r00, r01, r02), (r10, r11, r12), (r20, r21, r22))"
    and nz: "\<not> (r00 = 0 \<and> r01 = 0)"
  shows "euler_matrix (euler_angles ((r00, r01, r02), (r10, r11, r12), (r20, r21, r22))) =
           ((r00, r01, r02), (r10, r11, r12), (r20, r21, r22))"
proof -
  note f = rotation_facts[OF rot]
  define q where "q = sqrt (1 - r02\<^sup>2)"
  have q2a: "r00\<^sup>2 + r01\<^sup>2 = 1 - r02\<^sup>2" using f(1) by simp
  have pos: "0 < r00\<^sup>2 + r01\<^sup>2" using nz by (auto simp: sum_power2_gt_zero_iff)
  then have q: "0 < q" by (simp add: q_def q2a)
  have qq: "q\<^sup>2 = 1 - r02\<^sup>2" using pos q2a by (simp add: q_def)
  have le: "r02\<^sup>2 \<le> 1" using pos q2a by simp
  then have "\<bar>r02\<bar> \<le> 1" using abs_le_square_iff[of r02 1] by simp
  then have b: "- 1 \<le> - r02" "- r02 \<le> 1" by simp_all
  have u: "r00\<^sup>2 + r01\<^sup>2 = q\<^sup>2" using q2a qq by simp
  have v: "r22\<^sup>2 + r12\<^sup>2 = q\<^sup>2" using f(2) qq by simp
  have cc: "cosd (atan2d r01 r00) = r00 / q" and sc: "sind (atan2d r01 r00) = r01 / q"
    using atan2d_unit[OF u q] by simp_all
  have ca: "cosd (atan2d r12 r22) = r22 / q" and sa: "sind (atan2d r12 r22) = r12 / q"
    using atan2d_unit[OF v q] by simp_all
  have sb: "sind (asind (- r02)) = - r02" and cb: "cosd (asind (- r02)) = q"
    using asind_unit[OF b] by (simp_all add: q_def)
  have qn: "q \<noteq> 0" using q by simp
  have e10: "- (r12 * r02 * r00 / (q * q)) - r22 * r01 / (q * q) = r10"
  proof -
    have "r10 * q\<^sup>2 = - (r12 * r02 * r00) - r22 * r01"
      unfolding qq using f by algebra
    then show ?thesis using qn by (simp add: field_simps power2_eq_square)
  qed
  have e11: "r22 * r00 / (q * q) - r12 * r02 * r01 / (q * q) = r11"
  proof -
    have "r11 * q\<^sup>2 = - (r12 * r02 * r01) + r22 * r00"
      unfolding qq using f by algebra
    then show ?thesis using qn by (simp add: field_simps power2_eq_square)
  qed
  have e20: "r12 * r01 / (q * q) - r22 * r02 * r00 / (q * q) = r20"
  proof -
    have "r20 * q\<^sup>2 = - (r22 * r02 * r00) + r12 * r01"
      unfolding qq using f by algebra
    then show ?thesis using qn by (simp add: field_simps power2_eq_square)
  qed
  have e21: "- (r22 * r02 * r01 / (q * q)) - r12 * r00 / (q * q) = r21"
  proof -
    have "r21 * q\<^sup>2 = - (r22 * r02 * r01) - r12 * r00"
      unfolding qq using f by algebra
    then show ?thesis using qn by (simp add: field_simps power2_eq_square)
  qed
  show ?thesis
    using nz qn
    by (simp add: euler_angles_def euler_matrix_def ca sa sb cb cc sc Let_def e10 e11 e20 e21)
qed

lemma euler_angles_correct:
  assumes "rotation m"
  shows "euler_matrix (euler_angles m) = m"
proof -
  obtain u v w where m: "m = (u, v, w)" by (cases m)
  obtain r00 r01 r02 where u: "u = (r00, r01, r02)" by (cases u)
  obtain r10 r11 r12 where v: "v = (r10, r11, r12)" by (cases v)
  obtain r20 r21 r22 where w: "w = (r20, r21, r22)" by (cases w)
  show ?thesis
    using assms euler_angles_gimbal[of r00 r01 r02 r10 r11 r12 r20 r21 r22]
      euler_angles_regular[of r00 r01 r02 r10 r11 r12 r20 r21 r22]
    unfolding m u v w by blast
qed


lemma cosd_sind: "(cosd x)\<^sup>2 + (sind x)\<^sup>2 = 1" "(sind x)\<^sup>2 + (cosd x)\<^sup>2 = 1"
  by (simp_all add: cosd_def sind_def)

lemma rotation_euler_matrix: "rotation (euler_matrix r)"
proof -
  obtain x y z where r: "r = (x, y, z)" by (cases r rule: prod_cases3)
  define ca sa cb sb cc sc where "ca = cosd x" and "sa = sind x" and "cb = cosd y"
    and "sb = sind y" and "cc = cosd z" and "sc = sind z"
  have a: "ca * ca + sa * sa = 1" and b: "cb * cb + sb * sb = 1" and c: "cc * cc + sc * sc = 1"
    using cosd_sind(1)[of x] cosd_sind(1)[of y] cosd_sind(1)[of z]
    by (simp_all add: ca_def sa_def cb_def sb_def cc_def sc_def power2_eq_square)
  have m: "euler_matrix r =
      ((cb * cc, cb * sc, - sb),
       (sa * sb * cc - ca * sc, sa * sb * sc + ca * cc, sa * cb),
       (ca * sb * cc + sa * sc, ca * sb * sc - sa * cc, ca * cb))"
    by (simp add: euler_matrix_def r Let_def ca_def sa_def cb_def sb_def cc_def sc_def)
  have 1: "cb * cc * (cb * cc) + cb * sc * (cb * sc) + - sb * - sb = 1"
    using a b c by algebra
  have 2: "(sa * sb * cc - ca * sc) * (sa * sb * cc - ca * sc)
         + (sa * sb * sc + ca * cc) * (sa * sb * sc + ca * cc) + sa * cb * (sa * cb) = 1"
    using a b c by algebra
  have 3: "(ca * sb * cc + sa * sc) * (ca * sb * cc + sa * sc)
         + (ca * sb * sc - sa * cc) * (ca * sb * sc - sa * cc) + ca * cb * (ca * cb) = 1"
    using a b c by algebra
  have 4: "cb * cc * (sa * sb * cc - ca * sc) + cb * sc * (sa * sb * sc + ca * cc)
         + - sb * (sa * cb) = 0"
    using a b c by algebra
  have 5: "cb * cc * (ca * sb * cc + sa * sc) + cb * sc * (ca * sb * sc - sa * cc)
         + - sb * (ca * cb) = 0"
    using a b c by algebra
  have 6: "(sa * sb * cc - ca * sc) * (ca * sb * cc + sa * sc)
         + (sa * sb * sc + ca * cc) * (ca * sb * sc - sa * cc) + sa * cb * (ca * cb) = 0"
    using a b c by algebra
  have 7: "cb * cc * ((sa * sb * sc + ca * cc) * (ca * cb) - sa * cb * (ca * sb * sc - sa * cc))
         - cb * sc * ((sa * sb * cc - ca * sc) * (ca * cb) - sa * cb * (ca * sb * cc + sa * sc))
         + - sb * ((sa * sb * cc - ca * sc) * (ca * sb * sc - sa * cc)
                   - (sa * sb * sc + ca * cc) * (ca * sb * cc + sa * sc)) = 1"
    using a b c by algebra
  show ?thesis
    unfolding m rotation_def dot3_def det3_def prod.case
    using 1 2 3 4 5 6 7 by blast
qed

lemma rotation_mirrored:
  assumes "rotation m"
  shows "rotation (mirrored m)"
proof -
  obtain u v w where m: "m = (u, v, w)" by (cases m)
  obtain a0 a1 a2 where u: "u = (a0, a1, a2)" by (cases u)
  obtain b0 b1 b2 where v: "v = (b0, b1, b2)" by (cases v)
  obtain c0 c1 c2 where w: "w = (c0, c1, c2)" by (cases w)
  from assms show ?thesis
    unfolding m u v w by (simp add: rotation_def mirrored_def dot3_def det3_def algebra_simps)
qed

lemma norm3_scaled:
  assumes "dot3 (a, b, c) (a, b, c) = 1"
  shows "norm3 (k * a, k * b, k * c) = \<bar>k\<bar>"
proof -
  have "k * a * (k * a) + k * b * (k * b) + k * c * (k * c) = k\<^sup>2 * (a * a + b * b + c * c)"
    by (simp add: algebra_simps power2_eq_square)
  also have "\<dots> = k\<^sup>2" using assms by (simp add: dot3_def)
  finally show ?thesis by (simp add: norm3_def)
qed

lemma det3_scaled:
  "det3 ((k0 * a0, k0 * a1, k0 * a2), (k1 * b0, k1 * b1, k1 * b2), (k2 * c0, k2 * c1, k2 * c2)) =
     k0 * k1 * k2 * det3 ((a0, a1, a2), (b0, b1, b2), (c0, c1, c2))"
  by (simp add: det3_def algebra_simps)

text \<open>The channels of a matrix made of a scale of one sign, a rotation and a translation.\<close>

lemma decompose_scaled:
  assumes rot: "rotation ((a0, a1, a2), (b0, b1, b2), (c0, c1, c2))"
    and k: "(0 < k0 \<and> 0 < k1 \<and> 0 < k2) \<or> (k0 < 0 \<and> k1 < 0 \<and> k2 < 0)"
    and x: "x = ((k0 * a0, k0 * a1, k0 * a2, 0), (k1 * b0, k1 * b1, k1 * b2, 0),
                 (k2 * c0, k2 * c1, k2 * c2, 0), (tx, ty, tz, 1))"
  shows "scale_part x = (k0, k1, k2)"
    and "rotation_part x = ((a0, a1, a2), (b0, b1, b2), (c0, c1, c2))"
    and "position x = (tx, ty, tz)"
proof -
  from rot have n: "dot3 (a0, a1, a2) (a0, a1, a2) = 1" "dot3 (b0, b1, b2) (b0, b1, b2) = 1"
    "dot3 (c0, c1, c2) (c0, c1, c2) = 1" and d: "det3 ((a0, a1, a2), (b0, b1, b2), (c0, c1, c2)) = 1"
    by (simp_all add: rotation_def)
  have l: "linear_part x = ((k0 * a0, k0 * a1, k0 * a2), (k1 * b0, k1 * b1, k1 * b2),
                            (k2 * c0, k2 * c1, k2 * c2))"
    by (simp add: x linear_part_def)
  have dt: "det3 (linear_part x) = k0 * k1 * k2" by (simp add: l det3_scaled d)
  show s: "scale_part x = (k0, k1, k2)"
  proof (rule disjE[OF k])
    assume p: "0 < k0 \<and> 0 < k1 \<and> 0 < k2"
    then have "0 < k0 * k1 * k2" by simp
    then have "\<not> det3 (linear_part x) < 0" using dt by simp
    then show ?thesis
      unfolding scale_part_def l[symmetric]
      using p by (simp add: l norm3_scaled[OF n(1)] norm3_scaled[OF n(2)] norm3_scaled[OF n(3)])
  next
    assume p: "k0 < 0 \<and> k1 < 0 \<and> k2 < 0"
    then have "0 < k0 * k1" by (simp add: mult_neg_neg)
    with p have "k0 * k1 * k2 < 0" by (simp add: mult_pos_neg)
    then have "det3 (linear_part x) < 0" using dt by simp
    then show ?thesis
      unfolding scale_part_def l[symmetric]
      using p by (simp add: l norm3_scaled[OF n(1)] norm3_scaled[OF n(2)] norm3_scaled[OF n(3)])
  qed
  have nz: "k0 \<noteq> 0" "k1 \<noteq> 0" "k2 \<noteq> 0" using k by auto
  show "rotation_part x = ((a0, a1, a2), (b0, b1, b2), (c0, c1, c2))"
    by (simp add: rotation_part_def s l div3_def nz)
  show "position x = (tx, ty, tz)" by (simp add: x position_def)
qed


subsection \<open>Mirroring the nodes\<close>

lemma reflexion_mats:
  "world_reflexion_mat = diag4 (-1) 1 1 1" "local_reflexion_mat = diag4 (-1) (-1) (-1) 1"
  by (simp_all add: world_reflexion_mat_def local_reflexion_mat_def diag4_def)

lemma mat_mul_world:
  "mat_mul ((a0, a1, a2, a3), (b0, b1, b2, b3), (c0, c1, c2, c3), (d0, d1, d2, d3)) world_reflexion_mat =
     ((- a0, a1, a2, a3), (- b0, b1, b2, b3), (- c0, c1, c2, c3), (- d0, d1, d2, d3))"
  by (simp add: mat_mul_def row_mul_def dot4_def col_def world_reflexion_mat_def)

lemma mat_mul_local:
  "mat_mul local_reflexion_mat ((a0, a1, a2, a3), (b0, b1, b2, b3), (c0, c1, c2, c3), (d0, d1, d2, d3)) =
     ((- a0, - a1, - a2, - a3), (- b0, - b1, - b2, - b3), (- c0, - c1, - c2, - c3), (d0, d1, d2, d3))"
  by (simp add: mat_mul_def row_mul_def dot4_def col_def local_reflexion_mat_def)

lemma position_mirrored:
  "position (mat_mul x world_reflexion_mat) = (case position x of (a, b, c) \<Rightarrow> (- a, b, c))"
  by (cases x rule: prod_cases4; cases "fst x" rule: prod_cases4)
     (auto simp: position_def mat_mul_world split: prod.splits)


lemma position_behavior:
  "position (mat_mul (mat_mul local_reflexion_mat x) world_reflexion_mat) =
     (case position x of (a, b, c) \<Rightarrow> (- a, b, c))"
proof -
  obtain r0 r1 r2 r3 where x: "x = (r0, r1, r2, r3)" by (cases x)
  obtain a0 a1 a2 a3 where r0: "r0 = (a0, a1, a2, a3)" by (cases r0)
  obtain b0 b1 b2 b3 where r1: "r1 = (b0, b1, b2, b3)" by (cases r1)
  obtain c0 c1 c2 c3 where r2: "r2 = (c0, c1, c2, c3)" by (cases r2)
  obtain d0 d1 d2 d3 where r3: "r3 = (d0, d1, d2, d3)" by (cases r3)
  show ?thesis by (simp add: x r0 r1 r2 r3 mat_mul_local mat_mul_world position_def)
qed

lemma upd_node_twice:
  assumes "\<And>x. nid (g x) = nid x"
  shows "upd_node i f (upd_node i g s) = upd_node i (\<lambda>x. f (g x)) s"
  by (simp add: upd_node_def o_def assms if_distrib cong: if_cong)


lemma nid_put3 [simp]: "nid (put3 a v nd) = nid nd"
  by (cases v rule: prod_cases3) (simp add: put3_def)

lemma nname_put3 [simp]: "nname (put3 a v nd) = nname nd"
  by (cases v rule: prod_cases3) (simp add: put3_def)

lemma nid_set_scale [simp]: "nid (set_scale nd) = nid nd"
  by (simp add: set_scale_def)

lemma nname_set_scale [simp]: "nname (set_scale nd) = nname nd"
  by (simp add: set_scale_def)

lemma nid_put_matrix [simp]: "nid (put_matrix x nd) = nid nd"
  by (simp add: put_matrix_def)

lemma nname_put_matrix [simp]: "nname (put_matrix x nd) = nname nd"
  by (simp add: put_matrix_def)

lemma channel_put3_same:
  "channel (put3 a (x, y, z) nd) (a @ ''X'') d = (case x of AInt i \<Rightarrow> of_int i | AReal r \<Rightarrow> r | _ \<Rightarrow> d)"
  "channel (put3 a (x, y, z) nd) (a @ ''Y'') d = (case y of AInt i \<Rightarrow> of_int i | AReal r \<Rightarrow> r | _ \<Rightarrow> d)"
  "channel (put3 a (x, y, z) nd) (a @ ''Z'') d = (case z of AInt i \<Rightarrow> of_int i | AReal r \<Rightarrow> r | _ \<Rightarrow> d)"
  by (simp_all add: channel_def put3_def attr_value_set_attr_value attr_value_set_same)

lemma channel_put3_other:
  assumes "a \<noteq> b"
  shows "channel (put3 a v nd) (b @ [c]) d = channel nd (b @ [c]) d"
  using assms
  by (cases v rule: prod_cases3) (simp add: channel_def put3_def attr_value_set_attr_value)

lemma channels_put3_reals: "channels (put3 a (reals v) nd) a d = v"
  by (simp add: channels_def reals_def channel_put3_same)

lemma channels_put3_ints:
  "channels (put3 a (AInt x, AInt y, AInt z) nd) a d = (of_int x, of_int y, of_int z)"
  by (simp add: channels_def channel_put3_same)

lemma channels_put3_other:
  "a \<noteq> b \<Longrightarrow> channels (put3 a v nd) b d = channels nd b d"
  by (simp add: channels_def channel_put3_other)

lemma channel_names: "''translate'' \<noteq> ''rotate''" "''translate'' \<noteq> ''scale''" "''rotate'' \<noteq> ''scale''"
  "''rotate'' \<noteq> ''translate''" "''scale'' \<noteq> ''translate''" "''scale'' \<noteq> ''rotate''"
  by simp_all

text \<open>The channels of a node once a matrix is written, once the scale is forced.\<close>

lemma put_matrix_channels:
  "translate_of (put_matrix x nd) = position x"
  "rotate_of (put_matrix x nd) = euler_angles (rotation_part x)"
  "scale_of (put_matrix x nd) = scale_part x"
  by (simp_all add: put_matrix_def translate_of_def rotate_of_def scale_of_def
        channels_put3_reals channels_put3_other channel_names)

lemma set_scale_channels:
  "translate_of (set_scale nd) = translate_of nd"
  "rotate_of (set_scale nd) = rotate_of nd"
  "scale_of (set_scale nd) = (1, 1, 1)"
  by (simp_all add: set_scale_def translate_of_def rotate_of_def scale_of_def
        channels_put3_ints channels_put3_other channel_names)

lemma put_rotate_channels:
  "translate_of (put3 ''rotate'' (reals r) nd) = translate_of nd"
  "rotate_of (put3 ''rotate'' (reals r) nd) = r"
  "scale_of (put3 ''rotate'' (reals r) nd) = scale_of nd"
  by (simp_all add: translate_of_def rotate_of_def scale_of_def
        channels_put3_reals channels_put3_other channel_names)

lemma setAttr_found:
  "node_by_name s n = Some nd \<Longrightarrow> setAttr n a v s = (Inr (), upd_node (nid nd) (set_attr_value a v) s)"
  by (simp add: setAttr_run)

lemma node_by_name_upd_same:
  assumes "node_by_name s n = Some nd" and "\<And>x. nname (f x) = nname x"
  shows "node_by_name (upd_node (nid nd) f s) n = Some (f nd)"
  by (simp add: node_by_name_upd_node assms)


lemma setAttr3_found:
  assumes "node_by_name s n = Some nd"
  shows "setAttr3 n a v s = (Inr (), upd_node (nid nd) (put3 a v) s)"
proof -
  obtain x y z where v: "v = (x, y, z)" by (cases v rule: prod_cases3)
  let ?x = "set_attr_value (a @ ''X'') x"
  let ?y = "set_attr_value (a @ ''Y'') y"
  let ?z = "set_attr_value (a @ ''Z'') z"
  have 1: "setAttr n (a @ ''X'') x s = (Inr (), upd_node (nid nd) ?x s)"
    by (rule setAttr_found[OF assms])
  have n1: "node_by_name (upd_node (nid nd) ?x s) n = Some (?x nd)"
    by (rule node_by_name_upd_same[OF assms]) simp
  have 2: "setAttr n (a @ ''Y'') y (upd_node (nid nd) ?x s) =
             (Inr (), upd_node (nid nd) (\<lambda>u. ?y (?x u)) s)"
    using setAttr_found[OF n1] by (simp add: upd_node_twice)
  have n2: "node_by_name (upd_node (nid nd) (\<lambda>u. ?y (?x u)) s) n = Some (?y (?x nd))"
    by (rule node_by_name_upd_same[OF assms]) simp
  have 3: "setAttr n (a @ ''Z'') z (upd_node (nid nd) (\<lambda>u. ?y (?x u)) s) =
             (Inr (), upd_node (nid nd) (\<lambda>u. ?z (?y (?x u))) s)"
    using setAttr_found[OF n2] by (simp add: upd_node_twice)
  show ?thesis
    by (simp add: setAttr3_def v seq_def bnd_def 1 2 3 put3_def[abs_def])
qed

lemma setAttr_scale_found:
  assumes "node_by_name s n = Some nd"
  shows "setAttr_scale n 1 1 1 s = (Inr (), upd_node (nid nd) set_scale s)"
  unfolding setAttr_scale_def by (simp add: setAttr3_found[OF assms] set_scale_def[abs_def])

lemma xform_matrix_found:
  assumes "node_by_name s n = Some nd"
  shows "xform_matrix n x s = (Inr (), upd_node (nid nd) (put_matrix x) s)"
proof -
  let ?t = "put3 ''translate'' (reals (position x))"
  let ?r = "put3 ''rotate'' (reals (euler_angles (rotation_part x)))"
  let ?s = "put3 ''scale'' (reals (scale_part x))"
  have 1: "setAttr3 n ''translate'' (reals (position x)) s = (Inr (), upd_node (nid nd) ?t s)"
    by (rule setAttr3_found[OF assms])
  have n1: "node_by_name (upd_node (nid nd) ?t s) n = Some (?t nd)"
    by (rule node_by_name_upd_same[OF assms]) simp
  have 2: "setAttr3 n ''rotate'' (reals (euler_angles (rotation_part x))) (upd_node (nid nd) ?t s) =
             (Inr (), upd_node (nid nd) (\<lambda>u. ?r (?t u)) s)"
    using setAttr3_found[OF n1] by (simp add: upd_node_twice)
  have n2: "node_by_name (upd_node (nid nd) (\<lambda>u. ?r (?t u)) s) n = Some (?r (?t nd))"
    by (rule node_by_name_upd_same[OF assms]) simp
  have 3: "setAttr3 n ''scale'' (reals (scale_part x)) (upd_node (nid nd) (\<lambda>u. ?r (?t u)) s) =
             (Inr (), upd_node (nid nd) (\<lambda>u. ?s (?r (?t u))) s)"
    using setAttr3_found[OF n2] by (simp add: upd_node_twice)
  show ?thesis
    by (simp add: xform_matrix_def seq_def bnd_def 1 2 3 put_matrix_def[abs_def])
qed

lemma getAttr_worldMatrix_found:
  "node_by_name s n = Some nd \<Longrightarrow> getAttr_worldMatrix n s = (Inr (world_matrix nd), s)"
  by (simp add: getAttr_worldMatrix_def bnd_def the_node_def ret_def)

lemma mirror_pair_behavior:
  assumes t: "lower t = ''behavior''"
    and src: "node_by_name s orig_node = Some src" and tgt: "node_by_name s new_node = Some nd"
  shows "mirror_pair (PStr t) orig_node new_node s = (Inr (), upd_node (nid nd) (behave src) s)"
proof -
  let ?m = "mat_mul (mat_mul local_reflexion_mat (world_matrix src)) world_reflexion_mat"
  have 1: "xform_matrix new_node ?m s = (Inr (), upd_node (nid nd) (put_matrix ?m) s)"
    by (rule xform_matrix_found[OF tgt])
  have n1: "node_by_name (upd_node (nid nd) (put_matrix ?m) s) new_node = Some (put_matrix ?m nd)"
    by (rule node_by_name_upd_same[OF tgt]) simp
  have 2: "setAttr_scale new_node 1 1 1 (upd_node (nid nd) (put_matrix ?m) s) =
             (Inr (), upd_node (nid nd) (behave src) s)"
    using setAttr_scale_found[OF n1] by (simp add: upd_node_twice behave_def[abs_def])
  have ne: "''behavior'' \<noteq> ''orientation''" by simp
  show ?thesis
    using ne
    by (simp add: mirror_pair_def lower_of_def bnd_def seq_def ret_def t
          getAttr_worldMatrix_found[OF src] 1 2 Let_def)
qed

lemma distinct_nid_name:
  assumes "distinct (map nid (nodes s))"
    and "node_by_name s x = Some a" and "node_by_name s y = Some b" and "x \<noteq> y"
  shows "nid a \<noteq> nid b"
proof -
  from assms(2,3) have a: "a \<in> set (nodes s)" "nname a = x" and b: "b \<in> set (nodes s)" "nname b = y"
    by (auto simp: node_by_name_def dest: find_SomeD)
  with assms(4) have "a \<noteq> b" by auto
  with a b assms(1) show ?thesis by (auto simp: distinct_map inj_on_def)
qed

lemma node_by_name_upd_other:
  assumes "distinct (map nid (nodes s))" and "node_by_name s n = Some nd" and "x \<noteq> n"
    and "\<And>u. nname (f u) = nname u"
  shows "node_by_name (upd_node (nid nd) f s) x = node_by_name s x"
proof (cases "node_by_name s x")
  case None
  then show ?thesis by (simp add: node_by_name_upd_node assms(4))
next
  case (Some a)
  have "nid a \<noteq> nid nd" by (rule distinct_nid_name[OF assms(1) Some assms(2) assms(3)])
  then show ?thesis by (simp add: node_by_name_upd_node assms(4) Some)
qed

lemma distinct_nid_upd_node:
  "(\<And>u. nid (f u) = nid u) \<Longrightarrow> distinct (map nid (nodes s)) \<Longrightarrow>
   distinct (map nid (nodes (upd_node i f s)))"
  by (simp add: upd_node_def o_def if_distrib cong: if_cong)


lemma mirror_pair_orientation:
  assumes t: "lower t = ''orientation''"
    and wf: "distinct (map nid (nodes s))" and ne: "orig_node \<noteq> new_node"
    and src: "node_by_name s orig_node = Some src" and tgt: "node_by_name s new_node = Some nd"
  shows "mirror_pair (PStr t) orig_node new_node s = (Inr (), upd_node (nid nd) (orient src) s)"
proof -
  let ?m = "mat_mul (world_matrix src) world_reflexion_mat"
  let ?f = "\<lambda>u. set_scale (put_matrix ?m u)"
  have 1: "xform_matrix new_node ?m s = (Inr (), upd_node (nid nd) (put_matrix ?m) s)"
    by (rule xform_matrix_found[OF tgt])
  have n1: "node_by_name (upd_node (nid nd) (put_matrix ?m) s) new_node = Some (put_matrix ?m nd)"
    by (rule node_by_name_upd_same[OF tgt]) simp
  have 2: "setAttr_scale new_node 1 1 1 (upd_node (nid nd) (put_matrix ?m) s) =
             (Inr (), upd_node (nid nd) ?f s)"
    using setAttr_scale_found[OF n1] by (simp add: upd_node_twice)
  have o2: "node_by_name (upd_node (nid nd) ?f s) orig_node = Some src"
    using node_by_name_upd_other[OF wf tgt ne, of ?f] src by simp
  have 3: "xform_query_rotation orig_node (upd_node (nid nd) ?f s) =
             (Inr (rotate_of src), upd_node (nid nd) ?f s)"
    by (simp add: xform_query_rotation_def bnd_def the_node_def ret_def o2)
  have n2: "node_by_name (upd_node (nid nd) ?f s) new_node = Some (?f nd)"
    by (rule node_by_name_upd_same[OF tgt]) simp
  have 4: "xform_rotation new_node (rotate_of src) (upd_node (nid nd) ?f s) =
             (Inr (), upd_node (nid nd) (orient src) s)"
    unfolding xform_rotation_def
    using setAttr3_found[OF n2] by (simp add: upd_node_twice orient_def[abs_def])
  have nb: "''orientation'' \<noteq> ''behavior''" by simp
  show ?thesis
    using nb
    by (simp add: mirror_pair_def lower_of_def bnd_def seq_def ret_def t
          getAttr_worldMatrix_found[OF src] 1 2 3 4 Let_def)
qed

text \<open>The loop over the pairs, for a step that rewrites the target from the source.\<close>

lemma mirror_loop:
  assumes step: "\<And>s a b src nd. distinct (map nid (nodes s)) \<Longrightarrow> a \<noteq> b \<Longrightarrow>
              node_by_name s a = Some src \<Longrightarrow> node_by_name s b = Some nd \<Longrightarrow>
              step a b s = (Inr (), upd_node (nid nd) (F src) s)"
    and F: "\<And>src u. nid (F src u) = nid u" "\<And>src u. nname (F src u) = nname u"
  shows "distinct (map nid (nodes s)) \<Longrightarrow> distinct (map snd ps) \<Longrightarrow>
         set (map fst ps) \<inter> set (map snd ps) = {} \<Longrightarrow>
         (\<forall>x \<in> set (map fst ps) \<union> set (map snd ps). node_by_name s x \<noteq> None) \<Longrightarrow>
         \<exists>s'. for_each ps (\<lambda>(a, b). step a b) s = (Inr (), s')
            \<and> (\<forall>x. x \<notin> set (map snd ps) \<longrightarrow> node_by_name s' x = node_by_name s x)
            \<and> (\<forall>(a, b) \<in> set ps. \<exists>src nd. node_by_name s a = Some src \<and> node_by_name s b = Some nd
                   \<and> node_by_name s' b = Some (F src nd))"
proof (induction ps arbitrary: s)
  case Nil
  then show ?case by (simp add: ret_def)
next
  case (Cons p ps)
  obtain a b where p: "p = (a, b)" by (cases p)
  from Cons.prems(4) p obtain src nd where
    src: "node_by_name s a = Some src" and nd: "node_by_name s b = Some nd" by auto
  let ?s1 = "upd_node (nid nd) (F src) s"
  have ab: "a \<noteq> b" using Cons.prems(3) p by auto
  have run1: "step a b s = (Inr (), ?s1)" by (rule step[OF Cons.prems(1) ab src nd])
  have keep: "x \<noteq> b \<Longrightarrow> node_by_name ?s1 x = node_by_name s x" for x
    by (rule node_by_name_upd_other[OF Cons.prems(1) nd _ F(2)])
  have b1: "node_by_name ?s1 b = Some (F src nd)"
    by (rule node_by_name_upd_same[OF nd F(2)])
  have d1: "distinct (map nid (nodes ?s1))"
    by (rule distinct_nid_upd_node[OF F(1) Cons.prems(1)])
  have bn: "b \<notin> set (map snd ps)" and dps: "distinct (map snd ps)"
    using Cons.prems(2) p by auto
  have bf: "b \<notin> set (map fst ps)" and disj: "set (map fst ps) \<inter> set (map snd ps) = {}"
    using Cons.prems(3) p by auto
  have ex1: "\<forall>x \<in> set (map fst ps) \<union> set (map snd ps). node_by_name ?s1 x \<noteq> None"
  proof
    fix x assume x: "x \<in> set (map fst ps) \<union> set (map snd ps)"
    then have "x \<noteq> b" using bn bf by auto
    then show "node_by_name ?s1 x \<noteq> None" using keep Cons.prems(4) x by auto
  qed
  from Cons.IH[OF d1 dps disj ex1] obtain s' where
    run: "for_each ps (\<lambda>(a, b). step a b) ?s1 = (Inr (), s')"
    and frame: "\<forall>x. x \<notin> set (map snd ps) \<longrightarrow> node_by_name s' x = node_by_name ?s1 x"
    and post: "\<forall>(a', b') \<in> set ps. \<exists>src' nd'. node_by_name ?s1 a' = Some src' \<and>
                 node_by_name ?s1 b' = Some nd' \<and> node_by_name s' b' = Some (F src' nd')"
    by blast
  have total: "for_each (p # ps) (\<lambda>(a, b). step a b) s = (Inr (), s')"
    by (simp add: p seq_def bnd_def run1 run)
  have frame': "\<forall>x. x \<notin> set (map snd (p # ps)) \<longrightarrow> node_by_name s' x = node_by_name s x"
    using frame keep p by auto
  have head: "node_by_name s' b = Some (F src nd)"
    using frame bn b1 by simp
  have tail: "\<forall>(a', b') \<in> set ps. \<exists>src' nd'. node_by_name s a' = Some src' \<and>
                 node_by_name s b' = Some nd' \<and> node_by_name s' b' = Some (F src' nd')"
  proof (clarify)
    fix a' b' assume in_ps: "(a', b') \<in> set ps"
    then have "a' \<in> set (map fst ps)" "b' \<in> set (map snd ps)" by force+
    then have "a' \<noteq> b" "b' \<noteq> b" using bf bn by auto
    with post in_ps keep show "\<exists>src' nd'. node_by_name s a' = Some src' \<and>
                 node_by_name s b' = Some nd' \<and> node_by_name s' b' = Some (F src' nd')"
      by fastforce
  qed
  show ?case
    using total frame' head tail src nd p by auto
qed


lemma elems_names [simp]: "elems (PList (map PStr xs)) = xs"
  by (induction xs) (simp_all add: elems_def List.map_filter_simps)

lemma ref_names_exist:
  assumes "x \<in> set (ref_names s ids)"
  shows "node_by_name s x \<noteq> None"
proof -
  from assms obtain i nd where "node_by_id s i = Some nd" and "nname nd = x"
    by (auto simp: ref_names_def ref_name_def List.map_filter_def)
  then have "nd \<in> set (nodes s)" by (auto simp: node_by_id_def dest: find_SomeD)
  with \<open>nname nd = x\<close> show ?thesis
    by (auto simp: node_by_name_def find_None_iff)
qed

lemma field_get_list_exist:
  assumes "field_get ObjectListField n f s = (Inr v, s')" and "x \<in> set (elems v)"
  shows "node_by_name s x \<noteq> None"
proof -
  from assms(1) obtain nd where nd: "node_by_name s n = Some nd"
    and v: "v = read_field s ObjectListField (attr_value nd f)"
    by (auto simp: field_get_def split: option.splits)
  show ?thesis
  proof (cases "attr_value nd f")
    case (ARefs ids)
    with v assms(2) show ?thesis by (auto dest: ref_names_exist)
  qed (use v assms(2) in \<open>simp_all add: elems_def List.map_filter_simps\<close>)
qed

lemma mirror_nodes_run:
  assumes "the_mirror E m s = (Inr mm, s)"
    and "field_get ObjectListField (node_name mm) ''deform_joints'' s = (Inr oj, s)"
    and "field_get ObjectListField (node_name mm) ''placement_locators'' s = (Inr ol, s)"
    and "field_get ObjectListField (node_name m) ''deform_joints'' s = (Inr nj, s)"
    and "field_get ObjectListField (node_name m) ''placement_locators'' s = (Inr nl, s)"
    and "field_get EnumField (node_name m) ''mirror_type'' s = (Inr mt, s)"
  shows "mirror_nodes E m s =
           for_each (zip (elems oj @ elems ol) (elems nj @ elems nl)) (\<lambda>(a, b). mirror_pair mt a b) s"
  by (simp add: mirror_nodes_def bnd_def assms Let_def)

lemma zip_sides:
  "set (map fst (zip xs ys)) \<subseteq> set xs" "set (map snd (zip xs ys)) \<subseteq> set ys"
  "distinct ys \<Longrightarrow> distinct (map snd (zip xs ys))"
  by (auto simp: map_snd_zip_take dest: set_zip_leftD set_zip_rightD in_set_takeD)

lemma mirror_nodes_loop:
  assumes step: "\<And>s a b src nd. distinct (map nid (nodes s)) \<Longrightarrow> a \<noteq> b \<Longrightarrow>
              node_by_name s a = Some src \<Longrightarrow> node_by_name s b = Some nd \<Longrightarrow>
              mirror_pair mt a b s = (Inr (), upd_node (nid nd) (F src) s)"
    and F: "\<And>src u. nid (F src u) = nid u" "\<And>src u. nname (F src u) = nname u"
    and wf: "distinct (map nid (nodes s))"
    and mm: "the_mirror E m s = (Inr mm, s)"
    and oj: "field_get ObjectListField (node_name mm) ''deform_joints'' s = (Inr oj, s)"
    and ol: "field_get ObjectListField (node_name mm) ''placement_locators'' s = (Inr ol, s)"
    and nj: "field_get ObjectListField (node_name m) ''deform_joints'' s = (Inr nj, s)"
    and nl: "field_get ObjectListField (node_name m) ''placement_locators'' s = (Inr nl, s)"
    and mt: "field_get EnumField (node_name m) ''mirror_type'' s = (Inr mt, s)"
    and dist: "distinct (elems nj @ elems nl)"
    and disj: "set (elems oj @ elems ol) \<inter> set (elems nj @ elems nl) = {}"
  shows "\<exists>s'. mirror_nodes E m s = (Inr (), s')
           \<and> (\<forall>(a, b) \<in> set (zip (elems oj @ elems ol) (elems nj @ elems nl)).
                 \<exists>src nd. node_by_name s a = Some src \<and> node_by_name s b = Some nd
                   \<and> node_by_name s' b = Some (F src nd))"
proof -
  let ?ps = "zip (elems oj @ elems ol) (elems nj @ elems nl)"
  have d: "distinct (map snd ?ps)" by (rule zip_sides(3)[OF dist])
  have i: "set (map fst ?ps) \<inter> set (map snd ?ps) = {}"
    using disj zip_sides(1,2)[of "elems oj @ elems ol" "elems nj @ elems nl"] by blast
  have e: "\<forall>x \<in> set (map fst ?ps) \<union> set (map snd ?ps). node_by_name s x \<noteq> None"
  proof
    fix x assume "x \<in> set (map fst ?ps) \<union> set (map snd ?ps)"
    then have "x \<in> set (elems oj) \<union> set (elems ol) \<union> set (elems nj) \<union> set (elems nl)"
      using zip_sides(1,2)[of "elems oj @ elems ol" "elems nj @ elems nl"] by auto
    then show "node_by_name s x \<noteq> None"
      using field_get_list_exist[OF oj] field_get_list_exist[OF ol]
        field_get_list_exist[OF nj] field_get_list_exist[OF nl] by blast
  qed
  from mirror_loop[where step="mirror_pair mt" and F=F, OF step F wf d i e]
  show ?thesis
    unfolding mirror_nodes_run[OF mm oj ol nj nl mt] by blast
qed


text \<open>The matrices of the two modes, for a source given by its channels.\<close>

lemma reflect_behavior:
  "mat_mul (mat_mul local_reflexion_mat (compose sc rot tr)) world_reflexion_mat =
     compose sc (mirrored rot) (negate_x tr)"
proof -
  obtain sx sy sz where sc: "sc = (sx, sy, sz)" by (cases sc rule: prod_cases3)
  obtain tx ty tz where tr: "tr = (tx, ty, tz)" by (cases tr rule: prod_cases3)
  obtain u v w where rot: "rot = (u, v, w)" by (cases rot rule: prod_cases3)
  obtain a0 a1 a2 where u: "u = (a0, a1, a2)" by (cases u rule: prod_cases3)
  obtain b0 b1 b2 where v: "v = (b0, b1, b2)" by (cases v rule: prod_cases3)
  obtain c0 c1 c2 where w: "w = (c0, c1, c2)" by (cases w rule: prod_cases3)
  show ?thesis
    by (simp add: sc tr rot u v w compose_def mat_mul_local mat_mul_world mirrored_def negate_x_def)
qed

lemma reflect_orientation:
  "mat_mul (compose (sx, sy, sz) rot tr) world_reflexion_mat =
     compose (- sx, - sy, - sz) (mirrored rot) (negate_x tr)"
proof -
  obtain tx ty tz where tr: "tr = (tx, ty, tz)" by (cases tr rule: prod_cases3)
  obtain u v w where rot: "rot = (u, v, w)" by (cases rot rule: prod_cases3)
  obtain a0 a1 a2 where u: "u = (a0, a1, a2)" by (cases u rule: prod_cases3)
  obtain b0 b1 b2 where v: "v = (b0, b1, b2)" by (cases v rule: prod_cases3)
  obtain c0 c1 c2 where w: "w = (c0, c1, c2)" by (cases w rule: prod_cases3)
  show ?thesis
    by (simp add: tr rot u v w compose_def mat_mul_world mirrored_def negate_x_def)
qed

lemma position_compose [simp]: "position (compose sc rot tr) = tr"
  by (cases sc rule: prod_cases3; cases tr rule: prod_cases3; cases rot rule: prod_cases3;
      cases "fst rot" rule: prod_cases3; cases "fst (snd rot)" rule: prod_cases3;
      cases "snd (snd rot)" rule: prod_cases3)
     (simp add: compose_def position_def)

text \<open>
  A matrix made of a scale of one sign, a rotation and a translation has these as its
  channels, and its Euler angles give its rotation back.
\<close>

lemma decompose_compose:
  assumes rot: "rotation rot"
    and k: "(0 < k0 \<and> 0 < k1 \<and> 0 < k2) \<or> (k0 < 0 \<and> k1 < 0 \<and> k2 < 0)"
  shows "scale_part (compose (k0, k1, k2) rot tr) = (k0, k1, k2)"
    and "rotation_part (compose (k0, k1, k2) rot tr) = rot"
    and "euler_matrix (euler_angles (rotation_part (compose (k0, k1, k2) rot tr))) = rot"
proof -
  obtain tx ty tz where tr: "tr = (tx, ty, tz)" by (cases tr rule: prod_cases3)
  obtain u v w where r: "rot = (u, v, w)" by (cases rot rule: prod_cases3)
  obtain a0 a1 a2 where u: "u = (a0, a1, a2)" by (cases u rule: prod_cases3)
  obtain b0 b1 b2 where v: "v = (b0, b1, b2)" by (cases v rule: prod_cases3)
  obtain c0 c1 c2 where w: "w = (c0, c1, c2)" by (cases w rule: prod_cases3)
  have x: "compose (k0, k1, k2) rot tr =
      ((k0 * a0, k0 * a1, k0 * a2, 0), (k1 * b0, k1 * b1, k1 * b2, 0),
       (k2 * c0, k2 * c1, k2 * c2, 0), (tx, ty, tz, 1))"
    by (simp add: compose_def tr r u v w)
  have rot': "rotation ((a0, a1, a2), (b0, b1, b2), (c0, c1, c2))"
    using rot by (simp add: r u v w)
  show 1: "scale_part (compose (k0, k1, k2) rot tr) = (k0, k1, k2)"
    using decompose_scaled(1)[OF rot' k x] .
  show 2: "rotation_part (compose (k0, k1, k2) rot tr) = rot"
    using decompose_scaled(2)[OF rot' k x] by (simp add: r u v w)
  show "euler_matrix (euler_angles (rotation_part (compose (k0, k1, k2) rot tr))) = rot"
    unfolding 2 by (rule euler_angles_correct[OF rot])
qed

lemma world_matrix_put_matrix:
  assumes "rotation rot"
    and "(0 < k0 \<and> 0 < k1 \<and> 0 < k2) \<or> (k0 < 0 \<and> k1 < 0 \<and> k2 < 0)"
  shows "world_matrix (put_matrix (compose (k0, k1, k2) rot tr) nd) = compose (k0, k1, k2) rot tr"
    and "world_matrix (set_scale (put_matrix (compose (k0, k1, k2) rot tr) nd)) = compose (1, 1, 1) rot tr"
  by (simp_all add: world_matrix_def put_matrix_channels set_scale_channels
        decompose_compose(1,2)[OF assms] euler_angles_correct[OF assms(1)])


lemma behave_props:
  "nid (behave src nd) = nid nd" "nname (behave src nd) = nname nd"
  "translate_of (behave src nd) = negate_x (translate_of src)"
  "rotate_of (behave src nd) =
     euler_angles (rotation_part
       (mat_mul (mat_mul local_reflexion_mat (world_matrix src)) world_reflexion_mat))"
  "scale_of (behave src nd) = (1, 1, 1)"
  by (simp_all add: behave_def set_scale_channels put_matrix_channels world_matrix_def
        reflect_behavior)

lemma behave_matrix:
  assumes "positive (scale_of src)"
  shows "world_matrix (put_matrix
           (mat_mul (mat_mul local_reflexion_mat (world_matrix src)) world_reflexion_mat) nd) =
         mat_mul (mat_mul local_reflexion_mat (world_matrix src)) world_reflexion_mat"
    and "world_matrix (behave src nd) =
         mat_mul (mat_mul local_reflexion_mat
           (compose (1, 1, 1) (euler_matrix (rotate_of src)) (translate_of src))) world_reflexion_mat"
proof -
  obtain sx sy sz where s: "scale_of src = (sx, sy, sz)" by (cases "scale_of src" rule: prod_cases3)
  have k: "(0 < sx \<and> 0 < sy \<and> 0 < sz) \<or> (sx < 0 \<and> sy < 0 \<and> sz < 0)"
    using assms by (simp add: positive_def s)
  have rot: "rotation (mirrored (euler_matrix (rotate_of src)))"
    by (rule rotation_mirrored[OF rotation_euler_matrix])
  show "world_matrix (put_matrix
           (mat_mul (mat_mul local_reflexion_mat (world_matrix src)) world_reflexion_mat) nd) =
         mat_mul (mat_mul local_reflexion_mat (world_matrix src)) world_reflexion_mat"
    unfolding world_matrix_def[of src] reflect_behavior s
    by (rule world_matrix_put_matrix(1)[OF rot k])
  show "world_matrix (behave src nd) =
         mat_mul (mat_mul local_reflexion_mat
           (compose (1, 1, 1) (euler_matrix (rotate_of src)) (translate_of src))) world_reflexion_mat"
    unfolding behave_def world_matrix_def[of src] reflect_behavior s
    by (rule world_matrix_put_matrix(2)[OF rot k])
qed

lemma orient_props:
  "nid (orient src nd) = nid nd" "nname (orient src nd) = nname nd"
  "translate_of (orient src nd) = negate_x (translate_of src)"
  "rotate_of (orient src nd) = rotate_of src"
  "scale_of (orient src nd) = (1, 1, 1)"
  "world_matrix (orient src nd) =
     compose (1, 1, 1) (euler_matrix (rotate_of src)) (negate_x (translate_of src))"
proof -
  obtain sx sy sz where s: "scale_of src = (sx, sy, sz)" by (cases "scale_of src" rule: prod_cases3)
  show "nid (orient src nd) = nid nd" "nname (orient src nd) = nname nd"
    by (simp_all add: orient_def)
  show t: "translate_of (orient src nd) = negate_x (translate_of src)"
    by (simp add: orient_def put_rotate_channels set_scale_channels put_matrix_channels
          world_matrix_def s reflect_orientation)
  show r: "rotate_of (orient src nd) = rotate_of src"
    by (simp add: orient_def put_rotate_channels)
  show c: "scale_of (orient src nd) = (1, 1, 1)"
    by (simp add: orient_def put_rotate_channels set_scale_channels)
  show "world_matrix (orient src nd) =
     compose (1, 1, 1) (euler_matrix (rotate_of src)) (negate_x (translate_of src))"
    unfolding world_matrix_def[of "orient src nd"] t r c ..
qed

lemma orient_matrix:
  assumes "positive (scale_of src)"
  shows "world_matrix (put_matrix (mat_mul (world_matrix src) world_reflexion_mat) nd) =
         mat_mul (world_matrix src) world_reflexion_mat"
    and "scale_of (put_matrix (mat_mul (world_matrix src) world_reflexion_mat) nd) =
         (case scale_of src of (x, y, z) \<Rightarrow> (- x, - y, - z))"
proof -
  obtain sx sy sz where s: "scale_of src = (sx, sy, sz)" by (cases "scale_of src" rule: prod_cases3)
  have k: "(0 < - sx \<and> 0 < - sy \<and> 0 < - sz) \<or> (- sx < 0 \<and> - sy < 0 \<and> - sz < 0)"
    using assms by (simp add: positive_def s)
  have rot: "rotation (mirrored (euler_matrix (rotate_of src)))"
    by (rule rotation_mirrored[OF rotation_euler_matrix])
  show "world_matrix (put_matrix (mat_mul (world_matrix src) world_reflexion_mat) nd) =
         mat_mul (world_matrix src) world_reflexion_mat"
    unfolding world_matrix_def[of src] s reflect_orientation
    by (rule world_matrix_put_matrix(1)[OF rot k])
  show "scale_of (put_matrix (mat_mul (world_matrix src) world_reflexion_mat) nd) =
         (case scale_of src of (x, y, z) \<Rightarrow> (- x, - y, - z))"
    unfolding world_matrix_def[of src] s reflect_orientation
    by (simp add: put_matrix_channels decompose_compose(1)[OF rot k])
qed






subsection \<open>Renaming on update\<close>

lemma upd_by_name:
  assumes dn: "distinct (map nname (nodes s))" and di: "distinct (map nid (nodes s))"
    and b: "node_by_name s old = Some b"
  shows "upd_node (nid b) f s = s\<lparr>nodes := map (\<lambda>nd. if nname nd = old then f nd else nd) (nodes s)\<rparr>"
proof -
  from b have bs: "b \<in> set (nodes s)" and bn: "nname b = old"
    by (auto simp: node_by_name_def dest: find_SomeD)
  have "(nid nd = nid b) = (nname nd = old)" if "nd \<in> set (nodes s)" for nd
  proof
    assume "nid nd = nid b"
    with di that bs have "nd = b" by (auto simp: distinct_map inj_on_def)
    then show "nname nd = old" using bn by simp
  next
    assume "nname nd = old"
    with dn that bs bn have "nd = b" by (auto simp: distinct_map inj_on_def)
    then show "nid nd = nid b" by simp
  qed
  then have "map (\<lambda>nd. if nid nd = nid b then f nd else nd) (nodes s) =
             map (\<lambda>nd. if nname nd = old then f nd else nd) (nodes s)"
    by (intro map_cong) auto
  then show ?thesis by (simp add: upd_node_def)
qed

lemma rename_success:
  assumes "rename old new s = (Inr x, s')"
  shows "\<exists>b. node_by_name s old = Some b \<and> x = new
           \<and> (new = old \<or> node_by_name s new = None)
           \<and> s' = upd_node (nid b) (\<lambda>u. u\<lparr>nname := new\<rparr>) s"
  using assms
  by (auto simp: rename_def bnd_def the_node_def split: option.splits if_splits)

lemma find_ren:
  assumes "new = old \<or> new \<notin> nname ` set xs"
  shows "find (\<lambda>nd. nname nd = x) (map (ren old new) xs) =
           (if x = new then map_option (ren old new) (find (\<lambda>nd. nname nd = old) xs)
            else if x = old then None
            else find (\<lambda>nd. nname nd = x) xs)"
  using assms by (induction xs) (auto simp: ren_def)

lemma node_by_name_ren:
  assumes "new = old \<or> node_by_name s new = None"
  shows "node_by_name (s\<lparr>nodes := map (ren old new) (nodes s)\<rparr>) x =
           (if x = new then map_option (ren old new) (node_by_name s old)
            else if x = old then None
            else node_by_name s x)"
proof -
  have "new = old \<or> new \<notin> nname ` set (nodes s)"
    using assms by (auto simp: node_by_name_def find_None_iff)
  from find_ren[OF this] show ?thesis by (simp add: node_by_name_def)
qed

lemma names_ren:
  "map nname (map (ren old new) xs) = map (\<lambda>x. if x = old then new else x) (map nname xs)"
  by (induction xs) (auto simp: ren_def)

lemma distinct_names_ren:
  assumes "distinct (map nname xs)" and "new = old \<or> new \<notin> nname ` set xs"
  shows "distinct (map nname (map (ren old new) xs))"
proof -
  have "inj_on (\<lambda>x. if x = old then new else x) (set (map nname xs))"
    using assms(2) by (auto simp: inj_on_def split: if_splits)
  with assms(1) have "distinct (map (\<lambda>x. if x = old then new else x) (map nname xs))"
    by (subst distinct_map) (rule conjI)
  then show ?thesis by (simp only: names_ren)
qed

lemma ids_ren: "map nid (map (ren old new) xs) = map nid xs"
  by (induction xs) (auto simp: ren_def)

lemma read_field_text:
  "read_field s StringField v = read_field s' StringField v"
  "read_field s EnumField v = read_field s' EnumField v"
  by (cases v; simp)+

lemma name_get_lookup:
  assumes "node_by_name t' (node_name m) = node_by_name t (node_name m)"
  shows "fst (name_get m t') = fst (name_get m t)" "fst (side_get m t') = fst (side_get m t)"
proof -
  have 1: "fst (field_get StringField (node_name m) ''name'' t') =
           fst (field_get StringField (node_name m) ''name'' t)"
    using assms read_field_text(1)[of t' _ t]
    by (auto simp: field_get_def split: option.splits)
  have 2: "fst (field_get EnumField (node_name m) ''side'' t') =
           fst (field_get EnumField (node_name m) ''side'' t)"
    using assms read_field_text(2)[of t' _ t]
    by (auto simp: field_get_def split: option.splits)
  have run: "fst (bnd (field_get k n f) as_str u) =
               (case fst (field_get k n f u) of Inl e \<Rightarrow> Inl e
                | Inr v \<Rightarrow> (case v of PStr x \<Rightarrow> Inr x | _ \<Rightarrow> Inl TypeError))" for k n f u
    by (auto simp: bnd_def field_get_def as_str_def ret_def raise_def
          split: option.splits pyval.splits)
  show "fst (name_get m t') = fst (name_get m t)" by (simp add: name_get_def run 1)
  show "fst (side_get m t') = fst (side_get m t)" by (simp add: side_get_def run 2)
qed

lemma name_get_state': "name_get m s = (fst (name_get m s), s)"
  by (auto simp: name_get_def bnd_def field_get_def as_str_def ret_def raise_def
        split: option.splits pyval.splits)

lemma side_get_state': "side_get m s = (fst (side_get m s), s)"
  by (auto simp: side_get_def bnd_def field_get_def as_str_def ret_def raise_def
        split: option.splits pyval.splits)

lemma settled_backing: "settled m bn sd t \<Longrightarrow> node_by_name t (node_name m) \<noteq> None"
  by (auto simp: settled_def name_get_def bnd_def field_get_def split: option.splits)

lemma settled_ren:
  assumes st: "settled m bn sd t" and x: "x \<noteq> node_name m"
    and y: "y = x \<or> node_by_name t y = None"
  shows "settled m bn sd (t\<lparr>nodes := map (ren x y) (nodes t)\<rparr>)"
    and "node_by_name (t\<lparr>nodes := map (ren x y) (nodes t)\<rparr>) (node_name m) = node_by_name t (node_name m)"
proof -
  let ?t = "t\<lparr>nodes := map (ren x y) (nodes t)\<rparr>"
  have yn: "y \<noteq> node_name m" using y x settled_backing[OF st] by auto
  show keep: "node_by_name ?t (node_name m) = node_by_name t (node_name m)"
    using node_by_name_ren[OF y, of "node_name m"] x yn by simp
  have fresh: "y = x \<or> y \<notin> nname ` set (nodes t)"
    using y by (auto simp: node_by_name_def find_None_iff)
  have dn: "distinct (map nname (nodes ?t))"
    using distinct_names_ren[OF _ fresh] st by (simp add: settled_def)
  have di: "distinct (map nid (nodes ?t))"
    using st ids_ren[of x y "nodes t"] by (simp add: settled_def del: map_map)
  have "name_get m ?t = (Inr bn, ?t)"
    using name_get_lookup(1)[OF keep] name_get_state'[of m ?t] st by (simp add: settled_def)
  moreover have "side_get m ?t = (Inr sd, ?t)"
    using name_get_lookup(2)[OF keep] side_get_state'[of m ?t] st by (simp add: settled_def)
  ultimately show "settled m bn sd ?t" using dn di by (simp add: settled_def)
qed

lemma update_node_name_step:
  assumes run: "update_node_name E m x t = (Inr y, t')" and st: "settled m bn sd t"
  shows "metadata_from_name E x \<noteq> None" and "y = reencode E bn sd x" and "node_by_name t x \<noteq> None"
    and "y = x \<or> node_by_name t y = None" and "t' = t\<lparr>nodes := map (ren x y) (nodes t)\<rparr>"
proof -
  from st have nm: "name_get m t = (Inr bn, t)" and sd: "side_get m t = (Inr sd, t)"
    and dn: "distinct (map nname (nodes t))" and di: "distinct (map nid (nodes t))"
    by (simp_all add: settled_def)
  from run obtain md where md: "metadata_from_name E x = Some md"
    by (cases "metadata_from_name E x") (auto simp: update_node_name_def decode_def bnd_def raise_def)
  let ?new = "name_from_metadata E (md\<lparr>base_name := bn, side := sd\<rparr>)"
  from run have "seq (rename x ?new) (ret ?new) t = (Inr y, t')"
    by (simp add: update_node_name_def decode_def md bnd_def ret_def nm sd Let_def)
  then obtain z where rn: "rename x ?new t = (Inr z, t')" and y: "y = ?new"
    by (auto simp: seq_def ret_def dest!: bnd_InrD)
  from rename_success[OF rn] obtain b where b: "node_by_name t x = Some b"
    and fresh: "?new = x \<or> node_by_name t ?new = None"
    and t': "t' = upd_node (nid b) (\<lambda>u. u\<lparr>nname := ?new\<rparr>) t"
    by blast
  have "t' = t\<lparr>nodes := map (ren x ?new) (nodes t)\<rparr>"
    unfolding t' upd_by_name[OF dn di b] by (simp add: ren_def[abs_def])
  then show "t' = t\<lparr>nodes := map (ren x y) (nodes t)\<rparr>" by (simp add: y)
  show "metadata_from_name E x \<noteq> None" by (simp add: md)
  show "y = reencode E bn sd x" by (simp add: y reencode_def md)
  show "node_by_name t x \<noteq> None" by (simp add: b)
  show "y = x \<or> node_by_name t y = None" using fresh by (simp add: y)
qed

lemma on_self_run: "on_self f (m, s) = (case f m s of (r, s') \<Rightarrow> (r, (m, s')))"
  by (simp add: on_self_def)

lemma owned_loop:
  "settled m bn sd t \<Longrightarrow> node_name m \<notin> set L \<Longrightarrow> distinct L \<Longrightarrow>
   set L \<subseteq> nname ` set (nodes t) \<Longrightarrow>
   for_each L (\<lambda>node. on_self (\<lambda>m. seq (update_node_name E m node) (ret ()))) (m, t)
     = (Inr (), (m2, t')) \<Longrightarrow>
   m2 = m \<and> settled m bn sd t'
   \<and> nodes t' = map (\<lambda>nd. if nname nd \<in> set L then nd\<lparr>nname := reencode E bn sd (nname nd)\<rparr> else nd)
                   (nodes t)
   \<and> conns t' = conns t \<and> next_id t' = next_id t
   \<and> (\<forall>x\<in>set L. metadata_from_name E x \<noteq> None)
   \<and> node_by_name t' (node_name m) = node_by_name t (node_name m)"
proof (induction L arbitrary: t)
  case Nil
  then show ?case by (simp add: ret_def)
next
  case (Cons x L)
  from Cons.prems(5) obtain u st1 where
    1: "on_self (\<lambda>m. seq (update_node_name E m x) (ret ())) (m, t) = (Inr u, st1)"
    and 2: "for_each L (\<lambda>node. on_self (\<lambda>m. seq (update_node_name E m node) (ret ()))) st1
             = (Inr (), (m2, t'))"
    by (auto simp: seq_def dest!: bnd_InrD)
  from 1 obtain t1 where st1: "st1 = (m, t1)"
    and s1: "seq (update_node_name E m x) (ret ()) t = (Inr (), t1)"
    by (auto simp: on_self_run split: prod.splits)
  from s1 obtain y where un: "update_node_name E m x t = (Inr y, t1)"
    by (auto simp: seq_def ret_def dest!: bnd_InrD)
  note step = update_node_name_step[OF un Cons.prems(1)]
  have md: "metadata_from_name E x \<noteq> None" by (rule step(1))
  have y: "y = reencode E bn sd x" by (rule step(2))
  have fresh: "y = x \<or> node_by_name t y = None" by (rule step(4))
  have t1: "t1 = t\<lparr>nodes := map (ren x y) (nodes t)\<rparr>" by (rule step(5))
  have xm: "x \<noteq> node_name m" using Cons.prems(2) by auto
  have st: "settled m bn sd t1" and keep: "node_by_name t1 (node_name m) = node_by_name t (node_name m)"
    unfolding t1 using settled_ren[OF Cons.prems(1) xm fresh] by simp_all
  have xL: "x \<notin> set L" and dL: "distinct L" using Cons.prems(3) by auto
  have mL: "node_name m \<notin> set L" using Cons.prems(2) by auto
  have sub: "set L \<subseteq> nname ` set (nodes t1)"
  proof
    fix z assume z: "z \<in> set L"
    then have "z \<in> nname ` set (nodes t)" and "z \<noteq> x" using Cons.prems(4) xL by auto
    then obtain nd where "nd \<in> set (nodes t)" "nname nd = z" by auto
    with \<open>z \<noteq> x\<close> have "ren x y nd \<in> set (nodes t1)" "nname (ren x y nd) = z"
      by (auto simp: t1 ren_def)
    then show "z \<in> nname ` set (nodes t1)" by force
  qed
  from Cons.IH[OF st mL dL sub 2[unfolded st1]]
  have m2: "m2 = m" and st': "settled m bn sd t'"
    and nodes: "nodes t' = map (\<lambda>nd. if nname nd \<in> set L then nd\<lparr>nname := reencode E bn sd (nname nd)\<rparr> else nd)
                   (nodes t1)"
    and rest: "conns t' = conns t1" "next_id t' = next_id t1"
      "\<forall>x\<in>set L. metadata_from_name E x \<noteq> None"
      "node_by_name t' (node_name m) = node_by_name t1 (node_name m)"
    by simp_all
  have yL: "y \<notin> set L"
  proof
    assume "y \<in> set L"
    then have "y \<noteq> x" and "y \<in> nname ` set (nodes t)" using xL Cons.prems(4) by auto
    with fresh show False by (auto simp: node_by_name_def find_None_iff)
  qed
  have "nodes t' = map (\<lambda>nd. if nname nd \<in> set (x # L) then nd\<lparr>nname := reencode E bn sd (nname nd)\<rparr> else nd)
                   (nodes t)"
    unfolding nodes t1 using yL xL y
    by (auto simp: ren_def)
  then show ?case
    using m2 st' rest md keep by (simp add: t1)
qed

lemma renameAttr_success:
  assumes "renameAttr n a new t = (Inr u, t')"
  shows "\<exists>nd. node_by_name t n = Some nd \<and> find_attr nd a \<noteq> None
           \<and> (new = a \<or> find_attr nd new = None)
           \<and> t' = upd_node (nid nd) (\<lambda>x. x\<lparr>nattrs := map (rena a new) (nattrs x)\<rparr>) t"
  using assms
  by (auto simp: renameAttr_def bnd_def the_node_def modify_def raise_def rena_def[abs_def]
        split: option.splits if_splits)

lemma find_rena:
  assumes "new = a \<or> new \<notin> aname ` set xs"
  shows "find (\<lambda>x. aname x = f) (map (rena a new) xs) =
           (if f = new then map_option (rena a new) (find (\<lambda>x. aname x = a) xs)
            else if f = a then None
            else find (\<lambda>x. aname x = f) xs)"
  using assms by (induction xs) (auto simp: rena_def)

lemma attr_value_rena:
  assumes "new = a \<or> find_attr nd new = None" and "f \<noteq> a" and "f \<noteq> new"
  shows "attr_value (nd\<lparr>nattrs := map (rena a new) (nattrs nd)\<rparr>) f = attr_value nd f"
proof -
  have "new = a \<or> new \<notin> aname ` set (nattrs nd)"
    using assms(1) by (auto simp: find_attr_def find_None_iff)
  from find_rena[OF this, of f] show ?thesis
    using assms(2,3) by (simp add: attr_value_def find_attr_def)
qed

lemma anames_rena:
  "map aname (map (rena a new) xs) = map (\<lambda>x. if x = a then new else x) (map aname xs)"
  by (induction xs) (auto simp: rena_def)

lemma distinct_anames_rena:
  assumes "distinct (map aname xs)" and "new = a \<or> new \<notin> aname ` set xs"
  shows "distinct (map aname (map (rena a new) xs))"
proof -
  have "inj_on (\<lambda>x. if x = a then new else x) (set (map aname xs))"
    using assms(2) by (auto simp: inj_on_def split: if_splits)
  with assms(1) have "distinct (map (\<lambda>x. if x = a then new else x) (map aname xs))"
    by (subst distinct_map) (rule conjI)
  then show ?thesis by (simp only: anames_rena)
qed

lemma split_dunder_plain:
  "CHR ''_'' \<notin> set a \<Longrightarrow> split_dunder a = [a]"
  by (induction a rule: split_dunder.induct) (auto split: list.splits)

lemma not_field_name:
  assumes "split_dunder a = [p, q]"
  shows "a \<noteq> ''name''" "a \<noteq> ''side''"
  using assms split_dunder_plain[of "''name''"] split_dunder_plain[of "''side''"] by auto

lemma dunder_not_field:
  "p @ ''__'' @ q \<noteq> ''name''" "p @ ''__'' @ q \<noteq> ''side''"
  "''name'' \<noteq> p @ ''__'' @ q" "''side'' \<noteq> p @ ''__'' @ q"
proof -
  have a: "CHR ''_'' \<in> set (p @ ''__'' @ q)" by simp
  have b: "CHR ''_'' \<notin> set ''name''" "CHR ''_'' \<notin> set ''side''" by simp_all
  show "p @ ''__'' @ q \<noteq> ''name''" using a b(1) by metis
  show "p @ ''__'' @ q \<noteq> ''side''" using a b(2) by metis
  show "''name'' \<noteq> p @ ''__'' @ q" using a b(1) by metis
  show "''side'' \<noteq> p @ ''__'' @ q" using a b(2) by metis
qed

lemma name_get_attrs:
  assumes "node_by_name t (node_name m) = Some nd" and "node_by_name t' (node_name m) = Some nd'"
    and "attr_value nd' ''name'' = attr_value nd ''name''"
    and "attr_value nd' ''side'' = attr_value nd ''side''"
  shows "fst (name_get m t') = fst (name_get m t)" "fst (side_get m t') = fst (side_get m t)"
proof -
  have run: "fst (bnd (field_get k n f) as_str u) =
               (case fst (field_get k n f u) of Inl e \<Rightarrow> Inl e
                | Inr v \<Rightarrow> (case v of PStr x \<Rightarrow> Inr x | _ \<Rightarrow> Inl TypeError))" for k n f u
    by (auto simp: bnd_def field_get_def as_str_def ret_def raise_def
          split: option.splits pyval.splits)
  have 1: "fst (field_get StringField (node_name m) ''name'' t') =
           fst (field_get StringField (node_name m) ''name'' t)"
    using assms read_field_text(1)[of t' _ t] by (simp add: field_get_def)
  have 2: "fst (field_get EnumField (node_name m) ''side'' t') =
           fst (field_get EnumField (node_name m) ''side'' t)"
    using assms read_field_text(2)[of t' _ t] by (simp add: field_get_def)
  show "fst (name_get m t') = fst (name_get m t)" by (simp add: name_get_def run 1)
  show "fst (side_get m t') = fst (side_get m t)" by (simp add: side_get_def run 2)
qed

lemma rename_persistent_attr_step:
  assumes run: "rename_persistent_attr E m a t = (Inr u, t')" and st: "settled m bn sd t"
  shows "\<exists>p q. split_dunder a = [p, q] \<and> metadata_from_name E p \<noteq> None"
    and "\<exists>nd. node_by_name t (node_name m) = Some nd \<and> find_attr nd a \<noteq> None
           \<and> (reprefix E bn sd a = a \<or> find_attr nd (reprefix E bn sd a) = None)
           \<and> t' = upd_node (nid nd)
                    (\<lambda>x. x\<lparr>nattrs := map (rena a (reprefix E bn sd a)) (nattrs x)\<rparr>) t"
    and "settled m bn sd t'"
proof -
  from st have nm: "name_get m t = (Inr bn, t)" and sd: "side_get m t = (Inr sd, t)"
    and dn: "distinct (map nname (nodes t))" and di: "distinct (map nid (nodes t))"
    by (simp_all add: settled_def)
  from run obtain p q where pq: "split_dunder a = [p, q]"
    by (cases "split_dunder a" rule: list.exhaust[case_names Nil Cons])
       (auto simp: rename_persistent_attr_def raise_def split: list.splits)
  from run pq obtain md where md: "metadata_from_name E p = Some md"
    by (cases "metadata_from_name E p")
       (auto simp: rename_persistent_attr_def decode_def bnd_def raise_def)
  let ?h = "name_from_metadata E (md\<lparr>base_name := bn, side := sd\<rparr>) @ ''__'' @ q"
  have h: "reprefix E bn sd a = ?h" by (simp add: reprefix_def pq reencode_def md)
  from run have "renameAttr (node_name m) a ?h t = (Inr u, t')"
    by (simp add: rename_persistent_attr_def pq decode_def md bnd_def ret_def nm sd Let_def)
  from renameAttr_success[OF this] obtain nd where nd: "node_by_name t (node_name m) = Some nd"
    and fa: "find_attr nd a \<noteq> None" and fresh: "?h = a \<or> find_attr nd ?h = None"
    and t': "t' = upd_node (nid nd) (\<lambda>x. x\<lparr>nattrs := map (rena a ?h) (nattrs x)\<rparr>) t"
    by blast
  show "\<exists>p q. split_dunder a = [p, q] \<and> metadata_from_name E p \<noteq> None"
    using pq md by simp
  show "\<exists>nd. node_by_name t (node_name m) = Some nd \<and> find_attr nd a \<noteq> None
           \<and> (reprefix E bn sd a = a \<or> find_attr nd (reprefix E bn sd a) = None)
           \<and> t' = upd_node (nid nd)
                    (\<lambda>x. x\<lparr>nattrs := map (rena a (reprefix E bn sd a)) (nattrs x)\<rparr>) t"
    using nd fa fresh t' by (simp add: h)
  have nd': "node_by_name t' (node_name m) = Some (nd\<lparr>nattrs := map (rena a ?h) (nattrs nd)\<rparr>)"
    unfolding t' by (rule node_by_name_upd_same[OF nd]) simp
  have av: "attr_value (nd\<lparr>nattrs := map (rena a ?h) (nattrs nd)\<rparr>) f = attr_value nd f"
    if "f = ''name'' \<or> f = ''side''" for f
  proof -
    have "f \<noteq> a" using that not_field_name[OF pq] by auto
    moreover have "''name'' \<noteq> ?h" "''side'' \<noteq> ?h"
      by (rule dunder_not_field(3), rule dunder_not_field(4))
    then have "f \<noteq> ?h" using that by metis
    ultimately show ?thesis by (rule attr_value_rena[OF fresh])
  qed
  have "fst (name_get m t') = Inr bn" "fst (side_get m t') = Inr sd"
    using name_get_attrs[OF nd nd' av av] nm sd by simp_all
  then have "name_get m t' = (Inr bn, t')" "side_get m t' = (Inr sd, t')"
    using name_get_state'[of m t'] side_get_state'[of m t'] by simp_all
  moreover have "map nname (nodes t') = map nname (nodes t)" "map nid (nodes t') = map nid (nodes t)"
    by (simp_all add: t' upd_node_def o_def if_distrib cong: if_cong)
  ultimately show "settled m bn sd t'" using dn di by (simp add: settled_def)
qed

lemma upd_node_cong:
  assumes "\<And>x. x \<in> set (nodes s) \<Longrightarrow> nid x = i \<Longrightarrow> f x = g x"
  shows "upd_node i f s = upd_node i g s"
  using assms by (simp add: upd_node_def)

lemma the_backing_node:
  assumes "distinct (map nid (nodes s))" and "node_by_name s n = Some nd"
    and "x \<in> set (nodes s)" and "nid x = nid nd"
  shows "x = nd"
proof -
  from assms(2) have "nd \<in> set (nodes s)" by (auto simp: node_by_name_def dest: find_SomeD)
  with assms(1,3,4) show ?thesis by (auto simp: distinct_map inj_on_def)
qed

lemma nid_reprefixed [simp]: "nid (reprefixed E bn sd A nd) = nid nd"
  by (simp add: reprefixed_def)

lemma nname_reprefixed [simp]: "nname (reprefixed E bn sd A nd) = nname nd"
  by (simp add: reprefixed_def)

lemma attr_loop:
  "settled m bn sd t \<Longrightarrow> node_by_name t (node_name m) = Some nd \<Longrightarrow>
   distinct (map aname (nattrs nd)) \<Longrightarrow> distinct A \<Longrightarrow> set A \<subseteq> aname ` set (nattrs nd) \<Longrightarrow>
   for_each A (\<lambda>a. on_self (\<lambda>m. rename_persistent_attr E m a)) (m, t) = (Inr (), (m2, t')) \<Longrightarrow>
   m2 = m \<and> t' = upd_node (nid nd) (reprefixed E bn sd A) t
   \<and> (\<forall>a\<in>set A. \<exists>p q. split_dunder a = [p, q] \<and> metadata_from_name E p \<noteq> None)"
proof (induction A arbitrary: t nd)
  case Nil
  have "upd_node (nid nd) (reprefixed E bn sd []) t = t"
    by (cases t) (simp add: upd_node_def reprefixed_def map_idI)
  with Nil show ?case by (simp add: ret_def)
next
  case (Cons a A)
  let ?h = "reprefix E bn sd a"
  let ?g = "\<lambda>x. x\<lparr>nattrs := map (rena a ?h) (nattrs x)\<rparr>"
  from Cons.prems(6) obtain u st1 where
    1: "on_self (\<lambda>m. rename_persistent_attr E m a) (m, t) = (Inr u, st1)"
    and 2: "for_each A (\<lambda>a. on_self (\<lambda>m. rename_persistent_attr E m a)) st1 = (Inr (), (m2, t'))"
    by (auto simp: seq_def dest!: bnd_InrD)
  from 1 obtain t1 where st1: "st1 = (m, t1)"
    and run: "rename_persistent_attr E m a t = (Inr u, t1)"
    by (auto simp: on_self_run split: prod.splits)
  note step = rename_persistent_attr_step[OF run Cons.prems(1)]
  from step(2) Cons.prems(2) have fresh: "?h = a \<or> find_attr nd ?h = None"
    and t1: "t1 = upd_node (nid nd) ?g t"
    by auto
  have fresh': "?h = a \<or> ?h \<notin> aname ` set (nattrs nd)"
    using fresh by (auto simp: find_attr_def find_None_iff)
  have st: "settled m bn sd t1" by (rule step(3))
  have nd1: "node_by_name t1 (node_name m) = Some (?g nd)"
    unfolding t1 by (rule node_by_name_upd_same[OF Cons.prems(2)]) simp
  have d1: "distinct (map aname (nattrs (?g nd)))"
    using distinct_anames_rena[OF Cons.prems(3) fresh'] by simp
  have aA: "a \<notin> set A" and dA: "distinct A" using Cons.prems(4) by auto
  have sub: "set A \<subseteq> aname ` set (nattrs (?g nd))"
  proof
    fix z assume z: "z \<in> set A"
    then have "z \<noteq> a" and "z \<in> aname ` set (nattrs nd)" using aA Cons.prems(5) by auto
    then obtain y where "y \<in> set (nattrs nd)" "aname y = z" by auto
    with \<open>z \<noteq> a\<close> have "rena a ?h y \<in> set (nattrs (?g nd))" "aname (rena a ?h y) = z"
      by (auto simp: rena_def)
    then show "z \<in> aname ` set (nattrs (?g nd))" by force
  qed
  from Cons.IH[OF st nd1 d1 dA sub 2[unfolded st1]]
  have m2: "m2 = m" and t': "t' = upd_node (nid nd) (reprefixed E bn sd A) t1"
    and rest: "\<forall>a\<in>set A. \<exists>p q. split_dunder a = [p, q] \<and> metadata_from_name E p \<noteq> None"
    by simp_all
  have hA: "?h \<noteq> a \<Longrightarrow> ?h \<notin> set A" using fresh' Cons.prems(5) by auto
  have fe: "(if aname (rena a ?h y) \<in> set A
             then (rena a ?h y)\<lparr>aname := reprefix E bn sd (aname (rena a ?h y))\<rparr> else rena a ?h y) =
            (if aname y \<in> set (a # A) then y\<lparr>aname := reprefix E bn sd (aname y)\<rparr> else y)" for y
    using aA hA by (cases "?h = a") (auto simp: rena_def)
  have pt: "reprefixed E bn sd A (?g nd) = reprefixed E bn sd (a # A) nd"
    unfolding reprefixed_def by (simp add: o_def fe del: set_simps)
  have di: "distinct (map nid (nodes t))" using Cons.prems(1) by (simp add: settled_def)
  have "t' = upd_node (nid nd) (\<lambda>x. reprefixed E bn sd A (?g x)) t"
    unfolding t' t1 by (rule upd_node_twice) simp
  also have "\<dots> = upd_node (nid nd) (reprefixed E bn sd (a # A)) t"
  proof (rule upd_node_cong)
    fix x assume "x \<in> set (nodes t)" "nid x = nid nd"
    then have "x = nd" by (rule the_backing_node[OF di Cons.prems(2)])
    then show "reprefixed E bn sd A (?g x) = reprefixed E bn sd (a # A) x" using pt by simp
  qed
  finally have "t' = upd_node (nid nd) (reprefixed E bn sd (a # A)) t" .
  then show ?case using m2 rest step(1) by simp
qed

lemma name_get_field:
  "name_get m t = (Inr bn, t) \<Longrightarrow> field_get StringField (node_name m) ''name'' t = (Inr (PStr bn), t)"
  "side_get m t = (Inr sd, t) \<Longrightarrow> field_get EnumField (node_name m) ''side'' t = (Inr (PStr sd), t)"
  by (auto simp: name_get_def side_get_def bnd_def field_get_def as_str_def ret_def raise_def
        split: option.splits pyval.splits)

lemma settled_rename_backing:
  assumes st: "settled m bn sd t" and b: "node_by_name t (node_name m) = Some b"
    and y: "y = node_name m \<or> node_by_name t y = None"
  shows "settled (m\<lparr>node_name := y\<rparr>) bn sd (t\<lparr>nodes := map (ren (node_name m) y) (nodes t)\<rparr>)"
    and "node_by_name (t\<lparr>nodes := map (ren (node_name m) y) (nodes t)\<rparr>) y = Some (b\<lparr>nname := y\<rparr>)"
proof -
  let ?t = "t\<lparr>nodes := map (ren (node_name m) y) (nodes t)\<rparr>"
  let ?m = "m\<lparr>node_name := y\<rparr>"
  from b have bn: "nname b = node_name m" by (auto simp: node_by_name_def dest: find_SomeD)
  show nb: "node_by_name ?t y = Some (b\<lparr>nname := y\<rparr>)"
    using node_by_name_ren[OF y, of y] b bn by (simp add: ren_def)
  have fresh: "y = node_name m \<or> y \<notin> nname ` set (nodes t)"
    using y by (auto simp: node_by_name_def find_None_iff)
  have dn: "distinct (map nname (nodes ?t))"
    using distinct_names_ren[OF _ fresh] st by (simp add: settled_def)
  have di: "distinct (map nid (nodes ?t))"
    using st ids_ren[of "node_name m" y "nodes t"] by (simp add: settled_def del: map_map)
  have nb': "node_by_name ?t (node_name ?m) = Some (b\<lparr>nname := y\<rparr>)" using nb by simp
  have av: "attr_value (b\<lparr>nname := y\<rparr>) f = attr_value b f" for f
    by (simp add: attr_value_def find_attr_def)
  have "fst (name_get ?m ?t) = fst (name_get m t)" "fst (side_get ?m ?t) = fst (side_get m t)"
  proof -
    have run: "fst (bnd (field_get k n f) as_str u) =
               (case fst (field_get k n f u) of Inl e \<Rightarrow> Inl e
                | Inr v \<Rightarrow> (case v of PStr x \<Rightarrow> Inr x | _ \<Rightarrow> Inl TypeError))" for k n f u
      by (auto simp: bnd_def field_get_def as_str_def ret_def raise_def
            split: option.splits pyval.splits)
    have 1: "fst (field_get StringField (node_name ?m) ''name'' ?t) =
             fst (field_get StringField (node_name m) ''name'' t)"
      using read_field_text(1)[of ?t _ t] by (simp add: field_get_def nb b av)
    have 2: "fst (field_get EnumField (node_name ?m) ''side'' ?t) =
             fst (field_get EnumField (node_name m) ''side'' t)"
      using read_field_text(2)[of ?t _ t] by (simp add: field_get_def nb b av)
    show "fst (name_get ?m ?t) = fst (name_get m t)" using 1 by (simp add: name_get_def run)
    show "fst (side_get ?m ?t) = fst (side_get m t)" using 2 by (simp add: side_get_def run)
  qed
  then have "name_get ?m ?t = (Inr bn, ?t)" "side_get ?m ?t = (Inr sd, ?t)"
    using name_get_state'[of ?m ?t] side_get_state'[of ?m ?t] st by (simp_all add: settled_def)
  then show "settled ?m bn sd ?t" using dn di by (simp add: settled_def)
qed

lemma find_nid_ren:
  "find (\<lambda>nd. nid nd = i) (map (ren old new) xs) = map_option (ren old new) (find (\<lambda>nd. nid nd = i) xs)"
  by (induction xs) (auto simp: ren_def)

lemma ref_names_ren:
  assumes dn: "distinct (map nname (nodes t))" and b: "node_by_name t old = Some b"
    and ids: "nid b \<notin> set ids"
  shows "ref_names (t\<lparr>nodes := map (ren old new) (nodes t)\<rparr>) ids = ref_names t ids"
proof -
  from b have bs: "b \<in> set (nodes t)" and bn: "nname b = old"
    by (auto simp: node_by_name_def dest: find_SomeD)
  have "ref_name (t\<lparr>nodes := map (ren old new) (nodes t)\<rparr>) i = ref_name t i" if "i \<in> set ids" for i
  proof (cases "node_by_id t i")
    case None
    then show ?thesis by (simp add: ref_name_def node_by_id_def find_nid_ren)
  next
    case (Some nd)
    then have nd: "nd \<in> set (nodes t)" "nid nd = i"
      by (auto simp: node_by_id_def dest: find_SomeD)
    have "nname nd \<noteq> old"
    proof
      assume "nname nd = old"
      with dn nd(1) bs bn have "nd = b" by (auto simp: distinct_map inj_on_def)
      with nd(2) that ids show False by simp
    qed
    then show ?thesis using Some by (simp add: ref_name_def node_by_id_def find_nid_ren ren_def)
  qed
  then show ?thesis by (simp add: ref_names_def List.map_filter_def cong: filter_cong map_cong)
qed

lemma ref_names_props:
  assumes dn: "distinct (map nname (nodes t))" and b: "node_by_name t n = Some b"
    and ids: "nid b \<notin> set ids" and d: "distinct ids"
  shows "distinct (ref_names t ids)" and "n \<notin> set (ref_names t ids)"
    and "set (ref_names t ids) \<subseteq> nname ` set (nodes t)"
proof -
  from b have bs: "b \<in> set (nodes t)" and bn: "nname b = n"
    by (auto simp: node_by_name_def dest: find_SomeD)
  have rn: "ref_name t i = Some x \<Longrightarrow> \<exists>nd \<in> set (nodes t). nid nd = i \<and> nname nd = x" for i x
    by (auto simp: ref_name_def node_by_id_def dest: find_SomeD)
  have "inj_on (ref_name t) {i \<in> set ids. ref_name t i \<noteq> None}"
  proof (rule inj_onI)
    fix i j assume i: "i \<in> {i \<in> set ids. ref_name t i \<noteq> None}"
      and j: "j \<in> {i \<in> set ids. ref_name t i \<noteq> None}" and e: "ref_name t i = ref_name t j"
    from i obtain x where x: "ref_name t i = Some x" by auto
    from rn[OF x] obtain u where u: "u \<in> set (nodes t)" "nid u = i" "nname u = x" by auto
    from e x rn[of j x] obtain v where v: "v \<in> set (nodes t)" "nid v = j" "nname v = x" by auto
    from dn u v have "u = v" by (auto simp: distinct_map inj_on_def)
    then show "i = j" using u v by simp
  qed
  then have "distinct (map (ref_name t) (filter (\<lambda>i. ref_name t i \<noteq> None) ids))"
    using d by (simp add: distinct_map)
  then have "distinct (map (the \<circ> ref_name t) (filter (\<lambda>i. ref_name t i \<noteq> None) ids))"
    by (auto simp: distinct_map inj_on_def)
  then show "distinct (ref_names t ids)" by (simp add: ref_names_def List.map_filter_def)
  show "n \<notin> set (ref_names t ids)"
  proof
    assume "n \<in> set (ref_names t ids)"
    then obtain i where i: "i \<in> set ids" "ref_name t i = Some n"
      by (auto simp: ref_names_def List.map_filter_def)
    from rn[OF i(2)] obtain u where u: "u \<in> set (nodes t)" "nid u = i" "nname u = n" by auto
    with dn bs bn have "u = b" by (auto simp: distinct_map inj_on_def)
    with u i ids show False by simp
  qed
  show "set (ref_names t ids) \<subseteq> nname ` set (nodes t)"
    using rn by (fastforce simp: ref_names_def List.map_filter_def)
qed

lemma listAttr_found:
  "node_by_name t n = Some nd \<Longrightarrow>
   listAttr n cat t = (Inr (map aname (filter (\<lambda>x. acategory x = Some cat) (nattrs nd))), t)"
  by (simp add: listAttr_def bnd_def the_node_def ret_def)

lemma update_unbuilt:
  assumes fb: "field_get BoolField (node_name m) ''is_built'' s = (Inr built, s)"
    and nb: "\<not> truthy built"
    and pj: "update_parent_joint E m s = (Inr u, s1)"
    and md: "metadata_from_name E (node_name m) = Some md"
    and nm: "name_get m s1 = (Inr bn, s1)" and sd: "side_get m s1 = (Inr sd, s1)"
    and changed: "bn \<noteq> base_name md \<or> sd \<noteq> side md"
  shows "update E (m, s) =
     bnd (on_self (\<lambda>m. update_node_name E m (node_name m))) (\<lambda>new_name.
       seq (set_node_name new_name)
       (bnd (on_self (\<lambda>m. field_get ObjectListField (node_name m) ''owned_nodes'')) (\<lambda>owned.
        seq (for_each (elems owned)
               (\<lambda>node. on_self (\<lambda>m. seq (update_node_name E m node) (ret ()))))
        (bnd (on_self (\<lambda>m. listAttr (node_name m) ''persistent_attribute_backup''))
           (\<lambda>persistent_attrs.
             for_each persistent_attrs
               (\<lambda>a. on_self (\<lambda>m. rename_persistent_attr E m a))))))) (m, s1)"
proof -
  have 0: "on_self (\<lambda>m. field_get BoolField (node_name m) ''is_built'') (m, s) = (Inr built, (m, s))"
    by (simp add: on_self_run fb)
  have 1: "on_self (update_parent_joint E) (m, s) = (Inr u, (m, s1))"
    by (simp add: on_self_run pj)
  have 2: "on_self (\<lambda>m. decode E (node_name m)) (m, s1) = (Inr md, (m, s1))"
    by (simp add: on_self_run decode_def md ret_def)
  have 3: "on_self (\<lambda>m. field_get StringField (node_name m) ''name'') (m, s1) = (Inr (PStr bn), (m, s1))"
    by (simp add: on_self_run name_get_field(1)[OF nm])
  have 4: "on_self (\<lambda>m. field_get EnumField (node_name m) ''side'') (m, s1) = (Inr (PStr sd), (m, s1))"
    by (simp add: on_self_run name_get_field(2)[OF sd])
  show ?thesis
    unfolding update_def
    apply (subst bnd_run[of "on_self (\<lambda>m. field_get BoolField (node_name m) ''is_built'')"])
    apply (simp only: 0 prod.case sum.case nb if_False)
    apply (subst seq_def)
    apply (subst bnd_run[of "on_self (update_parent_joint E)"])
    apply (simp only: 1 prod.case sum.case)
    apply (subst bnd_run[of "on_self (\<lambda>m. decode E (node_name m))"])
    apply (simp only: 2 prod.case sum.case)
    apply (subst bnd_run[of "on_self (\<lambda>m. field_get StringField (node_name m) ''name'')"])
    apply (simp only: 3 prod.case sum.case)
    apply (subst bnd_run[of "on_self (\<lambda>m. field_get EnumField (node_name m) ''side'')"])
    apply (simp only: 4 prod.case sum.case)
    using changed apply (simp only: Let_def pyval.inject if_True simp_thms)
    done
qed

lemma set_node_name_run: "set_node_name n (m, s) = (Inr (), (m\<lparr>node_name := n\<rparr>, s))"
  by (simp add: set_node_name_def modify_def)

lemma stored_refs_rename [simp]: "stored_refs (nd\<lparr>nname := y\<rparr>) f = stored_refs nd f"
  by (simp add: stored_refs_def attr_value_def find_attr_def)

lemma read_field_list:
  "read_field s ObjectListField (attr_value nd f) = PList (map PStr (ref_names s (stored_refs nd f)))"
  by (cases "attr_value nd f") (simp_all add: stored_refs_def ref_names_def List.map_filter_simps)

lemma attr_value_rename [simp]: "attr_value (nd\<lparr>nname := y\<rparr>) f = attr_value nd f"
  by (simp add: attr_value_def find_attr_def)

lemma update_renames_nodes:
  assumes run: "update E (m, s) = (Inr (), (m', s'))"
    and unbuilt: "fst (field_get BoolField (node_name m) ''is_built'' s) = Inr built" "\<not> truthy built"
    and s1: "s1 = snd (update_parent_joint E m s)"
    and st: "settled m bn sd s1"
    and md: "metadata_from_name E (node_name m) = Some md"
    and changed: "bn \<noteq> base_name md \<or> sd \<noteq> side md"
    and b: "node_by_name s1 (node_name m) = Some b"
    and own: "distinct (stored_refs b ''owned_nodes'')" "nid b \<notin> set (stored_refs b ''owned_nodes'')"
    and da: "distinct (map aname (nattrs b))"
  shows "m' = m\<lparr>node_name := reencode E bn sd (node_name m)\<rparr>"
    and "s' = s1\<lparr>nodes := map (renamed E bn sd (node_name m)
                  (ref_names s1 (stored_refs b ''owned_nodes'')) (persistent_attrs b)) (nodes s1)\<rparr>"
    and "\<forall>x\<in>set (ref_names s1 (stored_refs b ''owned_nodes'')). metadata_from_name E x \<noteq> None"
    and "\<forall>a\<in>set (persistent_attrs b). \<exists>p q. split_dunder a = [p, q] \<and> metadata_from_name E p \<noteq> None"
proof -
  let ?ids = "stored_refs b ''owned_nodes''"
  let ?L = "ref_names s1 ?ids"
  let ?A = "persistent_attrs b"
  let ?N = "reencode E bn sd (node_name m)"
  let ?m1 = "m\<lparr>node_name := ?N\<rparr>"
  let ?attrs = "bnd (on_self (\<lambda>m. listAttr (node_name m) ''persistent_attribute_backup''))
           (\<lambda>persistent_attrs.
             for_each persistent_attrs
               (\<lambda>a. on_self (\<lambda>m. rename_persistent_attr E m a)))"
  let ?loop = "\<lambda>owned. for_each (elems owned)
               (\<lambda>node. on_self (\<lambda>m. seq (update_node_name E m node) (ret ())))"
  from st have nm: "name_get m s1 = (Inr bn, s1)" and sd: "side_get m s1 = (Inr sd, s1)"
    and dn: "distinct (map nname (nodes s1))" and di: "distinct (map nid (nodes s1))"
    by (simp_all add: settled_def)
  have fb: "field_get BoolField (node_name m) ''is_built'' s = (Inr built, s)"
    using unbuilt(1) field_get_state[of BoolField "node_name m" "''is_built''" s]
    by (cases "field_get BoolField (node_name m) ''is_built'' s") simp
  obtain r1 where pj: "update_parent_joint E m s = (r1, s1)"
    using s1 by (cases "update_parent_joint E m s") simp
  have "\<exists>u. r1 = Inr u"
  proof (cases r1)
    case (Inl e)
    have 0: "on_self (\<lambda>m. field_get BoolField (node_name m) ''is_built'') (m, s) = (Inr built, (m, s))"
      by (simp add: on_self_run fb)
    have 1: "on_self (update_parent_joint E) (m, s) = (Inl e, (m, s1))"
      by (simp add: on_self_run pj Inl)
    have "update E (m, s) = (Inl e, (m, s1))"
      unfolding update_def
      apply (subst bnd_run[of "on_self (\<lambda>m. field_get BoolField (node_name m) ''is_built'')"])
      apply (simp only: 0 prod.case sum.case unbuilt(2) if_False)
      apply (subst seq_def)
      apply (subst bnd_run[of "on_self (update_parent_joint E)"])
      apply (simp only: 1 prod.case sum.case)
      done
    with run show ?thesis by simp
  qed simp
  then obtain u where pj': "update_parent_joint E m s = (Inr u, s1)" using pj by auto
  note tail = run[unfolded update_unbuilt[OF fb unbuilt(2) pj' md nm sd changed]]
  from bnd_InrD[OF tail] obtain new_name st2 where
    a1: "on_self (\<lambda>m. update_node_name E m (node_name m)) (m, s1) = (Inr new_name, st2)"
    and a2: "seq (set_node_name new_name)
       (bnd (on_self (\<lambda>m. field_get ObjectListField (node_name m) ''owned_nodes''))
          (\<lambda>owned. seq (?loop owned) ?attrs)) st2 = (Inr (), (m', s'))"
    by blast
  from a1 obtain s2 where st2: "st2 = (m, s2)"
    and un: "update_node_name E m (node_name m) s1 = (Inr new_name, s2)"
    by (auto simp: on_self_run split: prod.splits)
  note step = update_node_name_step[OF un st]
  have new_name: "new_name = ?N" by (rule step(2))
  have fresh: "?N = node_name m \<or> node_by_name s1 ?N = None" using step(4) new_name by simp
  have s2: "s2 = s1\<lparr>nodes := map (ren (node_name m) ?N) (nodes s1)\<rparr>" using step(5) new_name by simp
  have st1: "settled ?m1 bn sd s2" and b2: "node_by_name s2 ?N = Some (b\<lparr>nname := ?N\<rparr>)"
    unfolding s2 using settled_rename_backing[OF st b fresh] by simp_all
  from seq_InrD[OF a2] obtain x st3 where
    a3: "set_node_name new_name st2 = (Inr x, st3)"
    and a4: "bnd (on_self (\<lambda>m. field_get ObjectListField (node_name m) ''owned_nodes''))
          (\<lambda>owned. seq (?loop owned) ?attrs) st3 = (Inr (), (m', s'))"
    by blast
  have st3: "st3 = (?m1, s2)" using a3 by (simp add: st2 set_node_name_run new_name)
  have L2: "ref_names s2 ?ids = ?L"
    unfolding s2 by (rule ref_names_ren[OF dn b own(2)])
  have og: "on_self (\<lambda>m. field_get ObjectListField (node_name m) ''owned_nodes'') (?m1, s2) =
              (Inr (PList (map PStr ?L)), (?m1, s2))"
    by (simp add: on_self_run field_get_def b2 read_field_list L2)
  from bnd_InrD[OF a4] obtain owned st4 where
    a5: "on_self (\<lambda>m. field_get ObjectListField (node_name m) ''owned_nodes'') st3 = (Inr owned, st4)"
    and a6: "seq (?loop owned) ?attrs st4 = (Inr (), (m', s'))"
    by blast
  have owned: "owned = PList (map PStr ?L)" and st4: "st4 = (?m1, s2)"
    using a5 og by (simp_all add: st3)
  from seq_InrD[OF a6] obtain y st5 where
    a7: "?loop owned st4 = (Inr y, st5)" and a8: "?attrs st5 = (Inr (), (m', s'))"
    by blast
  obtain m5 s3 where st5: "st5 = (m5, s3)" by (cases st5)
  have a7': "for_each ?L (\<lambda>node. on_self (\<lambda>m. seq (update_node_name E m node) (ret ()))) (?m1, s2)
               = (Inr (), (m5, s3))"
    using a7 by (simp add: owned st4 st5)
  note props = ref_names_props[OF dn b own(2) own(1)]
  have NL: "node_name ?m1 \<notin> set ?L"
  proof
    assume "node_name ?m1 \<in> set ?L"
    then have "?N \<in> set ?L" by simp
    with props(2) have "?N \<noteq> node_name m" by auto
    with fresh have "node_by_name s1 ?N = None" by simp
    then have "?N \<notin> nname ` set (nodes s1)" by (auto simp: node_by_name_def find_None_iff)
    with \<open>?N \<in> set ?L\<close> props(3) show False by blast
  qed
  have sub2: "set ?L \<subseteq> nname ` set (nodes s2)"
  proof
    fix z assume z: "z \<in> set ?L"
    with props(2,3) have "z \<noteq> node_name m" and "z \<in> nname ` set (nodes s1)" by auto
    then obtain nd where "nd \<in> set (nodes s1)" "nname nd = z" by auto
    with \<open>z \<noteq> node_name m\<close> have "ren (node_name m) ?N nd \<in> set (nodes s2)"
      "nname (ren (node_name m) ?N nd) = z"
      by (auto simp: s2 ren_def)
    then show "z \<in> nname ` set (nodes s2)" by force
  qed
  from owned_loop[OF st1 NL props(1) sub2 a7']
  have m5: "m5 = ?m1" and st3': "settled ?m1 bn sd s3"
    and n3: "nodes s3 = map (\<lambda>nd. if nname nd \<in> set ?L then nd\<lparr>nname := reencode E bn sd (nname nd)\<rparr> else nd)
                   (nodes s2)"
    and c3: "conns s3 = conns s2" "next_id s3 = next_id s2"
    and dec: "\<forall>x\<in>set ?L. metadata_from_name E x \<noteq> None"
    and b3': "node_by_name s3 (node_name ?m1) = node_by_name s2 (node_name ?m1)"
    by simp_all
  have b3: "node_by_name s3 ?N = Some (b\<lparr>nname := ?N\<rparr>)" using b3' b2 by simp
  have la: "on_self (\<lambda>m. listAttr (node_name m) ''persistent_attribute_backup'') (?m1, s3) =
              (Inr ?A, (?m1, s3))"
    by (simp add: on_self_run listAttr_found[OF b3] persistent_attrs_def)
  from bnd_InrD[OF a8] obtain pa st6 where
    a9: "on_self (\<lambda>m. listAttr (node_name m) ''persistent_attribute_backup'') st5 = (Inr pa, st6)"
    and a10: "for_each pa (\<lambda>a. on_self (\<lambda>m. rename_persistent_attr E m a)) st6 = (Inr (), (m', s'))"
    by blast
  have pa: "pa = ?A" and st6: "st6 = (?m1, s3)" using a9 la by (simp_all add: st5 m5)
  have dA: "distinct ?A" using da by (simp add: persistent_attrs_def distinct_map_filter)
  have sA: "set ?A \<subseteq> aname ` set (nattrs (b\<lparr>nname := ?N\<rparr>))"
    by (auto simp: persistent_attrs_def)
  have b3m: "node_by_name s3 (node_name ?m1) = Some (b\<lparr>nname := ?N\<rparr>)" using b3 by simp
  have da': "distinct (map aname (nattrs (b\<lparr>nname := ?N\<rparr>)))" using da by simp
  from attr_loop[OF st3' b3m da' dA sA a10[unfolded pa st6]]
  have m': "m' = ?m1" and s': "s' = upd_node (nid b) (reprefixed E bn sd ?A) s3"
    and deca: "\<forall>a\<in>set ?A. \<exists>p q. split_dunder a = [p, q] \<and> metadata_from_name E p \<noteq> None"
    by simp_all
  show "m' = m\<lparr>node_name := ?N\<rparr>" by (rule m')
  show "\<forall>x\<in>set ?L. metadata_from_name E x \<noteq> None" by (rule dec)
  show "\<forall>a\<in>set ?A. \<exists>p q. split_dunder a = [p, q] \<and> metadata_from_name E p \<noteq> None" by (rule deca)
  from b have bs: "b \<in> set (nodes s1)" and bnm: "nname b = node_name m"
    by (auto simp: node_by_name_def dest: find_SomeD)
  have NL': "?N \<notin> set ?L" using NL by simp
  have pt: "(let u = ren (node_name m) ?N nd;
                 v = (if nname u \<in> set ?L then u\<lparr>nname := reencode E bn sd (nname u)\<rparr> else u)
             in if nid v = nid b then reprefixed E bn sd ?A v else v) =
            renamed E bn sd (node_name m) ?L ?A nd" if nd: "nd \<in> set (nodes s1)" for nd
  proof (cases "nname nd = node_name m")
    case True
    with dn nd bs bnm have "nd = b" by (auto simp: distinct_map inj_on_def)
    then show ?thesis using True NL' by (simp add: Let_def ren_def renamed_def)
  next
    case False
    have "nid nd \<noteq> nid b"
    proof
      assume "nid nd = nid b"
      with di nd bs have "nd = b" by (auto simp: distinct_map inj_on_def)
      with False bnm show False by simp
    qed
    then show ?thesis using False by (simp add: Let_def ren_def renamed_def)
  qed
  have "nodes s' = map (renamed E bn sd (node_name m) ?L ?A) (nodes s1)"
    unfolding s' upd_node_def
    using pt by (simp add: n3 s2 Let_def o_def cong: map_cong)
  moreover have "conns s' = conns s1" "next_id s' = next_id s1"
    by (simp_all add: s' upd_node_def c3 s2)
  ultimately show "s' = s1\<lparr>nodes := map (renamed E bn sd (node_name m) ?L ?A) (nodes s1)\<rparr>"
    by (cases s'; cases s1) simp
qed

text \<open>
  Claim C1. A module whose \<open>is_built\<close> reads as false, and \<open>s1\<close> the scene once \<open>update\<close>
  has recomputed the constraint of the parent joint. In \<open>s1\<close> names and handles are
  distinct, the backing node exists with attributes of distinct names, its \<open>owned_nodes\<close>
  holds distinct handles, its own not among them, and the fields \<open>name\<close> and \<open>side\<close> read
  as \<open>bn\<close> and \<open>sd\<close>, one of which differs from what the name of the backing node decodes
  to. When \<open>update\<close> ends without an exception, the object has the newly encoded name as
  its \<open>node_name\<close>, and the scene is \<open>s1\<close> with: the backing node renamed to the encoding
  of its decoded record with \<open>base_name\<close> and \<open>side\<close> replaced; every node of
  \<open>owned_nodes\<close> renamed in the same way, its role, description and id being those
  decoded from its old name; and every attribute of the category
  \<open>persistent_attribute_backup\<close> of the backing node renamed so that the node name in
  front of the double underscore is re-encoded in the same way. Nothing else changes. The
  names so renamed all decode.
\<close>

theorem update_renames:
  assumes run: "update E (m, s) = (Inr (), (m', s'))"
    and unbuilt: "fst (field_get BoolField (node_name m) ''is_built'' s) = Inr built" "\<not> truthy built"
    and s1: "s1 = snd (update_parent_joint E m s)"
    and st: "settled m bn sd s1"
    and md: "metadata_from_name E (node_name m) = Some md"
    and changed: "bn \<noteq> base_name md \<or> sd \<noteq> side md"
    and b: "node_by_name s1 (node_name m) = Some b"
    and own: "distinct (stored_refs b ''owned_nodes'')" "nid b \<notin> set (stored_refs b ''owned_nodes'')"
    and da: "distinct (map aname (nattrs b))"
  shows "m' = m\<lparr>node_name := name_from_metadata E (md\<lparr>base_name := bn, side := sd\<rparr>)\<rparr>
       \<and> s' = s1\<lparr>nodes := map (renamed E bn sd (node_name m)
                  (ref_names s1 (stored_refs b ''owned_nodes'')) (persistent_attrs b)) (nodes s1)\<rparr>
       \<and> (\<forall>x\<in>set (ref_names s1 (stored_refs b ''owned_nodes'')). metadata_from_name E x \<noteq> None)
       \<and> (\<forall>a\<in>set (persistent_attrs b).
            \<exists>p q. split_dunder a = [p, q] \<and> metadata_from_name E p \<noteq> None)"
proof -
  have "reencode E bn sd (node_name m) = name_from_metadata E (md\<lparr>base_name := bn, side := sd\<rparr>)"
    by (simp add: reencode_def md)
  with update_renames_nodes[OF run unbuilt s1 st md changed b own da]
  show ?thesis by simp
qed

theorem update_renames_witness:
  "fst (update sample_env (arm, scene1 ''leg'' ''R'' False)) = Inr ()
   \<and> fst (snd (update sample_env (arm, scene1 ''leg'' ''R'' False))) = arm\<lparr>node_name := ''leg_R_mod''\<rparr>
   \<and> map nname (nodes (snd (snd (update sample_env (arm, scene1 ''leg'' ''R'' False))))) =
       [''rig'', ''modules'', ''skeleton'', ''leg_R_mod'', ''leg_R_placement_grp'',
        ''leg_R_controls_grp'', ''leg_R_extras_grp'', ''leg_R_0_deform'']
   \<and> map_option persistent_attrs
        (node_by_name (snd (snd (update sample_env (arm, scene1 ''leg'' ''R'' False)))) ''leg_R_mod'') =
       Some [''leg_R_0_ctl__shape_data'']"
proof -
  let ?s = "scene1 ''leg'' ''R'' False"
  let ?b = "module_node ''leg'' ''R'' False"
  let ?md = "\<lparr>base_name = ''arm'', side = ''L'', role = ''mod'', description = None, ident = None\<rparr>"
  have r: "fst (update sample_env (arm, ?s)) = Inr ()" by code_simp
  have run: "update sample_env (arm, ?s) =
               (Inr (), (fst (snd (update sample_env (arm, ?s))), snd (snd (update sample_env (arm, ?s)))))"
    using r by (metis prod.collapse)
  have u1: "fst (field_get BoolField (node_name arm) ''is_built'' ?s) = Inr (PBool False)" by code_simp
  have u2: "\<not> truthy (PBool False)" by code_simp
  have s1: "?s = snd (update_parent_joint sample_env arm ?s)" by code_simp
  have st: "settled arm ''leg'' ''R'' ?s" by code_simp
  have md: "metadata_from_name sample_env (node_name arm) = Some ?md" by code_simp
  have ch: "''leg'' \<noteq> base_name ?md \<or> ''R'' \<noteq> side ?md" by code_simp
  have b: "node_by_name ?s (node_name arm) = Some ?b" by code_simp
  have o1: "distinct (stored_refs ?b ''owned_nodes'')" by code_simp
  have o2: "nid ?b \<notin> set (stored_refs ?b ''owned_nodes'')" by code_simp
  have da: "distinct (map aname (nattrs ?b))" by code_simp
  have e1: "arm\<lparr>node_name := name_from_metadata sample_env (?md\<lparr>base_name := ''leg'', side := ''R''\<rparr>)\<rparr>
              = arm\<lparr>node_name := ''leg_R_mod''\<rparr>" by code_simp
  let ?s' = "?s\<lparr>nodes := map (renamed sample_env ''leg'' ''R'' (node_name arm)
                  (ref_names ?s (stored_refs ?b ''owned_nodes'')) (persistent_attrs ?b)) (nodes ?s)\<rparr>"
  have e2: "map nname (nodes ?s') =
       [''rig'', ''modules'', ''skeleton'', ''leg_R_mod'', ''leg_R_placement_grp'',
        ''leg_R_controls_grp'', ''leg_R_extras_grp'', ''leg_R_0_deform'']" by code_simp
  have e3: "map_option persistent_attrs (node_by_name ?s' ''leg_R_mod'') =
       Some [''leg_R_0_ctl__shape_data'']" by code_simp
  from update_renames[OF run u1 u2 s1 st md ch b o1 o2 da]
  show ?thesis using r e1 e2 e3 by simp
qed

end
